(* ===== verification/Prelude.thy ===== *)
theory Prelude
  imports Main "HOL-Library.State_Monad"
begin

text \<open>
  Shared ground of the development: the collections that carry the component proofs, the state
  monad in which the effectful code is written, the relations a computation abides by, and the
  generic lemmas on lists that several components use.

  Effectful Go functions are terms of the library's state monad and are written with its
  \<^theory_text>\<open>do\<close> syntax. Every computation of the model is total.
\<close>

named_theorems bytes_simps \<open>equations of the byte-string routines\<close>
named_theorems effect_simps \<open>what an external call does to the world\<close>
named_theorems framed_intros \<open>what the computations of the model leave alone\<close>

section \<open>Computations over a state\<close>

definition ret :: "'a \<Rightarrow> ('s, 'a) state" where
  "ret = State_Monad.return"

definition gets :: "('s \<Rightarrow> 'a) \<Rightarrow> ('s, 'a) state" where
  "gets f = State (\<lambda>s. (f s, s))"

definition modify :: "('s \<Rightarrow> 's) \<Rightarrow> ('s, unit) state" where
  "modify f = State (\<lambda>s. ((), f s))"

lemma run_ret [simp]: "run_state (ret x) s = (x, s)"
  by (simp add: ret_def)

lemma run_gets [simp]: "run_state (gets f) s = (f s, s)"
  by (simp add: gets_def)

lemma run_modify [simp]: "run_state (modify f) s = ((), f s)"
  by (simp add: modify_def)

text \<open>\<open>value_of m s\<close> and \<open>after m s\<close> name the two halves of a run.\<close>

definition value_of :: "('s, 'a) state \<Rightarrow> 's \<Rightarrow> 'a" where
  "value_of m s = fst (run_state m s)"

definition after :: "('s, 'a) state \<Rightarrow> 's \<Rightarrow> 's" where
  "after m s = snd (run_state m s)"

lemma run_state_value_after: "run_state m s = (value_of m s, after m s)"
  by (simp add: value_of_def after_def)

lemma value_of_bind: "value_of (State_Monad.bind m f) s = value_of (f (value_of m s)) (after m s)"
  by (simp add: value_of_def after_def split: prod.splits)

lemma after_bind: "after (State_Monad.bind m f) s = after (f (value_of m s)) (after m s)"
  by (simp add: value_of_def after_def split: prod.splits)

lemma value_of_ret [simp]: "value_of (ret x) s = x"
  by (simp add: value_of_def)

lemma after_ret [simp]: "after (ret x) s = s"
  by (simp add: after_def)

lemma after_gets [simp]: "after (gets f) s = s" and value_of_gets [simp]: "value_of (gets f) s = f s"
  by (simp_all add: after_def value_of_def)

lemma after_modify [simp]: "after (modify f) s = f s"
  by (simp add: after_def)

lemmas run_steps = value_of_bind after_bind

section \<open>What a computation abides by\<close>

text \<open>
  A computation abides by a relation when it relates every state to the state it ends in. For a
  reflexive and transitive relation the rules below follow the constructors of the monadic code,
  so that an operation's lemma is proved by them and the lemmas of what it calls.
\<close>

definition abides :: "('s \<Rightarrow> 's \<Rightarrow> bool) \<Rightarrow> ('s, 'a) state \<Rightarrow> bool" where
  "abides R m \<longleftrightarrow> (\<forall>s. R s (after m s))"

lemma abidesI: "(\<And>s. R s (after m s)) \<Longrightarrow> abides R m"
  by (simp add: abides_def)

lemma abidesD: "abides R m \<Longrightarrow> R s (after m s)"
  by (simp add: abides_def)

lemma abides_ret: "reflp R \<Longrightarrow> abides R (ret x)"
  by (simp add: abides_def reflpD)

lemma abides_gets: "reflp R \<Longrightarrow> abides R (gets f)"
  by (simp add: abides_def reflpD)

lemma abides_bind:
  "transp R \<Longrightarrow> abides R m \<Longrightarrow> (\<And>x. abides R (f x)) \<Longrightarrow> abides R (State_Monad.bind m f)"
  unfolding abides_def after_bind by (blast dest: transpD)

lemma abides_if: "(b \<Longrightarrow> abides R m) \<Longrightarrow> (\<not> b \<Longrightarrow> abides R n) \<Longrightarrow> abides R (if b then m else n)"
  by simp

lemma abides_option:
  "(y = None \<Longrightarrow> abides R m) \<Longrightarrow> (\<And>x. y = Some x \<Longrightarrow> abides R (f x))
     \<Longrightarrow> abides R (case y of None \<Rightarrow> m | Some x \<Rightarrow> f x)"
  by (cases y) simp_all

lemma abides_sum:
  "(\<And>x. y = Inl x \<Longrightarrow> abides R (f x)) \<Longrightarrow> (\<And>x. y = Inr x \<Longrightarrow> abides R (g x))
     \<Longrightarrow> abides R (case y of Inl x \<Rightarrow> f x | Inr x \<Rightarrow> g x)"
  by (cases y) simp_all

lemma abides_prod:
  "(\<And>x y. p = (x, y) \<Longrightarrow> abides R (f x y)) \<Longrightarrow> abides R (case p of (x, y) \<Rightarrow> f x y)"
  by (cases p) simp

lemma abides_let: "(\<And>x. x = e \<Longrightarrow> abides R (f x)) \<Longrightarrow> abides R (Let e f)"
  by (simp add: Let_def)

lemma abides_list:
  "(xs = [] \<Longrightarrow> abides R m) \<Longrightarrow> (\<And>y ys. xs = y # ys \<Longrightarrow> abides R (f y ys))
     \<Longrightarrow> abides R (case xs of [] \<Rightarrow> m | y # ys \<Rightarrow> f y ys)"
  by (cases xs) simp_all

lemmas abides_cases = abides_if abides_option abides_sum abides_prod abides_let abides_list

section \<open>Lists\<close>

lemma dropWhile_append_keep: "x \<in> set xs \<Longrightarrow> \<not> P x \<Longrightarrow> dropWhile P (xs @ ys) = dropWhile P xs @ ys"
  by (induction xs) auto

lemma length_takeWhile_less: "x \<in> set xs \<Longrightarrow> \<not> P x \<Longrightarrow> length (takeWhile P xs) < length xs"
  by (induction xs) auto

lemma set_concat_map: "set (concat (map f xs)) = (\<Union>x\<in>set xs. set (f x))"
  by simp

end
