(* ===== verification/Utf8.thy ===== *)
theory Utf8
  imports Prelude GoUnicode
begin

text \<open>
  Go's UTF-8 codec (package \<open>unicode/utf8\<close>), on which \<open>[]rune(s)\<close>, \<open>range\<close> over a string and the
  routines of package \<open>strings\<close> rest. A Go string is a sequence of bytes, and so is HOL's
  \<open>string\<close>: a \<open>char\<close> is eight bits. Decoding follows \<open>utf8.DecodeRuneInString\<close> byte for byte,
  ill-formed input included: it yields \<open>RuneError\<close> of width one. The lemmas show that decoding and
  encoding are inverse on Unicode scalar values and characterise the well-formed strings.
\<close>

section \<open>Bytes and runes\<close>

definition byte :: "char \<Rightarrow> nat" where
  "byte c = of_char c"

definition cont_byte :: "char \<Rightarrow> bool" where
  "cont_byte c \<longleftrightarrow> 0x80 \<le> byte c \<and> byte c \<le> 0xBF"

lemma byte_less: "byte c < 256"
proof -
  have "(of_char c :: nat) mod 256 = of_char c"
    by (rule of_char_mod_256)
  then show ?thesis by (metis byte_def mod_less_divisor zero_less_numeral)
qed

lemma byte_inject [simp]: "byte c = byte d \<longleftrightarrow> c = d"
  by (simp add: byte_def)

lemma byte_char_of [simp]: "n < 256 \<Longrightarrow> byte (char_of n) = n"
  by (simp add: byte_def)

lemma char_of_byte [simp]: "char_of (byte c) = c"
  by (simp add: byte_def)

text \<open>The accepted range of the second byte, given the first (Go's table of accept ranges).\<close>

definition second_ok :: "nat \<Rightarrow> char \<Rightarrow> bool" where
  "second_ok b0 c \<longleftrightarrow>
     (let lo = (if b0 = 0xE0 then 0xA0 else if b0 = 0xF0 then 0x90 else 0x80);
          hi = (if b0 = 0xED then 0x9F else if b0 = 0xF4 then 0x8F else 0xBF)
      in lo \<le> byte c \<and> byte c \<le> hi)"

definition DecodeRune :: "string \<Rightarrow> nat \<times> nat" where
  "DecodeRune s =
     (case s of
        [] \<Rightarrow> (RuneError, 0)
      | c # cs \<Rightarrow>
          (let b0 = byte c in
           if b0 < 0x80 then (b0, 1)
           else if 0xC2 \<le> b0 \<and> b0 \<le> 0xDF then
             (case cs of
                c1 # _ \<Rightarrow> if second_ok b0 c1 then (b0 mod 32 * 64 + byte c1 mod 64, 2)
                          else (RuneError, 1)
              | _ \<Rightarrow> (RuneError, 1))
           else if 0xE0 \<le> b0 \<and> b0 \<le> 0xEF then
             (case cs of
                c1 # c2 # _ \<Rightarrow>
                  if second_ok b0 c1 \<and> cont_byte c2
                  then (b0 mod 16 * 4096 + byte c1 mod 64 * 64 + byte c2 mod 64, 3)
                  else (RuneError, 1)
              | _ \<Rightarrow> (RuneError, 1))
           else if 0xF0 \<le> b0 \<and> b0 \<le> 0xF4 then
             (case cs of
                c1 # c2 # c3 # _ \<Rightarrow>
                  if second_ok b0 c1 \<and> cont_byte c2 \<and> cont_byte c3
                  then (b0 mod 8 * 262144 + byte c1 mod 64 * 4096 + byte c2 mod 64 * 64
                          + byte c3 mod 64, 4)
                  else (RuneError, 1)
              | _ \<Rightarrow> (RuneError, 1))
           else (RuneError, 1)))"

lemma DecodeRune_ascii [simp]: "byte c < 0x80 \<Longrightarrow> DecodeRune (c # cs) = (byte c, 1)"
  by (simp add: DecodeRune_def Let_def)

lemma DecodeRune_width_pos: "s \<noteq> [] \<Longrightarrow> 0 < snd (DecodeRune s)"
  by (auto simp: DecodeRune_def Let_def split: list.splits)

lemma DecodeRune_width_le: "snd (DecodeRune s) \<le> length s"
  by (auto simp: DecodeRune_def Let_def split: list.splits)

text \<open>
  \<open>pieces\<close> is the loop \<open>for _, r := range s\<close>: each rune with the bytes it was read from. An
  ill-formed byte is a piece of its own, with the rune \<open>RuneError\<close>.
\<close>

function pieces :: "string \<Rightarrow> (nat \<times> string) list" where
  "pieces s =
     (if s = [] then []
      else (fst (DecodeRune s), take (snd (DecodeRune s)) s) # pieces (drop (snd (DecodeRune s)) s))"
  by pat_completeness auto
termination
  by (relation "measure length") (auto simp: DecodeRune_width_pos)

declare pieces.simps [simp del]

lemma pieces_Nil [simp]: "pieces [] = []"
  by (simp add: pieces.simps)

lemma pieces_eq_Nil [simp]: "pieces s = [] \<longleftrightarrow> s = []"
  by (cases "s = []") (simp_all add: pieces.simps [of s])

lemma pieces_ascii [simp]: "byte c < 0x80 \<Longrightarrow> pieces (c # cs) = (byte c, [c]) # pieces cs"
  by (simp add: pieces.simps [of "c # cs"])

lemma concat_pieces: "concat (map snd (pieces s)) = s"
proof (induction s rule: pieces.induct)
  case (1 s)
  then show ?case
    by (cases "s = []") (simp_all add: pieces.simps [of s])
qed

definition runes :: "string \<Rightarrow> nat list" where
  "runes s = map fst (pieces s)"

lemma runes_Nil [simp]: "runes [] = []"
  by (simp add: runes_def)

definition is_ascii :: "string \<Rightarrow> bool" where
  "is_ascii s \<longleftrightarrow> (\<forall>c \<in> set s. byte c < 0x80)"

lemma is_ascii_simps [simp]:
  "is_ascii []" "is_ascii (c # s) \<longleftrightarrow> byte c < 0x80 \<and> is_ascii s"
  "is_ascii (s @ t) \<longleftrightarrow> is_ascii s \<and> is_ascii t"
  by (auto simp: is_ascii_def)

lemma pieces_of_ascii: "is_ascii s \<Longrightarrow> pieces s = map (\<lambda>c. (byte c, [c])) s"
  by (induction s) simp_all

lemma runes_of_ascii: "is_ascii s \<Longrightarrow> runes s = map byte s"
  by (simp add: runes_def pieces_of_ascii)

text \<open>\<open>string(r)\<close> and \<open>Builder.WriteRune\<close>: surrogates and values past the range become \<open>RuneError\<close>.\<close>

definition encode_rune :: "nat \<Rightarrow> string" where
  "encode_rune r =
     (if r < 0x80 then [char_of r]
      else if r < 0x800 then [char_of (0xC0 + r div 64), char_of (0x80 + r mod 64)]
      else if 0xD800 \<le> r \<and> r \<le> 0xDFFF \<or> 0x10FFFF < r then
        [char_of (0xEF::nat), char_of (0xBF::nat), char_of (0xBD::nat)]
      else if r < 0x10000 then
        [char_of (0xE0 + r div 4096), char_of (0x80 + r div 64 mod 64), char_of (0x80 + r mod 64)]
      else
        [char_of (0xF0 + r div 262144), char_of (0x80 + r div 4096 mod 64),
         char_of (0x80 + r div 64 mod 64), char_of (0x80 + r mod 64)])"

definition string_of_runes :: "nat list \<Rightarrow> string" where
  "string_of_runes rs = concat (map encode_rune rs)"



section \<open>Encoding and decoding are inverse\<close>

text \<open>The Unicode scalar values: what \<open>utf8.ValidRune\<close> accepts.\<close>

definition scalar :: "nat \<Rightarrow> bool" where
  "scalar r \<longleftrightarrow> r \<le> 0x10FFFF \<and> \<not> (0xD800 \<le> r \<and> r \<le> 0xDFFF)"

lemma byte_char_of_mod: "byte (char_of n) = n mod 256"
  by (simp add: byte_def)

lemma char_of_eq_iff: "n < 256 \<Longrightarrow> char_of n = c \<longleftrightarrow> n = byte c"
  by (metis byte_char_of char_of_byte)

text \<open>Base-64 digits: what the shifts and masks of the codec read back.\<close>

lemma mod_offset: "k mod m = 0 \<Longrightarrow> a < m \<Longrightarrow> (k + a) mod m = (a::nat)"
  by (metis add_0 mod_add_left_eq mod_less)

lemma digit2: "b < 64 \<Longrightarrow> (a * 64 + b) div 64 = a" "b < 64 \<Longrightarrow> (a * 64 + b) mod 64 = (b::nat)"
  by simp_all

lemma div_4096: "r div 4096 = r div 64 div (64::nat)"
  by (simp flip: div_mult2_eq)

lemma div_262144: "r div 262144 = r div 64 div 64 div (64::nat)"
  by (simp flip: div_mult2_eq)

lemma digits_nat: "r = r div 64 * 64 + r mod (64::nat)" "r mod (64::nat) < 64"
  by simp_all

lemmas digit_simps = digit2 div_4096 div_262144

lemma second_ok_cont: "second_ok b c \<Longrightarrow> 0x80 \<le> byte c \<and> byte c \<le> 0xBF"
  by (auto simp: second_ok_def Let_def split: if_splits)

lemma lead_mod:
  "a < 32 \<Longrightarrow> (0xC0 + a) mod 32 = (a::nat)"
  "a < 16 \<Longrightarrow> (0xE0 + a) mod 16 = (a::nat)"
  "a < 8 \<Longrightarrow> (0xF0 + a) mod 8 = (a::nat)"
  "a < 64 \<Longrightarrow> (0x80 + a) mod 64 = (a::nat)"
  by (rule mod_offset; simp)+

lemma decode_encode_2:
  assumes "0x80 \<le> r" "r < 0x800"
  shows "DecodeRune (encode_rune r @ t) = (r, length (encode_rune r))"
proof -
  define a b where "a = r div 64" and "b = r mod 64"
  have r: "r = a * 64 + b" and b: "b < 64" by (simp_all add: a_def b_def)
  have a: "2 \<le> a" "a < 32" using assms b unfolding r by linarith+
  have e: "encode_rune r = [char_of (0xC0 + a), char_of (0x80 + b)]"
    using assms by (simp add: encode_rune_def a_def b_def)
  show ?thesis
    unfolding e using a b
    by (simp add: DecodeRune_def second_ok_def byte_char_of lead_mod r)
qed

lemma decode_encode_3:
  assumes "0x800 \<le> r" "r < 0x10000" "\<not> (0xD800 \<le> r \<and> r \<le> 0xDFFF)"
  shows "DecodeRune (encode_rune r @ t) = (r, length (encode_rune r))"
proof -
  define a b c where "a = r div 64 div 64" and "b = r div 64 mod 64" and "c = r mod 64"
  have r: "r = (a * 64 + b) * 64 + c" and bc: "c < 64" "b < 64"
    by (simp_all add: a_def b_def c_def)
  then have f: "r = a * 4096 + b * 64 + c" by simp
  have a: "a < 16" using assms(2) f by linarith
  have e: "encode_rune r = [char_of (0xE0 + a), char_of (0x80 + b), char_of (0x80 + c)]"
    using assms(1,2) by (simp add: encode_rune_def a_def b_def c_def div_4096 assms(3))
  have lo: "a = 0 \<Longrightarrow> 32 \<le> b" using assms(1) bc f by linarith
  have hi: "a = 13 \<Longrightarrow> b < 32" using assms(3) bc f by linarith
  have s: "second_ok (0xE0 + a) (char_of (0x80 + b))"
    using lo hi bc(2) a by (cases "a = 0"; cases "a = 13") (simp_all add: second_ok_def byte_char_of)
  show ?thesis
    unfolding e using a bc s
    by (simp add: DecodeRune_def cont_byte_def byte_char_of lead_mod r)
qed

lemma decode_encode_4:
  assumes "0x10000 \<le> r" "r \<le> 0x10FFFF"
  shows "DecodeRune (encode_rune r @ t) = (r, length (encode_rune r))"
proof -
  define a b c d where "a = r div 64 div 64 div 64" and "b = r div 64 div 64 mod 64"
    and "c = r div 64 mod 64" and "d = r mod 64"
  have r: "r = ((a * 64 + b) * 64 + c) * 64 + d" and bcd: "d < 64" "c < 64" "b < 64"
    by (simp_all add: a_def b_def c_def d_def)
  then have f: "r = a * 262144 + b * 4096 + c * 64 + d" by simp
  have a: "a < 5" using assms(2) f by linarith
  have e: "encode_rune r =
      [char_of (0xF0 + a), char_of (0x80 + b), char_of (0x80 + c), char_of (0x80 + d)]"
    using assms by (simp add: encode_rune_def a_def b_def c_def d_def div_4096 div_262144)
  have lo: "a = 0 \<Longrightarrow> 16 \<le> b" using assms(1) bcd f by linarith
  have hi: "a = 4 \<Longrightarrow> b < 16" using assms(2) bcd f by linarith
  have s: "second_ok (0xF0 + a) (char_of (0x80 + b))"
    using lo hi bcd(3) a by (cases "a = 0"; cases "a = 4") (simp_all add: second_ok_def byte_char_of)
  show ?thesis
    unfolding e using a bcd s
    by (simp add: DecodeRune_def cont_byte_def byte_char_of lead_mod r)
qed

lemma DecodeRune_encode_rune:
  assumes "scalar r"
  shows "DecodeRune (encode_rune r @ t) = (r, length (encode_rune r))"
proof -
  consider "r < 0x80" | "0x80 \<le> r" "r < 0x800" | "0x800 \<le> r" "r < 0x10000" | "0x10000 \<le> r"
    by linarith
  then show ?thesis
  proof cases
    case 1
    then show ?thesis by (simp add: encode_rune_def)
  next
    case 2
    then show ?thesis by (rule decode_encode_2)
  next
    case 3
    then show ?thesis using assms by (intro decode_encode_3) (auto simp: scalar_def)
  next
    case 4
    then show ?thesis using assms by (intro decode_encode_4) (auto simp: scalar_def)
  qed
qed

lemma encode_rune_neq_Nil [simp]: "encode_rune r \<noteq> []"
  by (simp add: encode_rune_def)

lemma encode_decode_2:
  assumes "0xC2 \<le> byte c" "byte c \<le> 0xDF" "second_ok (byte c) c1"
  shows "scalar (byte c mod 32 * 64 + byte c1 mod 64) \<and>
    encode_rune (byte c mod 32 * 64 + byte c1 mod 64) = [c, c1]"
proof -
  define x y where "x = byte c - 0xC0" and "y = byte c1 - 0x80"
  have xy: "byte c = 0xC0 + x" "byte c1 = 0x80 + y" "2 \<le> x" "x < 32" "y < 64"
    using assms second_ok_cont [OF assms(3)] by (auto simp: x_def y_def)
  have "encode_rune (x * 64 + y) = [char_of (0xC0 + x), char_of (0x80 + y)]"
    using xy(3-5) by (simp add: encode_rune_def digit2)
  then show ?thesis
    using xy(3-5) by (simp add: xy(1,2) lead_mod scalar_def char_of_eq_iff)
qed

lemma encode_decode_3:
  assumes "0xE0 \<le> byte c" "byte c \<le> 0xEF" "second_ok (byte c) c1" "cont_byte c2"
  shows "scalar (byte c mod 16 * 4096 + byte c1 mod 64 * 64 + byte c2 mod 64) \<and>
    encode_rune (byte c mod 16 * 4096 + byte c1 mod 64 * 64 + byte c2 mod 64) = [c, c1, c2]"
proof -
  define x y z where "x = byte c - 0xE0" and "y = byte c1 - 0x80" and "z = byte c2 - 0x80"
  have xyz: "byte c = 0xE0 + x" "byte c1 = 0x80 + y" "byte c2 = 0x80 + z" "x < 16" "y < 64" "z < 64"
    using assms second_ok_cont [OF assms(3)] by (auto simp: x_def y_def z_def cont_byte_def)
  have lo: "x = 0 \<Longrightarrow> 32 \<le> y" and hi: "x = 13 \<Longrightarrow> y < 32"
    using assms(3) xyz by (auto simp: second_ok_def Let_def)
  define r where "r = (x * 64 + y) * 64 + z"
  have f: "r = x * 4096 + y * 64 + z" by (simp add: r_def)
  have v: "0x800 \<le> r" "r < 0x10000"
    using lo xyz(4-6) f by (cases "x = 0"; linarith)+
  have v': "\<not> (0xD800 \<le> r \<and> r \<le> 0xDFFF)"
  proof
    assume "0xD800 \<le> r \<and> r \<le> 0xDFFF"
    then have "x = 13" using xyz(4-6) f by linarith
    then show False using hi \<open>0xD800 \<le> r \<and> r \<le> 0xDFFF\<close> xyz(6) f by linarith
  qed
  have q: "r div 64 = x * 64 + y" "r mod 64 = z"
    unfolding r_def by (rule digit2, fact)+
  have d: "r div 4096 = x" "r div 64 mod 64 = y" "r mod 64 = z"
    unfolding div_4096 q by (rule digit2, fact)+ simp
  have e: "encode_rune r = [char_of (0xE0 + x), char_of (0x80 + y), char_of (0x80 + z)]"
    using v v' by (auto simp: encode_rune_def d)
  have "byte c mod 16 * 4096 + byte c1 mod 64 * 64 + byte c2 mod 64 = r"
    by (simp add: xyz lead_mod r_def)
  then show ?thesis
    using v v' e xyz by (simp add: scalar_def char_of_eq_iff)
qed

lemma encode_decode_4:
  assumes "0xF0 \<le> byte c" "byte c \<le> 0xF4" "second_ok (byte c) c1" "cont_byte c2" "cont_byte c3"
  defines "r \<equiv> byte c mod 8 * 262144 + byte c1 mod 64 * 4096 + byte c2 mod 64 * 64 + byte c3 mod 64"
  shows "scalar r \<and> encode_rune r = [c, c1, c2, c3]"
proof -
  define x y z u where "x = byte c - 0xF0" and "y = byte c1 - 0x80" and "z = byte c2 - 0x80"
    and "u = byte c3 - 0x80"
  have xyz: "byte c = 0xF0 + x" "byte c1 = 0x80 + y" "byte c2 = 0x80 + z" "byte c3 = 0x80 + u"
      "x < 5" "y < 64" "z < 64" "u < 64"
    using assms second_ok_cont [OF assms(3)] by (auto simp: x_def y_def z_def u_def cont_byte_def)
  have lo: "x = 0 \<Longrightarrow> 16 \<le> y" and hi: "x = 4 \<Longrightarrow> y < 16"
    using assms(3) xyz by (auto simp: second_ok_def Let_def)
  have r: "r = ((x * 64 + y) * 64 + z) * 64 + u"
    using xyz(5-8) by (simp add: r_def xyz(1-4) lead_mod)
  have f: "r = x * 262144 + y * 4096 + z * 64 + u" by (simp add: r)
  have v: "0x10000 \<le> r"
    using lo xyz(5-8) f by (cases "x = 0"; linarith)
  have v': "r \<le> 0x10FFFF"
    using hi xyz(5-8) f by (cases "x = 4"; linarith)
  have q: "r div 64 = (x * 64 + y) * 64 + z" "r mod 64 = u"
    unfolding r by (rule digit2, fact)+
  have q': "((x * 64 + y) * 64 + z) div 64 = x * 64 + y"
    by (rule digit2, fact)
  have d: "r div 262144 = x" "r div 4096 mod 64 = y" "r div 64 mod 64 = z" "r mod 64 = u"
    unfolding div_4096 div_262144 q q' by (rule digit2, fact)+ simp
  have e: "encode_rune r =
      [char_of (0xF0 + x), char_of (0x80 + y), char_of (0x80 + z), char_of (0x80 + u)]"
    using v v' by (simp add: encode_rune_def d)
  then show ?thesis
    using v v' xyz by (simp add: scalar_def char_of_eq_iff)
qed


definition ok_piece :: "nat \<times> string \<Rightarrow> bool" where
  "ok_piece p \<longleftrightarrow> \<not> (fst p = RuneError \<and> length (snd p) = 1)"

lemma DecodeRune_ok:
  assumes "s \<noteq> []" and "\<not> (fst (DecodeRune s) = RuneError \<and> snd (DecodeRune s) = 1)"
  shows "scalar (fst (DecodeRune s)) \<and> encode_rune (fst (DecodeRune s)) = take (snd (DecodeRune s)) s"
proof -
  obtain c cs where s: "s = c # cs" using assms(1) by (cases s) auto
  consider "byte c < 0x80" | "0x80 \<le> byte c" "byte c < 0xC2" | "0xC2 \<le> byte c" "byte c \<le> 0xDF"
    | "0xE0 \<le> byte c" "byte c \<le> 0xEF" | "0xF0 \<le> byte c" "byte c \<le> 0xF4" | "0xF4 < byte c"
    by linarith
  then show ?thesis
  proof cases
    case 1
    then show ?thesis by (simp add: s encode_rune_def scalar_def)
  next
    case 3
    with assms(2) obtain c1 t where "cs = c1 # t" "second_ok (byte c) c1"
      by (auto simp: s DecodeRune_def Let_def split: list.splits if_splits)
    then show ?thesis using 3 encode_decode_2 [OF 3, of c1] by (simp add: s DecodeRune_def)
  next
    case 4
    with assms(2) obtain c1 c2 t where "cs = c1 # c2 # t" "second_ok (byte c) c1" "cont_byte c2"
      by (auto simp: s DecodeRune_def Let_def split: list.splits if_splits)
    then show ?thesis using 4 encode_decode_3 [OF 4, of c1 c2] by (simp add: s DecodeRune_def)
  next
    case 5
    with assms(2) obtain c1 c2 c3 t where "cs = c1 # c2 # c3 # t" "second_ok (byte c) c1"
        "cont_byte c2" "cont_byte c3"
      by (auto simp: s DecodeRune_def Let_def split: list.splits if_splits)
    then show ?thesis using 5 encode_decode_4 [OF 5, of c1 c2 c3] by (simp add: s DecodeRune_def)
  qed (use assms(2) in \<open>auto simp: s DecodeRune_def Let_def\<close>)
qed

lemma pieces_ok_piece:
  "p \<in> set (pieces s) \<Longrightarrow> ok_piece p \<Longrightarrow> scalar (fst p) \<and> snd p = encode_rune (fst p)"
proof (induction s rule: pieces.induct)
  case (1 s)
  show ?case
  proof (cases "s = []")
    case False
    have w: "min (length s) (snd (DecodeRune s)) = snd (DecodeRune s)"
      using DecodeRune_width_le by (simp add: min_absorb2)
    from False 1 show ?thesis
      using DecodeRune_ok [OF False] by (auto simp: pieces.simps [of s] ok_piece_def w)
  qed (use 1 in simp)
qed

lemma pieces_encode_rune [simp]:
  "scalar r \<Longrightarrow> pieces (encode_rune r @ t) = (r, encode_rune r) # pieces t"
  by (simp add: pieces.simps [of "encode_rune r @ t"] DecodeRune_encode_rune)

lemma string_of_runes_simps [simp]:
  "string_of_runes [] = []"
  "string_of_runes (r # rs) = encode_rune r @ string_of_runes rs"
  "string_of_runes (rs @ rs') = string_of_runes rs @ string_of_runes rs'"
  by (simp_all add: string_of_runes_def)

lemma pieces_string_of_runes:
  "list_all scalar rs \<Longrightarrow>
     pieces (string_of_runes rs @ t) = map (\<lambda>r. (r, encode_rune r)) rs @ pieces t"
  by (induction rs) simp_all

lemma runes_string_of_runes [simp]: "list_all scalar rs \<Longrightarrow> runes (string_of_runes rs) = rs"
  using pieces_string_of_runes [of rs "[]"] by (simp add: runes_def comp_def)

text \<open>\<open>utf8.ValidString\<close>: no piece is ill-formed.\<close>

definition valid_utf8 :: "string \<Rightarrow> bool" where
  "valid_utf8 s \<longleftrightarrow> list_all ok_piece (pieces s)"

lemma encode_rune_ok_piece: "scalar r \<Longrightarrow> ok_piece (r, encode_rune r)"
  by (auto simp: ok_piece_def encode_rune_def RuneError_def)

lemma valid_utf8_string_of_runes [simp]: "list_all scalar rs \<Longrightarrow> valid_utf8 (string_of_runes rs)"
  using pieces_string_of_runes [of rs "[]"]
  by (simp add: valid_utf8_def list_all_iff encode_rune_ok_piece)

lemma valid_utf8_runes:
  assumes "valid_utf8 s"
  shows "list_all scalar (runes s)" "string_of_runes (runes s) = s"
proof -
  have *: "\<forall>p \<in> set (pieces s). scalar (fst p) \<and> snd p = encode_rune (fst p)"
    using assms pieces_ok_piece by (auto simp: valid_utf8_def list_all_iff)
  then show "list_all scalar (runes s)" by (simp add: runes_def list_all_iff)
  have "string_of_runes (runes s) = concat (map snd (pieces s))"
    using * by (simp add: string_of_runes_def runes_def comp_def cong: map_cong)
  then show "string_of_runes (runes s) = s" by (simp add: concat_pieces)
qed

lemma valid_utf8_ascii: "is_ascii s \<Longrightarrow> valid_utf8 s"
  by (auto simp: valid_utf8_def pieces_of_ascii list_all_iff ok_piece_def RuneError_def is_ascii_def)

text \<open>\<open>strings.ToValidUTF8(s, rep)\<close>: each maximal run of ill-formed bytes becomes one \<open>rep\<close>.\<close>

fun valid_loop :: "string \<Rightarrow> bool \<Rightarrow> (nat \<times> string) list \<Rightarrow> string" where
  "valid_loop rep bad [] = []"
| "valid_loop rep bad (p # ps) =
     (if ok_piece p then snd p @ valid_loop rep False ps
      else (if bad then [] else rep) @ valid_loop rep True ps)"

definition ToValidUTF8 :: "string \<Rightarrow> string \<Rightarrow> string" where
  "ToValidUTF8 s rep = valid_loop rep False (pieces s)"

lemma valid_loop_drop: "valid_loop [] bad ps = concat (map snd (filter ok_piece ps))"
  by (induction ps arbitrary: bad) simp_all

definition valid_runes :: "string \<Rightarrow> nat list" where
  "valid_runes s = map fst (filter ok_piece (pieces s))"

lemma valid_runes_scalar: "list_all scalar (valid_runes s)"
  using pieces_ok_piece by (auto simp: valid_runes_def list_all_iff)

lemma ToValidUTF8_drop: "ToValidUTF8 s [] = string_of_runes (valid_runes s)"
proof -
  have *: "map snd (filter ok_piece (pieces s)) = map (encode_rune \<circ> fst) (filter ok_piece (pieces s))"
    by (rule map_cong) (use pieces_ok_piece in auto)
  show ?thesis
    unfolding ToValidUTF8_def valid_loop_drop * by (simp add: string_of_runes_def valid_runes_def)
qed

lemma valid_runes_valid: "valid_utf8 s \<Longrightarrow> valid_runes s = runes s"
  by (simp add: valid_utf8_def valid_runes_def runes_def list_all_iff cong: filter_cong)


text \<open>An ASCII byte occurs in the encoding of its own rune only.\<close>

lemma encode_rune_high:
  assumes "scalar r" "0x80 \<le> r" "c \<in> set (encode_rune r)"
  shows "0x80 \<le> byte c"
proof -
  have "r < 0x800 \<Longrightarrow> r div 64 < 0x20" "r < 0x10000 \<Longrightarrow> r div 4096 < 16" "r div 262144 < 5"
    using assms(1) by (auto simp: scalar_def intro!: less_mult_imp_div_less)
  moreover have "n mod 64 < 64" for n :: nat by simp
  ultimately have "\<forall>c \<in> set (encode_rune r). 0x80 \<le> byte c"
    using assms(1,2) by (auto simp: encode_rune_def scalar_def byte_char_of trans_less_add1)
  with assms(3) show ?thesis by blast
qed

lemma ascii_in_encode_rune:
  assumes "scalar r" "byte c < 0x80"
  shows "c \<in> set (encode_rune r) \<longleftrightarrow> r = byte c"
proof (cases "r < 0x80")
  case True
  then show ?thesis by (auto simp: encode_rune_def)
next
  case False
  then show ?thesis using encode_rune_high [OF assms(1), of c] assms(2) by auto
qed

lemma ascii_in_string_of_runes:
  "list_all scalar rs \<Longrightarrow> byte c < 0x80 \<Longrightarrow> c \<in> set (string_of_runes rs) \<longleftrightarrow> byte c \<in> set rs"
  by (induction rs) (auto simp: ascii_in_encode_rune)

end
