(* ===== verification/GoStrings.thy ===== *)
theory GoStrings
  imports Utf8 "HOL-Library.Sublist"
begin

text \<open>
  The routines of the packages \<open>strings\<close> and \<open>strconv\<close> that the program calls, on byte strings,
  with the facts about them that the components use.
\<close>

section \<open>Trimming\<close>

text \<open>\<open>utf8.DecodeLastRuneInString\<close>: walk back to the nearest byte that can start a rune.\<close>

definition DecodeLastRune :: "string \<Rightarrow> nat \<times> nat" where
  "DecodeLastRune s =
     (if s = [] then (RuneError, 0)
      else if byte (last s) < 0x80 then (byte (last s), 1)
      else (case find (\<lambda>k. k \<le> length s \<and> \<not> cont_byte (s ! (length s - k))) [2, 3, 4] of
              Some k \<Rightarrow>
                (let d = DecodeRune (drop (length s - k) s)
                 in if snd d = k then d else (RuneError, 1))
            | None \<Rightarrow> (RuneError, 1)))"

lemma DecodeLastRune_width: "s \<noteq> [] \<Longrightarrow> 0 < snd (DecodeLastRune s)"
  by (auto simp: DecodeLastRune_def Let_def find_Some_iff split: option.splits)

definition TrimLeftSpace :: "string \<Rightarrow> string" where
  "TrimLeftSpace s = concat (map snd (dropWhile (\<lambda>p. is_space_rune (fst p)) (pieces s)))"

function TrimRightSpace :: "string \<Rightarrow> string" where
  "TrimRightSpace s =
     (if s = [] then []
      else if is_space_rune (fst (DecodeLastRune s))
      then TrimRightSpace (take (length s - snd (DecodeLastRune s)) s)
      else s)"
  by pat_completeness auto
termination
  by (relation "measure length") (auto simp: DecodeLastRune_width)

declare TrimRightSpace.simps [simp del]

definition TrimSpace :: "string \<Rightarrow> string" where
  "TrimSpace s = TrimRightSpace (TrimLeftSpace s)"

definition ascii_space :: "char \<Rightarrow> bool" where
  "ascii_space c \<longleftrightarrow> byte c \<in> {9, 10, 11, 12, 13, 32}"

text \<open>\<open>strings.Trim(s, cutset)\<close> for a cutset of ASCII bytes.\<close>

definition TrimBytes :: "string \<Rightarrow> string \<Rightarrow> string" where
  "TrimBytes s cs = rev (dropWhile (\<lambda>c. c \<in> set cs) (rev (dropWhile (\<lambda>c. c \<in> set cs) s)))"

definition TrimSuffix :: "string \<Rightarrow> string \<Rightarrow> string" where
  "TrimSuffix s suf = (if suffix suf s then take (length s - length suf) s else s)"

section \<open>Case, searching, replacing, splitting\<close>

text \<open>\<open>strings.ToLower\<close>: an ill-formed byte is read as \<open>RuneError\<close> and written as its encoding.\<close>

definition ToLower :: "string \<Rightarrow> string" where
  "ToLower s = string_of_runes (map unicode_lower (runes s))"

fun Contains :: "string \<Rightarrow> string \<Rightarrow> bool" where
  "Contains [] sub \<longleftrightarrow> sub = []"
| "Contains (c # s) sub \<longleftrightarrow> prefix sub (c # s) \<or> Contains s sub"

text \<open>\<open>strings.ReplaceAll(s, old, new)\<close> for a non-empty \<open>old\<close>, the only way it is called.\<close>

fun ReplaceAll :: "string \<Rightarrow> string \<Rightarrow> string \<Rightarrow> string" where
  "ReplaceAll [] old new = []"
| "ReplaceAll (c # s) old new =
     (if old \<noteq> [] \<and> prefix old (c # s)
      then new @ ReplaceAll (drop (length old - 1) s) old new
      else c # ReplaceAll s old new)"

text \<open>\<open>strings.Split(s, sep)\<close> for a one-byte separator.\<close>

fun SplitByte :: "char \<Rightarrow> string \<Rightarrow> string list" where
  "SplitByte sep [] = [[]]"
| "SplitByte sep (c # s) =
     (if c = sep then [] # SplitByte sep s
      else (case SplitByte sep s of [] \<Rightarrow> [[c]] | p # ps \<Rightarrow> (c # p) # ps))"

fun Join :: "string list \<Rightarrow> string \<Rightarrow> string" where
  "Join [] sep = []"
| "Join [s] sep = s"
| "Join (s # t # ss) sep = s @ sep @ Join (t # ss) sep"

section \<open>Decimal numbers\<close>

fun digits_of_nat :: "nat \<Rightarrow> string" where
  "digits_of_nat n =
     (if n < 10 then [char_of (48 + n)] else digits_of_nat (n div 10) @ [char_of (48 + n mod 10)])"

declare digits_of_nat.simps [simp del]

text \<open>\<open>strconv.Itoa\<close>, and \<open>%d\<close> of an integer.\<close>

definition Itoa :: "int \<Rightarrow> string" where
  "Itoa i = (if i < 0 then CHR ''-'' # digits_of_nat (nat (- i)) else digits_of_nat (nat i))"

section \<open>Facts about the routines\<close>

lemma Contains_sublist: "Contains s sub \<longleftrightarrow> sublist sub s"
  by (induction s) (auto simp: sublist_Cons_right)

lemma ReplaceAll_byte: "ReplaceAll s [b] new = concat (map (\<lambda>c. if c = b then new else [c]) s)"
  by (induction s) auto

lemma ReplaceAll_delete: "ReplaceAll s [b] [] = filter (\<lambda>c. c \<noteq> b) s"
  by (induction s) auto

lemma SplitByte_neq_Nil [simp]: "SplitByte sep s \<noteq> []"
  by (induction s) (auto split: list.splits)

lemma Join_SplitByte: "Join (SplitByte sep s) [sep] = s"
proof (induction s)
  case (Cons c s)
  then show ?case
    by (cases "SplitByte sep s" rule: list.exhaust; cases "tl (SplitByte sep s)") auto
qed simp

lemma SplitByte_no_sep: "p \<in> set (SplitByte sep s) \<Longrightarrow> sep \<notin> set p"
  by (induction s arbitrary: p) (auto split: list.splits if_splits)

lemma Join_Cons: "ss \<noteq> [] \<Longrightarrow> Join (s # ss) sep = s @ sep @ Join ss sep"
  by (cases ss) simp_all

lemma set_Join: "set (Join ss sep) \<subseteq> (\<Union>s\<in>set ss. set s) \<union> set sep"
  by (induction ss sep rule: Join.induct) auto

text \<open>On ASCII the two trims are the byte loops of the routine's fast path.\<close>

lemma is_space_rune_byte: "byte c < 0x80 \<Longrightarrow> is_space_rune (byte c) = ascii_space c"
  by (auto simp: is_space_rune_def ascii_space_def)

lemma TrimLeftSpace_ascii: "is_ascii s \<Longrightarrow> TrimLeftSpace s = dropWhile ascii_space s"
proof -
  assume a: "is_ascii s"
  have "dropWhile (\<lambda>p. is_space_rune (fst p)) (map (\<lambda>c. (byte c, [c])) s)
      = map (\<lambda>c. (byte c, [c])) (dropWhile ascii_space s)"
    using a by (induction s) (auto simp: is_space_rune_byte)
  then show ?thesis
    by (simp add: TrimLeftSpace_def pieces_of_ascii a comp_def)
qed

lemma TrimRightSpace_ascii: "is_ascii s \<Longrightarrow> TrimRightSpace s = rev (dropWhile ascii_space (rev s))"
proof (induction s rule: rev_induct)
  case Nil
  then show ?case by (simp add: TrimRightSpace.simps)
next
  case (snoc c s)
  then show ?case
    by (simp add: TrimRightSpace.simps [of "s @ [c]"] DecodeLastRune_def is_space_rune_byte)
qed

lemma TrimSpace_ascii:
  assumes "is_ascii s"
  shows "TrimSpace s = rev (dropWhile ascii_space (rev (dropWhile ascii_space s)))"
proof -
  have "is_ascii (dropWhile ascii_space s)"
    using assms set_dropWhileD unfolding is_ascii_def by metis
  then show ?thesis
    using assms by (simp add: TrimSpace_def TrimLeftSpace_ascii TrimRightSpace_ascii)
qed

lemma TrimSpace_Nil [simp]: "TrimSpace [] = []"
  by (simp add: TrimSpace_ascii)

lemma dropWhile_idle: "(\<And>x. x \<in> set xs \<Longrightarrow> \<not> P x) \<Longrightarrow> dropWhile P xs = xs"
  by (cases xs) auto

lemma TrimSpace_idle:
  assumes "is_ascii s" and "\<forall>c \<in> set s. \<not> ascii_space c"
  shows "TrimSpace s = s"
proof -
  have "dropWhile ascii_space s = s" "dropWhile ascii_space (rev s) = rev s"
    using assms(2) by (auto intro: dropWhile_idle)
  then show ?thesis using assms(1) by (simp add: TrimSpace_ascii)
qed

lemma ToLower_ascii: "is_ascii s \<Longrightarrow> ToLower s = map (char_of \<circ> unicode_lower \<circ> byte) s"
proof (induction s)
  case (Cons c s)
  then show ?case
    using unicode_lower_ascii [of "byte c"]
    by (simp add: ToLower_def runes_def encode_rune_def)
qed (simp add: ToLower_def)

lemma ToLower_idle: "is_ascii s \<Longrightarrow> \<forall>c \<in> set s. \<not> (65 \<le> byte c \<and> byte c \<le> 90) \<Longrightarrow> ToLower s = s"
  by (induction s) (auto simp: ToLower_ascii unicode_lower_fixed)

text \<open>Trimming a cutset leaves neither end in it.\<close>

lemma TrimBytes_ends:
  assumes "TrimBytes s cs \<noteq> []"
  shows "hd (TrimBytes s cs) \<notin> set cs" "last (TrimBytes s cs) \<notin> set cs"
proof -
  let ?p = "\<lambda>c. c \<in> set cs"
  let ?l = "dropWhile ?p s"
  let ?r = "dropWhile ?p (rev ?l)"
  have r: "?r \<noteq> []" using assms by (simp add: TrimBytes_def)
  show "last (TrimBytes s cs) \<notin> set cs"
    using hd_dropWhile [OF r] r by (simp add: TrimBytes_def last_rev)
  have "?l \<noteq> []" using r by (metis dropWhile.simps(1) rev.simps(1))
  then have "hd ?l \<notin> set cs" by (rule hd_dropWhile)
  moreover have "hd (rev ?r) = hd ?l"
  proof -
    obtain u where "rev ?l = u @ ?r" by (metis takeWhile_dropWhile_id)
    then have "?l = rev ?r @ rev u" by (metis rev_append rev_rev_ident)
    then show ?thesis using r by (metis hd_append2 rev_is_Nil_conv)
  qed
  ultimately show "hd (TrimBytes s cs) \<notin> set cs" by (simp add: TrimBytes_def)
qed

section \<open>Decimal numbers are faithful\<close>

definition is_digit :: "char \<Rightarrow> bool" where
  "is_digit c \<longleftrightarrow> 48 \<le> byte c \<and> byte c \<le> 57"

definition digit_val :: "char \<Rightarrow> nat" where
  "digit_val c = byte c - 48"

fun nat_of_digits :: "nat \<Rightarrow> string \<Rightarrow> nat" where
  "nat_of_digits acc [] = acc"
| "nat_of_digits acc (c # s) = nat_of_digits (acc * 10 + digit_val c) s"

lemma nat_of_digits_append: "nat_of_digits acc (s @ [c]) = nat_of_digits acc s * 10 + digit_val c"
  by (induction s arbitrary: acc) simp_all

lemma nat_of_digits_of_nat: "nat_of_digits 0 (digits_of_nat n) = n"
proof (induction n rule: digits_of_nat.induct)
  case (1 n)
  then show ?case
    by (cases "n < 10") (simp_all add: digits_of_nat.simps [of n] nat_of_digits_append digit_val_def)
qed

lemma digits_of_nat_inject [simp]: "digits_of_nat m = digits_of_nat n \<longleftrightarrow> m = n"
  by (metis nat_of_digits_of_nat)

lemma digits_of_nat_digits: "c \<in> set (digits_of_nat n) \<Longrightarrow> is_digit c"
proof (induction n rule: digits_of_nat.induct)
  case (1 n)
  then show ?case
    by (cases "n < 10") (auto simp: digits_of_nat.simps [of n] is_digit_def)
qed

lemma digits_of_nat_neq_Nil [simp]: "digits_of_nat n \<noteq> []"
  by (simp add: digits_of_nat.simps [of n])

lemma byte_minus: "byte (CHR ''-'') = 45" by (simp add: byte_def)

lemma minus_not_digit: "CHR ''-'' \<notin> set (digits_of_nat n)"
proof
  assume "CHR ''-'' \<in> set (digits_of_nat n)"
  then have "is_digit (CHR ''-'')" by (rule digits_of_nat_digits)
  then show False by (simp add: is_digit_def byte_minus)
qed

lemma digits_neq: "digits_of_nat n \<noteq> CHR ''-'' # s"
proof
  assume e: "digits_of_nat n = CHR ''-'' # s"
  show False using minus_not_digit [of n] unfolding e by simp
qed

lemma Itoa_inject: "Itoa i = Itoa j \<longleftrightarrow> i = j"
proof -
  note n = digits_neq digits_neq [THEN not_sym]
  show ?thesis
    by (cases "i < 0"; cases "j < 0") (auto simp: Itoa_def n nat_eq_iff)
qed

section \<open>Reading a decimal integer\<close>

definition int64_max :: int where
  "int64_max = 2 ^ 63 - 1"

text \<open>
  \<open>strconv.Atoi\<close>: an optional sign and decimal digits only, in the range of a 64-bit \<open>int\<close>;
  \<open>None\<close> stands for its error.
\<close>

definition Atoi :: "string \<Rightarrow> int option" where
  "Atoi s =
     (let neg = (s \<noteq> [] \<and> hd s = CHR ''-'');
          ds = (if s \<noteq> [] \<and> (hd s = CHR ''-'' \<or> hd s = CHR ''+'') then tl s else s)
      in if ds = [] \<or> \<not> list_all is_digit ds then None
         else (let n = int (nat_of_digits 0 ds); v = (if neg then - n else n)
               in if - int64_max - 1 \<le> v \<and> v \<le> int64_max then Some v else None))"

lemma Atoi_range: "Atoi s = Some v \<Longrightarrow> - int64_max - 1 \<le> v \<and> v \<le> int64_max"
  by (auto simp: Atoi_def Let_def split: if_splits)

lemma Atoi_Itoa:
  assumes "- int64_max - 1 \<le> n" and "n \<le> int64_max"
  shows "Atoi (Itoa n) = Some n"
proof -
  let ?d = "digits_of_nat (nat \<bar>n\<bar>)"
  have digits: "list_all is_digit ?d"
    using digits_of_nat_digits by (auto simp: list_all_iff)
  then have "is_digit (hd ?d)" by (cases ?d) simp_all
  then have "hd ?d \<noteq> CHR ''-''" "hd ?d \<noteq> CHR ''+''"
    by (auto simp: is_digit_def byte_def)
  moreover have "Itoa n = (if n < 0 then CHR ''-'' # ?d else ?d)"
    by (simp add: Itoa_def)
  ultimately show ?thesis
    using assms digits by (cases "n < 0") (auto simp: Atoi_def Let_def nat_of_digits_of_nat)
qed

end
