(* ===== verification/GoTime.thy ===== *)
theory GoTime
  imports GoStrings "HOL-Library.Log_Nat"
begin

text \<open>
  The parts of package \<open>time\<close> the program uses as data: durations (64-bit counts of nanoseconds,
  here integers whose range is stated where it matters), the reader \<open>time.ParseDuration\<close>, and the
  JSON form of a UTC time. An instant is the number of nanoseconds since the Unix epoch.
\<close>

type_synonym duration = int
type_synonym gotime = int

definition Nanosecond :: duration where "Nanosecond = 1"
definition Microsecond :: duration where "Microsecond = 1000"
definition Millisecond :: duration where "Millisecond = 1000000"
definition Second :: duration where "Second = 1000000000"
definition Minute :: duration where "Minute = 60000000000"
definition Hour :: duration where "Hour = 3600000000000"

lemmas duration_units =
  Nanosecond_def Microsecond_def Millisecond_def Second_def Minute_def Hour_def

text \<open>Go's integer division truncates towards zero.\<close>

definition quot :: "int \<Rightarrow> int \<Rightarrow> int" where
  "quot a b = sgn a * sgn b * (\<bar>a\<bar> div \<bar>b\<bar>)"

lemma quot_nonneg: "0 \<le> a \<Longrightarrow> 0 < b \<Longrightarrow> quot a b = a div b"
  by (cases "a = 0") (simp_all add: quot_def)

text \<open>\<open>int32(n)\<close> and \<open>n++\<close> on a 64-bit \<open>int\<close>: two's complement wrap-around.\<close>

definition int32 :: "int \<Rightarrow> int" where
  "int32 n = (n + 2 ^ 31) mod 2 ^ 32 - 2 ^ 31"

definition int64 :: "int \<Rightarrow> int" where
  "int64 n = (n + 2 ^ 63) mod 2 ^ 64 - 2 ^ 63"

lemma int32_id: "- (2 ^ 31) \<le> n \<Longrightarrow> n < 2 ^ 31 \<Longrightarrow> int32 n = n"
  by (simp add: int32_def)

lemma int32_range: "- (2 ^ 31) \<le> int32 n \<and> int32 n < 2 ^ 31"
  by (simp add: int32_def)

lemma int64_id: "- (2 ^ 63) \<le> n \<Longrightarrow> n < 2 ^ 63 \<Longrightarrow> int64 n = n"
  by (simp add: int64_def)

section \<open>Reading a duration\<close>

text \<open>
  \<open>ParseDuration\<close> computes a fraction in \<open>float64\<close>. A finite non-negative double is a pair of a
  numerator and a denominator; \<open>f64 a b\<close> rounds the positive rational \<open>a / b\<close> to 53 bits, ties to
  even. The values here are far from the subnormal and overflow ranges.
\<close>

definition f64 :: "nat \<Rightarrow> nat \<Rightarrow> nat \<times> nat" where
  "f64 a b =
     (if a = 0 then (0, 1)
      else
        let k = 53 + int (floorlog 2 b) - int (floorlog 2 a);
            q = (a * 2 ^ nat k) div (b * 2 ^ nat (- k));
            s = (if q < 2 ^ 53 then k else k - 1);
            n = a * 2 ^ nat s; d = b * 2 ^ nat (- s);
            m = n div d; r = n mod d;
            m' = (if 2 * r < d \<or> 2 * r = d \<and> even m then m else m + 1)
        in (m' * 2 ^ nat (- s), 2 ^ nat s))"

definition f64_mult :: "nat \<times> nat \<Rightarrow> nat \<times> nat \<Rightarrow> nat \<times> nat" where
  "f64_mult x y = f64 (fst x * fst y) (snd x * snd y)"

definition f64_div :: "nat \<times> nat \<Rightarrow> nat \<times> nat \<Rightarrow> nat \<times> nat" where
  "f64_div x y = f64 (fst x * snd y) (snd x * fst y)"

fun leadingInt :: "nat \<Rightarrow> string \<Rightarrow> (nat \<times> string) option" where
  "leadingInt x [] = Some (x, [])"
| "leadingInt x (c # s) =
     (if \<not> is_digit c then Some (x, c # s)
      else if 2 ^ 63 div 10 < x then None
      else let x' = x * 10 + digit_val c in if 2 ^ 63 < x' then None else leadingInt x' s)"

fun leadingFraction :: "nat \<Rightarrow> nat \<Rightarrow> bool \<Rightarrow> string \<Rightarrow> nat \<times> nat \<times> string" where
  "leadingFraction x scale over [] = (x, scale, [])"
| "leadingFraction x scale over (c # s) =
     (if \<not> is_digit c then (x, scale, c # s)
      else if over then leadingFraction x scale True s
      else if (2 ^ 63 - 1) div 10 < x then leadingFraction x scale True s
      else let y = x * 10 + digit_val c
           in if 2 ^ 63 < y then leadingFraction x scale True s
              else leadingFraction y (scale * 10) False s)"

definition unitMap :: "string \<Rightarrow> nat option" where
  "unitMap u =
     (if u = ''ns'' then Some 1
      else if u = ''us'' \<or> u = [char_of (0xC2::nat), char_of (0xB5::nat), CHR ''s'']
              \<or> u = [char_of (0xCE::nat), char_of (0xBC::nat), CHR ''s''] then Some 1000
      else if u = ''ms'' then Some 1000000
      else if u = ''s'' then Some 1000000000
      else if u = ''m'' then Some 60000000000
      else if u = ''h'' then Some 3600000000000
      else None)"

lemma leadingInt_length: "leadingInt x s = Some (v, t) \<Longrightarrow> length t \<le> length s"
  by (induction x s rule: leadingInt.induct) (auto simp: Let_def split: if_splits)

lemma leadingFraction_length: "leadingFraction x sc b s = (f, sc', t) \<Longrightarrow> length t \<le> length s"
  by (induction x sc b s rule: leadingFraction.induct) (auto simp: Let_def split: if_splits)

definition dot_or_digit :: "char \<Rightarrow> bool" where
  "dot_or_digit c \<longleftrightarrow> c = CHR ''.'' \<or> is_digit c"

text \<open>One number of the duration, up to its unit: integer part, fraction and scale, and the rest.\<close>

definition duration_number :: "string \<Rightarrow> (nat \<times> nat \<times> nat \<times> string) option" where
  "duration_number s =
     (if s = [] \<or> \<not> dot_or_digit (hd s) then None
      else case leadingInt 0 s of
        None \<Rightarrow> None
      | Some (v, s1) \<Rightarrow>
          (let pre = (length s1 \<noteq> length s);
               (f, scale, s2) = (if s1 \<noteq> [] \<and> hd s1 = CHR ''.''
                                 then leadingFraction 0 1 False (tl s1) else (0, 1, s1));
               post = (s1 \<noteq> [] \<and> hd s1 = CHR ''.'' \<and> length s2 \<noteq> length (tl s1))
           in if \<not> pre \<and> \<not> post then None else Some (v, f, scale, s2)))"

lemma duration_number_length: "duration_number s = Some (v, f, sc, t) \<Longrightarrow> length t \<le> length s"
  by (auto simp: duration_number_def Let_def split: if_splits option.splits prod.splits
      dest!: leadingInt_length leadingFraction_length)

definition duration_add :: "nat \<Rightarrow> nat \<Rightarrow> nat \<Rightarrow> nat \<Rightarrow> nat \<Rightarrow> nat option" where
  "duration_add d v f scale un =
     (if 2 ^ 63 div un < v then None
      else let v1 = v * un;
               p = f64_mult (f64 f 1) (f64_div (f64 un 1) (f64 scale 1));
               v2 = (if 0 < f then v1 + fst p div snd p else v1)
           in if 0 < f \<and> 2 ^ 63 < v2 then None
              else if 2 ^ 63 < d + v2 then None else Some (d + v2))"

function duration_loop :: "nat \<Rightarrow> string \<Rightarrow> nat option" where
  "duration_loop d s =
     (if s = [] then Some d
      else case duration_number s of
        None \<Rightarrow> None
      | Some (v, f, scale, s1) \<Rightarrow>
          (let u = takeWhile (\<lambda>c. \<not> dot_or_digit c) s1; s2 = dropWhile (\<lambda>c. \<not> dot_or_digit c) s1
           in if u = [] then None
              else case unitMap u of
                None \<Rightarrow> None
              | Some un \<Rightarrow>
                  (case duration_add d v f scale un of
                     None \<Rightarrow> None
                   | Some d' \<Rightarrow> duration_loop d' s2)))"
  by pat_completeness auto

lemma dropWhile_shorter: "takeWhile P s \<noteq> [] \<Longrightarrow> length (dropWhile P s) < length s"
  by (cases s) (auto simp: less_Suc_eq_le length_dropWhile_le split: if_splits)

termination duration_loop
proof (relation "measure (\<lambda>(d, s). length s)", goal_cases)
  case (2 d s p v p' f p'' scale s1 u s2 un d')
  then show ?case
    using duration_number_length [of s v f scale s1] dropWhile_shorter [of "\<lambda>c. \<not> dot_or_digit c" s1]
    by auto
qed simp

declare duration_loop.simps [simp del]

text \<open>\<open>time.ParseDuration\<close>; \<open>None\<close> stands for its error.\<close>

definition ParseDuration :: "string \<Rightarrow> duration option" where
  "ParseDuration s =
     (let neg = (s \<noteq> [] \<and> hd s = CHR ''-'');
          s' = (if s \<noteq> [] \<and> (hd s = CHR ''-'' \<or> hd s = CHR ''+'') then tl s else s)
      in if s' = ''0'' then Some 0
         else if s' = [] then None
         else case duration_loop 0 s' of
           None \<Rightarrow> None
         | Some d \<Rightarrow>
             if neg then Some (- int d)
             else if int64_max < int d then None else Some (int d))"

lemma ParseDuration_max: "ParseDuration s = Some d \<Longrightarrow> d \<le> int64_max"
  by (auto simp: ParseDuration_def Let_def int64_max_def split: if_splits option.splits)

end
