(* ===== verification/Json.thy ===== *)
theory Json
  imports GoStrings
begin

text \<open>
  The part of package \<open>encoding/json\<close> the program uses: the text form \<open>json.Marshal\<close> writes (with
  its HTML-safe string escapes), the grammar and the string decoding of \<open>json.Unmarshal\<close>, and the
  name matching of object keys against struct fields. A document is a tree; numbers keep their
  literal. The parser spends fuel on each nested call; \<open>parse_json\<close> gives twice the length of the
  text and two more, and the round-trip lemma shows that this is enough for every document
  the printer writes.
\<close>

datatype json =
    JNull
  | JBool bool
  | JNum string
  | JStr string
  | JArr "json list"
  | JObj "(string \<times> json) list"

section \<open>Writing\<close>

definition dquote :: char where
  "dquote = CHR 0x22"

definition backslash :: char where
  "backslash = CHR 0x5C"

definition hex_digit :: "nat \<Rightarrow> char" where
  "hex_digit n = (if n < 10 then char_of (48 + n) else char_of (87 + n))"

definition unicode_escape :: "nat \<Rightarrow> string" where
  "unicode_escape r =
     [backslash, CHR ''u'', hex_digit (r div 4096 mod 16), hex_digit (r div 256 mod 16),
      hex_digit (r div 16 mod 16), hex_digit (r mod 16)]"

definition quote_piece :: "nat \<times> string \<Rightarrow> string" where
  "quote_piece p =
     (if \<not> ok_piece p then unicode_escape RuneError
      else let r = fst p in
        if r = 0x22 \<or> r = 0x5C then [backslash, char_of r]
        else if r = 8 then [backslash, CHR ''b'']
        else if r = 12 then [backslash, CHR ''f'']
        else if r = 10 then [backslash, CHR ''n'']
        else if r = 13 then [backslash, CHR ''r'']
        else if r = 9 then [backslash, CHR ''t'']
        else if r < 0x20 \<or> r \<in> {0x26, 0x3C, 0x3E, 0x2028, 0x2029} then unicode_escape r
        else snd p)"

definition quote :: "string \<Rightarrow> string" where
  "quote s = [dquote] @ concat (map quote_piece (pieces s)) @ [dquote]"

fun print_json :: "json \<Rightarrow> string" where
  "print_json JNull = ''null''"
| "print_json (JBool b) = (if b then ''true'' else ''false'')"
| "print_json (JNum lit) = lit"
| "print_json (JStr s) = quote s"
| "print_json (JArr vs) = ''['' @ Join (map print_json vs) '','' @ '']''"
| "print_json (JObj kvs) =
     ''{'' @ Join (map (\<lambda>kv. quote (fst kv) @ '':'' @ print_json (snd kv)) kvs) '','' @ ''}''"

section \<open>Reading\<close>

definition json_space :: "char \<Rightarrow> bool" where
  "json_space c \<longleftrightarrow> byte c \<in> {32, 9, 10, 13}"

definition skip_ws :: "string \<Rightarrow> string" where
  "skip_ws s = dropWhile json_space s"

definition hex_val :: "char \<Rightarrow> nat option" where
  "hex_val c =
     (if is_digit c then Some (byte c - 48)
      else if 97 \<le> byte c \<and> byte c \<le> 102 then Some (byte c - 87)
      else if 65 \<le> byte c \<and> byte c \<le> 70 then Some (byte c - 55)
      else None)"

fun hex4 :: "string \<Rightarrow> (nat \<times> string) option" where
  "hex4 (a # b # c # d # s) =
     (case (hex_val a, hex_val b, hex_val c, hex_val d) of
        (Some w, Some x, Some y, Some z) \<Rightarrow> Some (((w * 16 + x) * 16 + y) * 16 + z, s)
      | _ \<Rightarrow> None)"
| "hex4 _ = None"

text \<open>
  The runes of a \<open>\\u\<close> escape, after the first four digits gave \<open>u\<close>: a surrogate pair is
  combined, a lone surrogate is \<open>RuneError\<close>. The second component is the rest of the text.
\<close>

definition surrogate_rune :: "nat \<Rightarrow> string \<Rightarrow> nat \<times> string" where
  "surrogate_rune u s =
     (if \<not> (0xD800 \<le> u \<and> u \<le> 0xDFFF) then (u, s)
      else if prefix [backslash, CHR ''u''] s then
        (case hex4 (drop 2 s) of
           Some (u2, t) \<Rightarrow>
             if u \<le> 0xDBFF \<and> 0xDC00 \<le> u2 \<and> u2 \<le> 0xDFFF
             then ((u - 0xD800) * 1024 + (u2 - 0xDC00) + 0x10000, t)
             else (RuneError, s)
         | None \<Rightarrow> (RuneError, s))
      else (RuneError, s))"

definition simple_escape :: "char \<Rightarrow> char option" where
  "simple_escape e =
     (if e = dquote \<or> e = backslash \<or> e = CHR ''/'' then Some e
      else if e = CHR ''b'' then Some (char_of (8::nat))
      else if e = CHR ''f'' then Some (char_of (12::nat))
      else if e = CHR ''n'' then Some (char_of (10::nat))
      else if e = CHR ''r'' then Some (char_of (13::nat))
      else if e = CHR ''t'' then Some (char_of (9::nat))
      else None)"

lemma hex4_length: "hex4 s = Some (u, t) \<Longrightarrow> length t < length s"
  by (cases s rule: hex4.cases) (auto split: option.splits)

lemma surrogate_rune_length: "length (snd (surrogate_rune u s)) \<le> length s"
proof -
  have "hex4 (drop 2 s) = Some (x, t) \<Longrightarrow> length t \<le> length s" for x t
    using hex4_length [of "drop 2 s" x t] by simp
  then show ?thesis by (auto simp: surrogate_rune_def split: option.splits prod.splits)
qed

text \<open>The characters of a string literal after its opening quote, decoded, and the rest.\<close>

function string_body :: "string \<Rightarrow> (string \<times> string) option" where
  "string_body [] = None"
| "string_body (c # s) =
     (if c = dquote then Some ([], s)
      else if c = backslash then
        (if s = [] then None
         else case simple_escape (hd s) of
           Some b \<Rightarrow> map_option (apfst ((@) [b])) (string_body (tl s))
         | None \<Rightarrow>
             if hd s \<noteq> CHR ''u'' then None
             else case hex4 (tl s) of
               None \<Rightarrow> None
             | Some ut \<Rightarrow>
                 map_option (apfst ((@) (encode_rune (fst (surrogate_rune (fst ut) (snd ut))))))
                   (string_body (snd (surrogate_rune (fst ut) (snd ut)))))
      else if byte c < 0x20 then None
      else map_option (apfst ((@) (encode_rune (fst (DecodeRune (c # s))))))
             (string_body (drop (snd (DecodeRune (c # s))) (c # s))))"
  by pat_completeness auto
termination
proof (relation "measure length")
  show "wf (measure length)" by simp
  fix c :: char and s :: string
  show "(tl s, c # s) \<in> measure length" by simp
  show "(drop (snd (DecodeRune (c # s))) (c # s), c # s) \<in> measure length"
    using DecodeRune_width_pos [of "c # s"] by simp
  fix ut
  assume "hex4 (tl s) = Some ut"
  then have "length (snd ut) < length s" using hex4_length [of "tl s" "fst ut" "snd ut"] by auto
  then show "(snd (surrogate_rune (fst ut) (snd ut)), c # s) \<in> measure length"
    using surrogate_rune_length [of "fst ut" "snd ut"] by simp
qed

declare string_body.simps [simp del]

lemmas string_body_Nil [simp] = string_body.simps(1)

text \<open>The optional fraction and exponent at the front of a text, and a whole number.\<close>

definition json_frac :: "string \<Rightarrow> string" where
  "json_frac s =
     (if s \<noteq> [] \<and> hd s = CHR ''.'' then CHR ''.'' # takeWhile is_digit (tl s) else [])"

definition json_exp :: "string \<Rightarrow> string" where
  "json_exp s =
     (if s \<noteq> [] \<and> (hd s = CHR ''e'' \<or> hd s = CHR ''E'')
      then (let t = tl s;
                pm = (if t \<noteq> [] \<and> (hd t = CHR ''-'' \<or> hd t = CHR ''+'') then [hd t] else [])
            in [hd s] @ pm @ takeWhile is_digit (drop (length pm) t))
      else [])"

definition json_number :: "string \<Rightarrow> (string \<times> string) option" where
  "json_number s =
     (let sg = (if s \<noteq> [] \<and> hd s = CHR ''-'' then ''-'' else []);
          ds = takeWhile is_digit (drop (length sg) s);
          s2 = dropWhile is_digit (drop (length sg) s);
          fr = json_frac s2;
          s3 = drop (length fr) s2;
          es = json_exp s3
      in if ds = [] \<or> hd ds = CHR ''0'' \<and> 1 < length ds then None
         else if fr = ''.'' then None
         else if es \<noteq> [] \<and> \<not> is_digit (last es) then None
         else Some (sg @ ds @ fr @ es, drop (length es) s3))"

definition maxNestingDepth :: nat where
  "maxNestingDepth = 10000"

text \<open>A literal name at the front of the text.\<close>

definition literal :: "string \<Rightarrow> json \<Rightarrow> string \<Rightarrow> (json \<times> string) option" where
  "literal name v s = (if prefix name s then Some (v, drop (length name) s) else None)"

fun jvalue :: "nat \<Rightarrow> nat \<Rightarrow> string \<Rightarrow> (json \<times> string) option"
  and jelems :: "nat \<Rightarrow> nat \<Rightarrow> string \<Rightarrow> (json list \<times> string) option"
  and jmembers :: "nat \<Rightarrow> nat \<Rightarrow> string \<Rightarrow> ((string \<times> json) list \<times> string) option"
where
  "jvalue 0 d s = None"
| "jvalue (Suc n) d s =
     (case skip_ws s of
        [] \<Rightarrow> None
      | c # t \<Rightarrow>
          if c = CHR ''{'' then
            (if maxNestingDepth \<le> d then None
             else if prefix ''}'' (skip_ws t) then Some (JObj [], tl (skip_ws t))
             else map_option (apfst JObj) (jmembers n (Suc d) t))
          else if c = CHR ''['' then
            (if maxNestingDepth \<le> d then None
             else if prefix '']'' (skip_ws t) then Some (JArr [], tl (skip_ws t))
             else map_option (apfst JArr) (jelems n (Suc d) t))
          else if c = dquote then map_option (apfst JStr) (string_body t)
          else if c = CHR ''n'' then literal ''null'' JNull (c # t)
          else if c = CHR ''t'' then literal ''true'' (JBool True) (c # t)
          else if c = CHR ''f'' then literal ''false'' (JBool False) (c # t)
          else map_option (apfst JNum) (json_number (c # t)))"
| "jelems 0 d s = None"
| "jelems (Suc n) d s =
     (case jvalue n d s of
        None \<Rightarrow> None
      | Some (v, t) \<Rightarrow>
          if prefix '','' (skip_ws t)
          then map_option (apfst ((#) v)) (jelems n d (tl (skip_ws t)))
          else if prefix '']'' (skip_ws t) then Some ([v], tl (skip_ws t))
          else None)"
| "jmembers 0 d s = None"
| "jmembers (Suc n) d s =
     (if \<not> prefix [dquote] (skip_ws s) then None
      else case string_body (tl (skip_ws s)) of
        None \<Rightarrow> None
      | Some (k, t) \<Rightarrow>
          if \<not> prefix '':'' (skip_ws t) then None
          else case jvalue n d (tl (skip_ws t)) of
            None \<Rightarrow> None
          | Some (v, u) \<Rightarrow>
              if prefix '','' (skip_ws u)
              then map_option (apfst ((#) (k, v))) (jmembers n d (tl (skip_ws u)))
              else if prefix ''}'' (skip_ws u) then Some ([(k, v)], tl (skip_ws u))
              else None)"

definition parse_json :: "string \<Rightarrow> json option" where
  "parse_json s =
     (case jvalue (2 * length s + 2) 0 s of
        None \<Rightarrow> None
      | Some (v, t) \<Rightarrow> if skip_ws t = [] then Some v else None)"

section \<open>Matching keys to struct fields\<close>

text \<open>
  A key selects the field whose name it equals under simple case folding. The field names are
  ASCII, and the only other runes that fold into ASCII are the long s and the Kelvin sign.
\<close>

definition fold_rune :: "nat \<Rightarrow> nat" where
  "fold_rune r =
     (if 97 \<le> r \<and> r \<le> 122 then r - 32 else if r = 0x17F then 83 else if r = 0x212A then 75 else r)"

definition fold_name :: "string \<Rightarrow> nat list" where
  "fold_name s = map fold_rune (runes s)"

definition field_is :: "string \<Rightarrow> string \<Rightarrow> bool" where
  "field_is name key \<longleftrightarrow> fold_name key = fold_name name"

end
