(* ===== verification/Timestamps.thy ===== *)
theory Timestamps
  imports GoTime Json
begin

text \<open>
  The JSON form of a UTC instant, as \<open>time.Time.MarshalJSON\<close> writes it (RFC 3339 with the
  nanoseconds that are not trailing zeros), and \<open>marshalTimestamp\<close> of \<open>events.go\<close> on top of it.
\<close>

text \<open>The date of a day counted from 1 January 1970, in the proleptic Gregorian calendar.\<close>

definition civil_date :: "int \<Rightarrow> int \<times> int \<times> int" where
  "civil_date days =
     (let z = days + 719468;
          era = z div 146097; doe = z mod 146097;
          yoe = (doe - doe div 1460 + doe div 36524 - doe div 146096) div 365;
          doy = doe - (365 * yoe + yoe div 4 - yoe div 100);
          mp = (5 * doy + 2) div 153;
          d = doy - (153 * mp + 2) div 5 + 1;
          m = (if mp < 10 then mp + 3 else mp - 9)
      in (yoe + era * 400 + (if m \<le> 2 then 1 else 0), m, d))"

definition zero_pad :: "nat \<Rightarrow> int \<Rightarrow> string" where
  "zero_pad width n =
     (let s = digits_of_nat (nat n) in replicate (width - length s) (CHR ''0'') @ s)"

definition fraction :: "int \<Rightarrow> string" where
  "fraction ns =
     (if ns = 0 then []
      else ''.'' @ rev (dropWhile (\<lambda>c. c = CHR ''0'') (rev (zero_pad 9 ns))))"

definition year_of :: "gotime \<Rightarrow> int" where
  "year_of t = fst (civil_date (t div Second div 86400))"

definition rfc3339 :: "gotime \<Rightarrow> string" where
  "rfc3339 t =
     (let secs = t div Second; tod = secs mod 86400; (y, m, d) = civil_date (secs div 86400)
      in zero_pad 4 y @ ''-'' @ zero_pad 2 m @ ''-'' @ zero_pad 2 d @ ''T''
         @ zero_pad 2 (tod div 3600) @ '':'' @ zero_pad 2 (tod div 60 mod 60) @ '':''
         @ zero_pad 2 (tod mod 60) @ fraction (t mod Second) @ ''Z'')"

text \<open>\<open>Time.MarshalJSON\<close>, which refuses years of other than four digits.\<close>

definition json_time :: "gotime \<Rightarrow> json option" where
  "json_time t = (if 0 \<le> year_of t \<and> year_of t \<le> 9999 then Some (JStr (rfc3339 t)) else None)"

text \<open>
  A \<open>json.RawMessage\<close> only ever comes out of the decoder or goes into the encoder, so it is
  represented by the document it spells; \<open>None\<close> is the nil message.
\<close>

type_synonym RawMessage = "json option"

definition marshalTimestamp :: "gotime \<Rightarrow> RawMessage" where
  "marshalTimestamp timestamp =
     (case json_time timestamp of None \<Rightarrow> Some JNull | Some payload \<Rightarrow> Some payload)"

lemma rfc3339_ascii: "valid_utf8 (rfc3339 t)"
proof -
  have z: "is_ascii (zero_pad w n)" for w n
    by (auto simp: zero_pad_def is_ascii_def Let_def is_digit_def byte_def dest!: digits_of_nat_digits)
  have "is_ascii (rev (dropWhile P (rev s)))" if "is_ascii s" for P s
    using that by (auto simp: is_ascii_def dest!: set_dropWhileD)
  with z have "is_ascii (fraction n)" for n
    by (simp add: fraction_def byte_def)
  with z show ?thesis
    by (auto simp: rfc3339_def Let_def byte_def split: prod.splits intro!: valid_utf8_ascii)
qed

end
