(* ===== verification/GoErrors.thy ===== *)
theory GoErrors
  imports GoStrings
begin

text \<open>
  Go's error values as the program builds and inspects them. \<open>errors.New\<close> and the errors of the
  environment carry a text; the two sentinels of \<open>build_consumer.go\<close> have an identity that
  \<open>errors.Is\<close> looks for; \<open>fmt.Errorf\<close> with \<open>%w\<close>, always the last verb of its format here, puts a
  text in front of the error it wraps. A Go \<open>error\<close> that may be nil is a \<open>goerr option\<close>.
\<close>

datatype goerr =
    ErrText string
  | ErrLeaseBusy
  | ErrStoredResultPublish
  | Wrapped string goerr

fun error_text :: "goerr \<Rightarrow> string" where
  "error_text (ErrText s) = s"
| "error_text ErrLeaseBusy = ''build stage lease is owned by another worker''"
| "error_text ErrStoredResultPublish = ''publish stored terminal build result''"
| "error_text (Wrapped s e) = s @ error_text e"

text \<open>\<open>errors.Is(e, target)\<close> for a sentinel target: the chain of wrapped errors is searched.\<close>

fun errors_is :: "goerr \<Rightarrow> goerr \<Rightarrow> bool" where
  "errors_is (Wrapped s e) target \<longleftrightarrow> Wrapped s e = target \<or> errors_is e target"
| "errors_is e target \<longleftrightarrow> e = target"

definition errors_is_opt :: "goerr option \<Rightarrow> goerr \<Rightarrow> bool" where
  "errors_is_opt oe target \<longleftrightarrow> (case oe of None \<Rightarrow> False | Some e \<Rightarrow> errors_is e target)"

end
