(* ===== verification/Text.thy ===== *)
theory Text
  imports GoErrors
begin

text \<open>
  The text hygiene of \<open>build_consumer.go\<close>: \<open>redact\<close> hides credential-looking output,
  \<open>sanitizeStoredText\<close> makes a text storable (well-formed UTF-8, no NUL, at most 2000 runes, the
  end kept), \<open>sanitizeName\<close> turns a service alias into a directory name, and \<open>safeReason\<close> is what
  reaches headers and the ledger.
\<close>

definition needles :: "string list" where
  "needles = [''x-access-token'', ''ghs_'', ''github_pat_'', ''Bearer '']"

definition redacted_text :: string where
  "redacted_text = ''redacted git or GitHub credential output''"

definition redact :: "string \<Rightarrow> string" where
  "redact v =
     (let value = ReplaceAll v [CHR 0x0A] '' '' in
      if list_ex (\<lambda>needle. Contains value needle) needles then redacted_text else value)"

definition sanitizeStoredText :: "string \<Rightarrow> string" where
  "sanitizeStoredText s =
     (let s1 = ToValidUTF8 s []; s2 = ReplaceAll s1 [CHR 0x00] []; r = runes s2;
          r' = (if 2000 < length r then drop (length r - 2000) r else r)
      in string_of_runes r')"

definition sanitizeName :: "string \<Rightarrow> string" where
  "sanitizeName value =
     (let trimmed = TrimSpace value in
      if trimmed = [] then ''service''
      else map (\<lambda>c. if c = CHR ''/'' \<or> c = CHR 0x5C \<or> c = CHR '' '' then CHR ''-'' else c) trimmed)"

definition safeReason :: "goerr option \<Rightarrow> string" where
  "safeReason err =
     (case err of
        None \<Rightarrow> ''unspecified''
      | Some e \<Rightarrow> sanitizeStoredText (redact (error_text e)))"

section \<open>Redaction\<close>

definition clean :: "string \<Rightarrow> bool" where
  "clean s \<longleftrightarrow> (\<forall>needle \<in> set needles. \<not> sublist needle s)"

lemma clean_redacted_text: "clean redacted_text"
proof -
  have "\<forall>needle \<in> set needles. \<not> Contains redacted_text needle"
    by (simp add: needles_def redacted_text_def)
  then show ?thesis by (simp add: clean_def Contains_sublist)
qed

lemma newline_redacted_text: "CHR 0x0A \<notin> set redacted_text"
  by (simp add: redacted_text_def)

lemma redact_clean: "clean (redact v)"
  using clean_redacted_text
  by (auto simp: redact_def Let_def list_ex_iff clean_def Contains_sublist)

lemma redact_idle: "clean v \<Longrightarrow> CHR 0x0A \<notin> set v \<Longrightarrow> redact v = v"
proof -
  assume "clean v" and n: "CHR 0x0A \<notin> set v"
  have "ReplaceAll v [CHR 0x0A] '' '' = v"
    using n by (induction v) auto
  then show ?thesis
    using \<open>clean v\<close> by (auto simp: redact_def clean_def list_ex_iff Contains_sublist)
qed

lemma redact_no_newline: "CHR 0x0A \<notin> set (redact v)"
  using newline_redacted_text by (auto simp: redact_def Let_def ReplaceAll_byte)

section \<open>Stored text\<close>

definition last_runes :: "nat \<Rightarrow> nat list \<Rightarrow> nat list" where
  "last_runes n rs = drop (length rs - n) rs"

lemma byte_nul [simp]: "byte (CHR 0x00) = 0" and byte_newline [simp]: "byte (CHR 0x0A) = 10"
  by (simp_all add: byte_def)

lemma char_of_special:
  "char_of (0::nat) = CHR 0x00" "char_of (10::nat) = CHR 0x0A" "char_of (32::nat) = CHR '' ''"
proof -
  have "byte (CHR '' '') = 32" by (simp add: byte_def)
  then show "char_of (0::nat) = CHR 0x00" "char_of (10::nat) = CHR 0x0A"
      "char_of (32::nat) = CHR '' ''"
    by (metis byte_nul byte_newline char_of_byte)+
qed

lemma nul_in_encode_rune: "scalar r \<Longrightarrow> CHR 0x00 \<in> set (encode_rune r) \<longleftrightarrow> r = 0"
  by (simp add: ascii_in_encode_rune)

lemma delete_nul_encode_rune:
  assumes "scalar r"
  shows "filter (\<lambda>c. c \<noteq> CHR 0x00) (encode_rune r) = (if 0 < r then encode_rune r else [])"
proof (cases "r = 0")
  case True
  then show ?thesis by (simp add: encode_rune_def char_of_special)
next
  case False
  then have "\<forall>c \<in> set (encode_rune r). c \<noteq> CHR 0x00"
    using assms nul_in_encode_rune by metis
  then show ?thesis using False by simp
qed

lemma delete_nul_runes:
  "list_all scalar rs \<Longrightarrow>
     filter (\<lambda>c. c \<noteq> CHR 0x00) (string_of_runes rs) = string_of_runes (filter (\<lambda>r. 0 < r) rs)"
  by (induction rs) (simp_all add: delete_nul_encode_rune)

lemma scalar_filter: "list_all scalar rs \<Longrightarrow> list_all scalar (filter P rs)"
  by (auto simp: list_all_iff)

lemma scalar_last_runes: "list_all scalar rs \<Longrightarrow> list_all scalar (last_runes n rs)"
  by (auto simp: list_all_iff last_runes_def dest: in_set_dropD)

lemma length_last_runes: "length (last_runes n rs) = min n (length rs)"
  by (simp add: last_runes_def)

lemma if_last_runes: "(if n < length rs then drop (length rs - n) rs else rs) = last_runes n rs"
  by (simp add: last_runes_def)

text \<open>The rune-level reading of \<open>sanitizeStoredText\<close>.\<close>

lemma sanitizeStoredText_runes:
  "sanitizeStoredText s = string_of_runes (last_runes 2000 (filter (\<lambda>r. 0 < r) (valid_runes s)))"
proof -
  have "runes (ReplaceAll (ToValidUTF8 s []) [CHR 0x00] []) = filter (\<lambda>r. 0 < r) (valid_runes s)"
    by (simp add: ToValidUTF8_drop ReplaceAll_delete delete_nul_runes valid_runes_scalar scalar_filter)
  then show ?thesis
    unfolding sanitizeStoredText_def Let_def if_last_runes by (simp only:)
qed

lemma sanitized_scalar:
  "list_all scalar (last_runes 2000 (filter (\<lambda>r. 0 < r) (valid_runes s)))"
  by (simp add: scalar_last_runes scalar_filter valid_runes_scalar)

lemma runes_sanitizeStoredText:
  "runes (sanitizeStoredText s) = last_runes 2000 (filter (\<lambda>r. 0 < r) (valid_runes s))"
  by (simp add: sanitizeStoredText_runes sanitized_scalar)

lemma nul_string_of_runes: "list_all scalar rs \<Longrightarrow> CHR 0x00 \<in> set (string_of_runes rs) \<longleftrightarrow> 0 \<in> set rs"
  by (simp add: ascii_in_string_of_runes)

lemma storable_sanitizeStoredText:
  "valid_utf8 (sanitizeStoredText s)" "CHR 0x00 \<notin> set (sanitizeStoredText s)"
  "length (runes (sanitizeStoredText s)) \<le> 2000"
proof -
  show "valid_utf8 (sanitizeStoredText s)"
    by (simp add: sanitizeStoredText_runes sanitized_scalar)
  show "CHR 0x00 \<notin> set (sanitizeStoredText s)"
  proof -
    have "0 \<notin> set (last_runes 2000 (filter (\<lambda>r. 0 < r) (valid_runes s)))"
      by (auto simp: last_runes_def dest: in_set_dropD)
    then show ?thesis
      by (simp add: sanitizeStoredText_runes nul_string_of_runes [OF sanitized_scalar])
  qed
  show "length (runes (sanitizeStoredText s)) \<le> 2000"
    by (simp add: runes_sanitizeStoredText length_last_runes)
qed

lemma sanitizeStoredText_suffix:
  assumes "valid_utf8 s" and "CHR 0x00 \<notin> set s"
  shows "sanitizeStoredText s = string_of_runes (last_runes 2000 (runes s))"
proof -
  have "0 \<notin> set (runes s)"
    using assms nul_string_of_runes valid_utf8_runes by metis
  then have "filter (\<lambda>r. 0 < r) (runes s) = runes s"
    by (metis (mono_tags, lifting) filter_True gr_zeroI)
  then show ?thesis
    by (simp add: sanitizeStoredText_runes valid_runes_valid assms(1))
qed

lemma suffix_last_runes: "suffix (string_of_runes (last_runes n rs)) (string_of_runes rs)"
proof -
  have "rs = take (length rs - n) rs @ last_runes n rs" by (simp add: last_runes_def)
  then have "string_of_runes rs
      = string_of_runes (take (length rs - n) rs) @ string_of_runes (last_runes n rs)"
    by (metis string_of_runes_simps(3))
  then show ?thesis by (simp add: suffix_def)
qed

lemma clean_suffix: "clean s \<Longrightarrow> suffix t s \<Longrightarrow> clean t"
  unfolding clean_def by (meson sublist_order.order.trans suffix_imp_sublist)

lemma sanitizeStoredText_clean:
  assumes "valid_utf8 s" and "CHR 0x00 \<notin> set s" and "clean s"
  shows "clean (sanitizeStoredText s)"
proof -
  have "suffix (sanitizeStoredText s) s"
    using suffix_last_runes [of 2000 "runes s"] valid_utf8_runes(2) [OF assms(1)]
    by (simp add: sanitizeStoredText_suffix assms(1,2))
  with assms(3) show ?thesis by (rule clean_suffix)
qed

lemma unline_runes:
  "list_all scalar rs \<Longrightarrow>
     ReplaceAll (string_of_runes rs) [CHR 0x0A] '' ''
       = string_of_runes (map (\<lambda>r. if r = 10 then 32 else r) rs)"
proof (induction rs)
  case (Cons r rs)
  have "concat (map (\<lambda>c. if c = CHR 0x0A then '' '' else [c]) (encode_rune r))
      = encode_rune (if r = 10 then 32 else r)"
  proof (cases "r = 10")
    case True
    then show ?thesis by (simp add: encode_rune_def char_of_special)
  next
    case False
    then have "CHR 0x0A \<notin> set (encode_rune r)"
      using Cons.prems by (simp add: ascii_in_encode_rune)
    then have *: "map (\<lambda>c. if c = CHR 0x0A then '' '' else [c]) (encode_rune r)
        = map (\<lambda>c. [c]) (encode_rune r)"
      by auto
    show ?thesis unfolding * using False by simp
  qed
  with Cons show ?case by (simp add: ReplaceAll_byte)
qed simp

lemma redact_valid:
  assumes "valid_utf8 s" and "CHR 0x00 \<notin> set s"
  shows "valid_utf8 (redact s)" "CHR 0x00 \<notin> set (redact s)"
proof -
  let ?rs = "map (\<lambda>r. if r = 10 then 32 else r) (runes s)"
  have u: "ReplaceAll s [CHR 0x0A] '' '' = string_of_runes ?rs"
    using unline_runes valid_utf8_runes [OF assms(1)] by metis
  have sc: "list_all scalar ?rs"
    using valid_utf8_runes(1) [OF assms(1)] by (auto simp: list_all_iff scalar_def)
  have "0 \<notin> set ?rs"
    using assms(2) nul_string_of_runes [OF valid_utf8_runes(1) [OF assms(1)]]
    by (auto simp: valid_utf8_runes(2) [OF assms(1)])
  then have n: "CHR 0x00 \<notin> set (string_of_runes ?rs)"
    using nul_string_of_runes [OF sc] by blast
  have a: "is_ascii redacted_text" "CHR 0x00 \<notin> set redacted_text"
    by (simp_all add: redacted_text_def byte_def)
  show "valid_utf8 (redact s)"
    using sc a(1) by (simp add: redact_def Let_def u valid_utf8_ascii)
  show "CHR 0x00 \<notin> set (redact s)"
    using n a(2) by (simp add: redact_def Let_def u)
qed

section \<open>Directory names\<close>

lemma sanitizeName_nonempty: "sanitizeName v \<noteq> []"
  by (simp add: sanitizeName_def Let_def)

lemma sanitizeName_no_separator:
  "CHR ''/'' \<notin> set (sanitizeName v)" "CHR 0x5C \<notin> set (sanitizeName v)" "CHR '' '' \<notin> set (sanitizeName v)"
  by (auto simp: sanitizeName_def Let_def split: if_splits)

section \<open>What is stored and sent\<close>

text \<open>
  C39: A sanitised text can always be stored: it is well-formed UTF-8 without NUL and at most 2000
  characters long. A text that was storable to begin with keeps its last 2000 characters, so a
  text that already satisfies all three is unchanged.
\<close>

theorem sanitizeStoredText_storable:
  "valid_utf8 (sanitizeStoredText s) \<and> CHR 0x00 \<notin> set (sanitizeStoredText s)
   \<and> length (runes (sanitizeStoredText s)) \<le> 2000
   \<and> runes (sanitizeStoredText s) = last_runes 2000 (filter (\<lambda>r. 0 < r) (valid_runes s))
   \<and> sanitizeStoredText (sanitizeStoredText s) = sanitizeStoredText s"
proof -
  note st = storable_sanitizeStoredText [of s]
  have "last_runes 2000 (runes (sanitizeStoredText s)) = runes (sanitizeStoredText s)"
    using st(3) by (simp add: last_runes_def)
  then have "sanitizeStoredText (sanitizeStoredText s) = sanitizeStoredText s"
    using st(1,2) by (simp add: sanitizeStoredText_suffix valid_utf8_runes(2))
  then show ?thesis using st by (simp add: runes_sanitizeStoredText)
qed

text \<open>
  The reason written to headers and to the ledger carries no credential marker and no line
  break, whenever the error text is well-formed UTF-8 without NUL.
\<close>

lemma safeReason_clean:
  assumes "valid_utf8 (error_text e)" and "CHR 0x00 \<notin> set (error_text e)"
  shows "clean (safeReason (Some e)) \<and> CHR 0x0A \<notin> set (safeReason (Some e))"
proof -
  note v = redact_valid [OF assms]
  have "suffix (sanitizeStoredText (redact (error_text e))) (redact (error_text e))"
    using suffix_last_runes [of 2000 "runes (redact (error_text e))"] valid_utf8_runes(2) [OF v(1)]
    by (simp add: sanitizeStoredText_suffix v)
  then have "CHR 0x0A \<notin> set (sanitizeStoredText (redact (error_text e)))"
    using redact_no_newline [of "error_text e"] set_mono_suffix by blast
  then show ?thesis
    using sanitizeStoredText_clean [OF v redact_clean] by (simp add: safeReason_def)
qed

lemma safeReason_clean_instance:
  "clean (safeReason (Some (ErrText ''git clone failed: token ghs_x'')))
   \<and> CHR 0x0A \<notin> set (safeReason (Some (ErrText ''git clone failed: token ghs_x'')))"
  by (rule safeReason_clean) (simp_all add: valid_utf8_ascii is_ascii_def byte_def)

end
