(* ===== verification/Sha256.thy ===== *)
theory Sha256
  imports GoStrings "HOL-Library.Word"
begin

unbundle bit_operations_syntax

text \<open>
  Package \<open>crypto/sha256\<close> and the hexadecimal writer \<open>hex.EncodeToString\<close>, which turn the identity
  of an event into its id. The digest is the function of FIPS 180-4, on 32-bit words that wrap.
\<close>

type_synonym u32 = "32 word"

definition initial_hash :: "u32 list" where
  "initial_hash =
    [0x6A09E667, 0xBB67AE85, 0x3C6EF372, 0xA54FF53A,
     0x510E527F, 0x9B05688C, 0x1F83D9AB, 0x5BE0CD19]"

definition round_constants :: "u32 list" where
  "round_constants =
    [0x428A2F98, 0x71374491, 0xB5C0FBCF, 0xE9B5DBA5, 0x3956C25B, 0x59F111F1, 0x923F82A4,
     0xAB1C5ED5, 0xD807AA98, 0x12835B01, 0x243185BE, 0x550C7DC3, 0x72BE5D74, 0x80DEB1FE,
     0x9BDC06A7, 0xC19BF174, 0xE49B69C1, 0xEFBE4786, 0x0FC19DC6, 0x240CA1CC, 0x2DE92C6F,
     0x4A7484AA, 0x5CB0A9DC, 0x76F988DA, 0x983E5152, 0xA831C66D, 0xB00327C8, 0xBF597FC7,
     0xC6E00BF3, 0xD5A79147, 0x06CA6351, 0x14292967, 0x27B70A85, 0x2E1B2138, 0x4D2C6DFC,
     0x53380D13, 0x650A7354, 0x766A0ABB, 0x81C2C92E, 0x92722C85, 0xA2BFE8A1, 0xA81A664B,
     0xC24B8B70, 0xC76C51A3, 0xD192E819, 0xD6990624, 0xF40E3585, 0x106AA070, 0x19A4C116,
     0x1E376C08, 0x2748774C, 0x34B0BCB5, 0x391C0CB3, 0x4ED8AA4A, 0x5B9CCA4F, 0x682E6FF3,
     0x748F82EE, 0x78A5636F, 0x84C87814, 0x8CC70208, 0x90BEFFFA, 0xA4506CEB, 0xBEF9A3F7,
     0xC67178F2]"

definition Ch :: "u32 \<Rightarrow> u32 \<Rightarrow> u32 \<Rightarrow> u32" where
  "Ch x y z = (x AND y) XOR (NOT x AND z)"

definition Maj :: "u32 \<Rightarrow> u32 \<Rightarrow> u32 \<Rightarrow> u32" where
  "Maj x y z = (x AND y) XOR (x AND z) XOR (y AND z)"

definition Sigma0 :: "u32 \<Rightarrow> u32" where
  "Sigma0 x = word_rotr 2 x XOR word_rotr 13 x XOR word_rotr 22 x"

definition Sigma1 :: "u32 \<Rightarrow> u32" where
  "Sigma1 x = word_rotr 6 x XOR word_rotr 11 x XOR word_rotr 25 x"

definition sigma0 :: "u32 \<Rightarrow> u32" where
  "sigma0 x = word_rotr 7 x XOR word_rotr 18 x XOR drop_bit 3 x"

definition sigma1 :: "u32 \<Rightarrow> u32" where
  "sigma1 x = word_rotr 17 x XOR word_rotr 19 x XOR drop_bit 10 x"

text \<open>The message, a one bit, zeros up to 56 modulo 64 bytes, and the bit length in eight bytes.\<close>

definition padded :: "nat list \<Rightarrow> nat list" where
  "padded m =
     m @ [0x80] @ replicate ((119 - length m mod 64) mod 64) 0
       @ map (\<lambda>i. (8 * length m) div 256 ^ (7 - i) mod 256) [0..<8]"

fun words_of :: "nat list \<Rightarrow> u32 list" where
  "words_of (a # b # c # d # bs) =
     of_nat (((a * 256 + b) * 256 + c) * 256 + d) # words_of bs"
| "words_of _ = []"

text \<open>The message schedule: each of the 48 steps appends one word.\<close>

fun extend_schedule :: "nat \<Rightarrow> u32 list \<Rightarrow> u32 list" where
  "extend_schedule 0 w = w"
| "extend_schedule (Suc n) w =
     (let t = length w
      in extend_schedule n
           (w @ [sigma1 (w ! (t - 2)) + w ! (t - 7) + sigma0 (w ! (t - 15)) + w ! (t - 16)]))"

fun sha_round :: "u32 list \<Rightarrow> u32 \<times> u32 \<Rightarrow> u32 list" where
  "sha_round [a, b, c, d, e, f, g, h] (k, w) =
     (let t1 = h + Sigma1 e + Ch e f g + k + w; t2 = Sigma0 a + Maj a b c
      in [t1 + t2, a, b, c, d + t1, e, f, g])"
| "sha_round v _ = v"

definition compress :: "u32 list \<Rightarrow> u32 list \<Rightarrow> u32 list" where
  "compress hs block =
     map2 (+) hs (foldl sha_round hs (zip round_constants (extend_schedule 48 block)))"

fun blocks :: "u32 list \<Rightarrow> u32 list list" where
  "blocks [] = []"
| "blocks (w # ws) = take 16 (w # ws) # blocks (drop 15 ws)"

definition sha256_words :: "nat list \<Rightarrow> u32 list" where
  "sha256_words m = foldl compress initial_hash (blocks (words_of (padded m)))"

definition nibble_char :: "nat \<Rightarrow> char" where
  "nibble_char n = (if n < 10 then char_of (48 + n) else char_of (87 + n))"

definition hex_byte :: "nat \<Rightarrow> string" where
  "hex_byte b = [nibble_char (b div 16 mod 16), nibble_char (b mod 16)]"

definition word_bytes :: "u32 \<Rightarrow> nat list" where
  "word_bytes w =
     (let n = unat w in [n div 16777216 mod 256, n div 65536 mod 256, n div 256 mod 256, n mod 256])"

definition Sum256 :: "string \<Rightarrow> nat list" where
  "Sum256 s = concat (map word_bytes (sha256_words (map byte s)))"

definition EncodeToString :: "nat list \<Rightarrow> string" where
  "EncodeToString bs = concat (map hex_byte bs)"

section \<open>The shape of a digest\<close>

lemma length_sha_round: "length (sha_round v kw) = length v"
  by (cases "(v, kw)" rule: sha_round.cases) (auto simp: Let_def)

lemma length_sha_rounds: "length (foldl sha_round v kws) = length v"
  by (induction kws arbitrary: v) (simp_all add: length_sha_round)

lemma length_compress: "length (compress hs b) = length hs"
  by (simp add: compress_def length_sha_rounds)

lemma length_sha256_words: "length (sha256_words m) = 8"
proof -
  have "length (foldl compress hs bs) = length hs" for hs bs
    by (induction bs arbitrary: hs) (simp_all add: length_compress)
  then show ?thesis by (simp add: sha256_words_def initial_hash_def)
qed

lemma length_concat_const: "\<forall>x \<in> set xs. length (f x) = n \<Longrightarrow> length (concat (map f xs)) = n * length xs"
  by (induction xs) auto

lemma length_Sum256: "length (Sum256 s) = 32"
  unfolding Sum256_def
  by (subst length_concat_const [where n = 4]) (simp_all add: word_bytes_def Let_def length_sha256_words)

lemma length_EncodeToString: "length (EncodeToString bs) = 2 * length bs"
  unfolding EncodeToString_def by (rule length_concat_const) (simp add: hex_byte_def)

definition is_lower_hex :: "char \<Rightarrow> bool" where
  "is_lower_hex c \<longleftrightarrow> is_digit c \<or> 97 \<le> byte c \<and> byte c \<le> 102"

lemma nibble_char_hex: "n < 16 \<Longrightarrow> is_lower_hex (nibble_char n)"
  by (auto simp: nibble_char_def is_lower_hex_def is_digit_def)

lemma EncodeToString_hex: "c \<in> set (EncodeToString bs) \<Longrightarrow> is_lower_hex c"
  by (auto simp: EncodeToString_def hex_byte_def nibble_char_hex)

end
