(* ===== verification/Events.thy ===== *)
theory Events
  imports Config Timestamps Text Sha256 "HOL-Library.AList" "HOL-Library.List_Lexorder" "HOL-Library.Char_ord"
begin

text \<open>
  \<open>events.go\<close> and the event types of \<open>build_consumer.go\<close>: the request and result payloads, the
  constructors of the events the worker publishes (each takes the instant \<open>time.Now\<close> returned),
  their JSON form, and the decoding of incoming requests with the rules of \<open>encoding/json\<close>:
  case-insensitive field names, null leaves a field alone, repeated members merge, and a value of
  the wrong type is an error.
\<close>

section \<open>Event types\<close>

record ApplicationBuildRequestedPayload =
  p_RepositoryURL :: string
  p_Branch :: string
  p_LinkedDatabaseService :: string
  p_ServiceAlias :: string
  p_ProjectSlug :: string
  p_ServiceSlug :: string
  p_ContainerPort :: int
  p_RepositoryProvider :: string
  p_GitHubInstallationID :: "int option"
  p_GitHubRepositoryID :: "int option"
  p_RepositoryOwner :: string
  p_RepositoryName :: string
  p_CloneURL :: string
  p_PrivateRepository :: bool

record 'p ServiceEvent =
  se_EventID :: string
  se_EventType :: string
  se_Timestamp :: RawMessage
  se_DeploymentID :: string
  se_ProjectID :: string
  se_ServiceID :: string
  se_ServiceName :: string
  se_UserID :: string
  se_Payload :: 'p

type_synonym build_request = "ApplicationBuildRequestedPayload ServiceEvent"

record DeploymentEvent =
  de_EventID :: string
  de_DeploymentID :: string
  de_ProjectID :: string
  de_ServiceName :: string
  de_EventType :: string
  de_Status :: string
  de_Timestamp :: gotime
  de_Metadata :: "(string \<times> json) list"

record BuildSucceededPayload =
  s_ImageTag :: string
  s_CommitSHA :: string
  s_Builder :: string
  s_ProjectSlug :: string
  s_ServiceSlug :: string
  s_ContainerPort :: int

record BuildFailedPayload =
  f_ImageTag :: string
  f_CommitSHA :: string
  f_Builder :: string
  f_ErrorMessage :: string

record BuildResult =
  br_ImageTag :: string
  br_CommitSHA :: string
  br_Builder :: string

definition no_result :: BuildResult where
  "no_result = \<lparr> br_ImageTag = [], br_CommitSHA = [], br_Builder = [] \<rparr>"

record buildResultEvents =
  b_ServiceRoutingKey :: string
  b_ServiceEvent :: RawMessage
  b_ProgressRoutingKey :: string
  b_ProgressEvent :: RawMessage

section \<open>Constructors\<close>

definition buildSucceededEventType :: string where
  "buildSucceededEventType = ''build.succeeded''"

definition buildFailedEventType :: string where
  "buildFailedEventType = ''build.failed''"

definition buildingStatus :: string where
  "buildingStatus = ''BUILDING''"

definition buildSucceededStatus :: string where
  "buildSucceededStatus = ''BUILD_SUCCEEDED''"

definition buildFailedStatus :: string where
  "buildFailedStatus = ''BUILD_FAILED''"

definition buildRetryingStatus :: string where
  "buildRetryingStatus = ''BUILD_RETRYING''"

definition deploymentEventID :: "string \<Rightarrow> string \<Rightarrow> string \<Rightarrow> string" where
  "deploymentEventID deploymentID stage status =
     EncodeToString (Sum256 (deploymentID @ '':'' @ stage @ '':'' @ status))"

fun firstNonEmpty :: "string list \<Rightarrow> string" where
  "firstNonEmpty [] = []"
| "firstNonEmpty (value # values) = (if value \<noteq> [] then value else firstNonEmpty values)"

definition service_name :: "build_request \<Rightarrow> string" where
  "service_name request = firstNonEmpty [se_ServiceName request, p_ServiceAlias (se_Payload request)]"

definition newBuildRetryingDeploymentEvent ::
    "gotime \<Rightarrow> build_request \<Rightarrow> int \<Rightarrow> goerr \<Rightarrow> DeploymentEvent" where
  "newBuildRetryingDeploymentEvent now request attempt err = \<lparr>
     de_EventID = deploymentEventID (se_DeploymentID request) ''build''
                    (buildRetryingStatus @ '':'' @ Itoa attempt),
     de_DeploymentID = se_DeploymentID request,
     de_ProjectID = se_ProjectID request,
     de_ServiceName = service_name request,
     de_EventType = ''deployment.build.retrying'',
     de_Status = buildRetryingStatus,
     de_Timestamp = now,
     de_Metadata = [(''serviceId'', JStr (se_ServiceID request)),
       (''attempt'', JNum (Itoa attempt)),
       (''errorMessage'', JStr (redact (error_text err)))] \<rparr>"

definition newBuildSucceededEvent ::
    "gotime \<Rightarrow> build_request \<Rightarrow> BuildResult \<Rightarrow> BuildSucceededPayload ServiceEvent" where
  "newBuildSucceededEvent now request res = \<lparr>
     se_EventID = deploymentEventID (se_DeploymentID request) ''build'' buildSucceededStatus,
     se_EventType = buildSucceededEventType,
     se_Timestamp = marshalTimestamp now,
     se_DeploymentID = se_DeploymentID request,
     se_ProjectID = se_ProjectID request,
     se_ServiceID = se_ServiceID request,
     se_ServiceName = service_name request,
     se_UserID = se_UserID request,
     se_Payload = \<lparr>
       s_ImageTag = br_ImageTag res, s_CommitSHA = br_CommitSHA res, s_Builder = br_Builder res,
       s_ProjectSlug = p_ProjectSlug (se_Payload request),
       s_ServiceSlug = p_ServiceSlug (se_Payload request),
       s_ContainerPort = p_ContainerPort (se_Payload request) \<rparr> \<rparr>"

definition newBuildFailedEvent ::
    "gotime \<Rightarrow> build_request \<Rightarrow> BuildResult \<Rightarrow> goerr \<Rightarrow> BuildFailedPayload ServiceEvent" where
  "newBuildFailedEvent now request res err = \<lparr>
     se_EventID = deploymentEventID (se_DeploymentID request) ''build'' buildFailedStatus,
     se_EventType = buildFailedEventType,
     se_Timestamp = marshalTimestamp now,
     se_DeploymentID = se_DeploymentID request,
     se_ProjectID = se_ProjectID request,
     se_ServiceID = se_ServiceID request,
     se_ServiceName = service_name request,
     se_UserID = se_UserID request,
     se_Payload = \<lparr>
       f_ImageTag = br_ImageTag res, f_CommitSHA = br_CommitSHA res, f_Builder = br_Builder res,
       f_ErrorMessage = sanitizeStoredText (redact (error_text err)) \<rparr> \<rparr>"

definition newBuildStartedDeploymentEvent :: "gotime \<Rightarrow> build_request \<Rightarrow> DeploymentEvent" where
  "newBuildStartedDeploymentEvent now request = \<lparr>
     de_EventID = deploymentEventID (se_DeploymentID request) ''build'' buildingStatus,
     de_DeploymentID = se_DeploymentID request,
     de_ProjectID = se_ProjectID request,
     de_ServiceName = service_name request,
     de_EventType = deploymentBuildStartedEventType,
     de_Status = buildingStatus,
     de_Timestamp = now,
     de_Metadata = [(''serviceId'', JStr (se_ServiceID request)),
       (''branch'', JStr (p_Branch (se_Payload request))),
       (''repositoryUrl'', JStr (p_RepositoryURL (se_Payload request)))] \<rparr>"

definition newBuildSucceededDeploymentEvent ::
    "gotime \<Rightarrow> build_request \<Rightarrow> BuildResult \<Rightarrow> DeploymentEvent" where
  "newBuildSucceededDeploymentEvent now request res = \<lparr>
     de_EventID = deploymentEventID (se_DeploymentID request) ''build'' buildSucceededStatus,
     de_DeploymentID = se_DeploymentID request,
     de_ProjectID = se_ProjectID request,
     de_ServiceName = service_name request,
     de_EventType = deploymentBuildSucceededEventType,
     de_Status = buildSucceededStatus,
     de_Timestamp = now,
     de_Metadata = [(''serviceId'', JStr (se_ServiceID request)),
       (''imageTag'', JStr (br_ImageTag res)),
       (''commitSha'', JStr (br_CommitSHA res)),
       (''builder'', JStr (br_Builder res)),
       (''projectSlug'', JStr (p_ProjectSlug (se_Payload request))),
       (''serviceSlug'', JStr (p_ServiceSlug (se_Payload request))),
       (''containerPort'', JNum (Itoa (p_ContainerPort (se_Payload request))))] \<rparr>"

definition newBuildFailedDeploymentEvent ::
    "gotime \<Rightarrow> build_request \<Rightarrow> BuildResult \<Rightarrow> goerr \<Rightarrow> DeploymentEvent" where
  "newBuildFailedDeploymentEvent now request res err = \<lparr>
     de_EventID = deploymentEventID (se_DeploymentID request) ''build'' buildFailedStatus,
     de_DeploymentID = se_DeploymentID request,
     de_ProjectID = se_ProjectID request,
     de_ServiceName = service_name request,
     de_EventType = deploymentBuildFailedEventType,
     de_Status = buildFailedStatus,
     de_Timestamp = now,
     de_Metadata = [(''serviceId'', JStr (se_ServiceID request)),
       (''imageTag'', JStr (br_ImageTag res)),
       (''commitSha'', JStr (br_CommitSHA res)),
       (''builder'', JStr (br_Builder res)),
       (''errorMessage'', JStr (sanitizeStoredText (redact (error_text err)))),
       (''projectSlug'', JStr (p_ProjectSlug (se_Payload request))),
       (''serviceSlug'', JStr (p_ServiceSlug (se_Payload request))),
       (''containerPort'', JNum (Itoa (p_ContainerPort (se_Payload request))))] \<rparr>"

section \<open>Encoding\<close>

text \<open>
  Members in the order of the struct fields; \<open>omitempty\<close> drops empty strings and zero numbers; a
  nil raw message is null; the keys of a map are sorted. Marshalling fails only on a time whose
  year has not four digits.
\<close>

definition req :: "string \<Rightarrow> string \<Rightarrow> (string \<times> json) list" where
  "req key v = [(key, JStr v)]"

definition opt :: "string \<Rightarrow> string \<Rightarrow> (string \<times> json) list" where
  "opt key v = (if v = [] then [] else [(key, JStr v)])"

definition raw_json :: "RawMessage \<Rightarrow> json" where
  "raw_json m = (case m of None \<Rightarrow> JNull | Some j \<Rightarrow> j)"

definition service_event_json :: "('p \<Rightarrow> json) \<Rightarrow> 'p ServiceEvent \<Rightarrow> json" where
  "service_event_json payload ev =
     JObj (req ''eventId'' (se_EventID ev) @ req ''eventType'' (se_EventType ev)
       @ [(''timestamp'', raw_json (se_Timestamp ev))]
       @ opt ''deploymentId'' (se_DeploymentID ev) @ req ''projectId'' (se_ProjectID ev)
       @ req ''serviceId'' (se_ServiceID ev) @ opt ''serviceName'' (se_ServiceName ev)
       @ req ''userId'' (se_UserID ev) @ [(''payload'', payload (se_Payload ev))])"

definition succeeded_json :: "BuildSucceededPayload \<Rightarrow> json" where
  "succeeded_json p =
     JObj (req ''imageTag'' (s_ImageTag p) @ opt ''commitSha'' (s_CommitSHA p)
       @ opt ''builder'' (s_Builder p) @ opt ''projectSlug'' (s_ProjectSlug p)
       @ opt ''serviceSlug'' (s_ServiceSlug p)
       @ (if s_ContainerPort p = 0 then [] else [(''containerPort'', JNum (Itoa (s_ContainerPort p)))]))"

definition failed_json :: "BuildFailedPayload \<Rightarrow> json" where
  "failed_json p =
     JObj (opt ''imageTag'' (f_ImageTag p) @ opt ''commitSha'' (f_CommitSHA p)
       @ opt ''builder'' (f_Builder p) @ req ''errorMessage'' (f_ErrorMessage p))"

definition sort_keys :: "(string \<times> json) list \<Rightarrow> (string \<times> json) list" where
  "sort_keys kvs = sort_key fst kvs"

definition deployment_event_json :: "DeploymentEvent \<Rightarrow> json option" where
  "deployment_event_json ev =
     map_option (\<lambda>t.
       JObj (req ''eventId'' (de_EventID ev) @ req ''deploymentId'' (de_DeploymentID ev)
         @ req ''projectId'' (de_ProjectID ev) @ req ''serviceName'' (de_ServiceName ev)
         @ req ''eventType'' (de_EventType ev) @ req ''status'' (de_Status ev)
         @ [(''timestamp'', t)]
         @ (if de_Metadata ev = [] then [] else [(''metadata'', JObj (sort_keys (de_Metadata ev)))])))
       (json_time (de_Timestamp ev))"

text \<open>What the publishing functions accept as \<open>any\<close>: the program passes these four types.\<close>

datatype outbound =
    Succeeded "BuildSucceededPayload ServiceEvent"
  | Failed "BuildFailedPayload ServiceEvent"
  | Deployment DeploymentEvent
  | AnyJson json

definition marshal_error :: goerr where
  "marshal_error = ErrText (''json: error calling MarshalJSON for type time.Time: ''
     @ ''Time.MarshalJSON: year outside of range [0,9999]'')"

definition outbound_json :: "outbound \<Rightarrow> goerr + json" where
  "outbound_json x =
     (case x of
        Succeeded ev \<Rightarrow> Inr (service_event_json succeeded_json ev)
      | Failed ev \<Rightarrow> Inr (service_event_json failed_json ev)
      | Deployment ev \<Rightarrow>
          (case deployment_event_json ev of None \<Rightarrow> Inl marshal_error | Some j \<Rightarrow> Inr j)
      | AnyJson j \<Rightarrow> Inr j)"

definition bundle_json :: "buildResultEvents \<Rightarrow> json" where
  "bundle_json b =
     JObj (req ''serviceRoutingKey'' (b_ServiceRoutingKey b)
       @ [(''serviceEvent'', raw_json (b_ServiceEvent b))]
       @ req ''progressRoutingKey'' (b_ProgressRoutingKey b)
       @ [(''progressEvent'', raw_json (b_ProgressEvent b))])"

definition makeBuildResultEvents ::
    "string \<Rightarrow> outbound \<Rightarrow> string \<Rightarrow> outbound \<Rightarrow> goerr + buildResultEvents" where
  "makeBuildResultEvents serviceKey service progressKey progress =
     (case outbound_json service of
        Inl e \<Rightarrow> Inl e
      | Inr s \<Rightarrow>
          (case outbound_json progress of
             Inl e \<Rightarrow> Inl e
           | Inr p \<Rightarrow> Inr \<lparr> b_ServiceRoutingKey = serviceKey, b_ServiceEvent = Some s,
               b_ProgressRoutingKey = progressKey, b_ProgressEvent = Some p \<rparr>))"

section \<open>Decoding\<close>

text \<open>The value a member gives a field that holds \<open>old\<close>.\<close>

definition as_string :: "json \<Rightarrow> string \<Rightarrow> string option" where
  "as_string v old = (case v of JStr s \<Rightarrow> Some s | JNull \<Rightarrow> Some old | _ \<Rightarrow> None)"

definition as_bool :: "json \<Rightarrow> bool \<Rightarrow> bool option" where
  "as_bool v old = (case v of JBool b \<Rightarrow> Some b | JNull \<Rightarrow> Some old | _ \<Rightarrow> None)"

definition as_int32 :: "json \<Rightarrow> int \<Rightarrow> int option" where
  "as_int32 v old =
     (case v of
        JNum lit \<Rightarrow> (case Atoi lit of None \<Rightarrow> None | Some i \<Rightarrow> if int32 i = i then Some i else None)
      | JNull \<Rightarrow> Some old | _ \<Rightarrow> None)"

definition as_int64_pointer :: "json \<Rightarrow> int option option" where
  "as_int64_pointer v =
     (case v of JNum lit \<Rightarrow> map_option Some (Atoi lit) | JNull \<Rightarrow> Some None | _ \<Rightarrow> None)"

fun decode_members ::
    "(string \<Rightarrow> json \<Rightarrow> 'r \<Rightarrow> 'r option) \<Rightarrow> (string \<times> json) list \<Rightarrow> 'r \<Rightarrow> 'r option" where
  "decode_members field [] r = Some r"
| "decode_members field ((key, v) # kvs) r =
     (case field key v r of None \<Rightarrow> None | Some r' \<Rightarrow> decode_members field kvs r')"

definition decode_struct ::
    "(string \<Rightarrow> json \<Rightarrow> 'r \<Rightarrow> 'r option) \<Rightarrow> json \<Rightarrow> 'r \<Rightarrow> 'r option" where
  "decode_struct field j r =
     (case j of JObj kvs \<Rightarrow> decode_members field kvs r | JNull \<Rightarrow> Some r | _ \<Rightarrow> None)"

definition payload_field ::
    "string \<Rightarrow> json \<Rightarrow> ApplicationBuildRequestedPayload \<Rightarrow> ApplicationBuildRequestedPayload option" where
  "payload_field key v p =
     (if field_is ''repositoryUrl'' key then
        map_option (\<lambda>x. p\<lparr>p_RepositoryURL := x\<rparr>) (as_string v (p_RepositoryURL p))
      else if field_is ''branch'' key then
        map_option (\<lambda>x. p\<lparr>p_Branch := x\<rparr>) (as_string v (p_Branch p))
      else if field_is ''linkedDatabaseServiceId'' key then
        map_option (\<lambda>x. p\<lparr>p_LinkedDatabaseService := x\<rparr>) (as_string v (p_LinkedDatabaseService p))
      else if field_is ''serviceAlias'' key then
        map_option (\<lambda>x. p\<lparr>p_ServiceAlias := x\<rparr>) (as_string v (p_ServiceAlias p))
      else if field_is ''projectSlug'' key then
        map_option (\<lambda>x. p\<lparr>p_ProjectSlug := x\<rparr>) (as_string v (p_ProjectSlug p))
      else if field_is ''serviceSlug'' key then
        map_option (\<lambda>x. p\<lparr>p_ServiceSlug := x\<rparr>) (as_string v (p_ServiceSlug p))
      else if field_is ''containerPort'' key then
        map_option (\<lambda>x. p\<lparr>p_ContainerPort := x\<rparr>) (as_int32 v (p_ContainerPort p))
      else if field_is ''repositoryProvider'' key then
        map_option (\<lambda>x. p\<lparr>p_RepositoryProvider := x\<rparr>) (as_string v (p_RepositoryProvider p))
      else if field_is ''githubInstallationId'' key then
        map_option (\<lambda>x. p\<lparr>p_GitHubInstallationID := x\<rparr>) (as_int64_pointer v)
      else if field_is ''githubRepositoryId'' key then
        map_option (\<lambda>x. p\<lparr>p_GitHubRepositoryID := x\<rparr>) (as_int64_pointer v)
      else if field_is ''repositoryOwner'' key then
        map_option (\<lambda>x. p\<lparr>p_RepositoryOwner := x\<rparr>) (as_string v (p_RepositoryOwner p))
      else if field_is ''repositoryName'' key then
        map_option (\<lambda>x. p\<lparr>p_RepositoryName := x\<rparr>) (as_string v (p_RepositoryName p))
      else if field_is ''cloneUrl'' key then
        map_option (\<lambda>x. p\<lparr>p_CloneURL := x\<rparr>) (as_string v (p_CloneURL p))
      else if field_is ''privateRepository'' key then
        map_option (\<lambda>x. p\<lparr>p_PrivateRepository := x\<rparr>) (as_bool v (p_PrivateRepository p))
      else Some p)"

definition event_field :: "string \<Rightarrow> json \<Rightarrow> build_request \<Rightarrow> build_request option" where
  "event_field key v ev =
     (if field_is ''eventId'' key then
        map_option (\<lambda>x. ev\<lparr>se_EventID := x\<rparr>) (as_string v (se_EventID ev))
      else if field_is ''eventType'' key then
        map_option (\<lambda>x. ev\<lparr>se_EventType := x\<rparr>) (as_string v (se_EventType ev))
      else if field_is ''timestamp'' key then Some (ev\<lparr>se_Timestamp := Some v\<rparr>)
      else if field_is ''deploymentId'' key then
        map_option (\<lambda>x. ev\<lparr>se_DeploymentID := x\<rparr>) (as_string v (se_DeploymentID ev))
      else if field_is ''projectId'' key then
        map_option (\<lambda>x. ev\<lparr>se_ProjectID := x\<rparr>) (as_string v (se_ProjectID ev))
      else if field_is ''serviceId'' key then
        map_option (\<lambda>x. ev\<lparr>se_ServiceID := x\<rparr>) (as_string v (se_ServiceID ev))
      else if field_is ''serviceName'' key then
        map_option (\<lambda>x. ev\<lparr>se_ServiceName := x\<rparr>) (as_string v (se_ServiceName ev))
      else if field_is ''userId'' key then
        map_option (\<lambda>x. ev\<lparr>se_UserID := x\<rparr>) (as_string v (se_UserID ev))
      else if field_is ''payload'' key then
        map_option (\<lambda>x. ev\<lparr>se_Payload := x\<rparr>) (decode_struct payload_field v (se_Payload ev))
      else Some ev)"

definition zero_payload :: ApplicationBuildRequestedPayload where
  "zero_payload = \<lparr>
     p_RepositoryURL = [], p_Branch = [], p_LinkedDatabaseService = [], p_ServiceAlias = [],
     p_ProjectSlug = [], p_ServiceSlug = [], p_ContainerPort = 0, p_RepositoryProvider = [],
     p_GitHubInstallationID = None, p_GitHubRepositoryID = None, p_RepositoryOwner = [],
     p_RepositoryName = [], p_CloneURL = [], p_PrivateRepository = False \<rparr>"

definition zero_request :: build_request where
  "zero_request = \<lparr>
     se_EventID = [], se_EventType = [], se_Timestamp = None, se_DeploymentID = [],
     se_ProjectID = [], se_ServiceID = [], se_ServiceName = [], se_UserID = [],
     se_Payload = zero_payload \<rparr>"

text \<open>\<open>json.Unmarshal(body, &event)\<close>, \<open>None\<close> for its error.\<close>

definition decode_request :: "string \<Rightarrow> build_request option" where
  "decode_request body =
     (case parse_json body of None \<Rightarrow> None | Some j \<Rightarrow> decode_struct event_field j zero_request)"

definition bundle_field :: "string \<Rightarrow> json \<Rightarrow> buildResultEvents \<Rightarrow> buildResultEvents option" where
  "bundle_field key v b =
     (if field_is ''serviceRoutingKey'' key then
        map_option (\<lambda>x. b\<lparr>b_ServiceRoutingKey := x\<rparr>) (as_string v (b_ServiceRoutingKey b))
      else if field_is ''serviceEvent'' key then Some (b\<lparr>b_ServiceEvent := Some v\<rparr>)
      else if field_is ''progressRoutingKey'' key then
        map_option (\<lambda>x. b\<lparr>b_ProgressRoutingKey := x\<rparr>) (as_string v (b_ProgressRoutingKey b))
      else if field_is ''progressEvent'' key then Some (b\<lparr>b_ProgressEvent := Some v\<rparr>)
      else Some b)"

definition zero_bundle :: buildResultEvents where
  "zero_bundle = \<lparr> b_ServiceRoutingKey = [], b_ServiceEvent = None,
     b_ProgressRoutingKey = [], b_ProgressEvent = None \<rparr>"

definition decode_bundle :: "string \<Rightarrow> buildResultEvents option" where
  "decode_bundle raw =
     (case parse_json raw of None \<Rightarrow> None | Some j \<Rightarrow> decode_struct bundle_field j zero_bundle)"

text \<open>
  \<open>json.Unmarshal\<close> into an \<open>any\<close>, followed by \<open>json.Marshal\<close>: an object becomes a map, so its
  members end up sorted and the last of several equal keys wins, and a number passes through a
  64-bit float. An integer of at most 15 digits survives that; the text of any other number is
  given by the parameter \<open>float_text\<close>, \<open>None\<close> when it is out of range. The nil message is not a
  document and fails.
\<close>

definition number_text :: "(string \<Rightarrow> string option) \<Rightarrow> string \<Rightarrow> string option" where
  "number_text float_text lit =
     (case Atoi lit of
        Some i \<Rightarrow> if lit = Itoa i \<and> \<bar>i\<bar> < 10 ^ 15 then Some lit else float_text lit
      | None \<Rightarrow> float_text lit)"

definition map_of_members :: "(string \<times> json) list \<Rightarrow> (string \<times> json) list" where
  "map_of_members kvs = sort_keys (fold (\<lambda>kv m. AList.update (fst kv) (snd kv) m) kvs [])"

fun go_any :: "(string \<Rightarrow> string option) \<Rightarrow> json \<Rightarrow> json option"
  and go_any_list :: "(string \<Rightarrow> string option) \<Rightarrow> json list \<Rightarrow> json list option"
  and go_any_members ::
    "(string \<Rightarrow> string option) \<Rightarrow> (string \<times> json) list \<Rightarrow> (string \<times> json) list option" where
  "go_any ft JNull = Some JNull"
| "go_any ft (JBool b) = Some (JBool b)"
| "go_any ft (JNum lit) = map_option JNum (number_text ft lit)"
| "go_any ft (JStr s) = Some (JStr s)"
| "go_any ft (JArr vs) = map_option JArr (go_any_list ft vs)"
| "go_any ft (JObj kvs) = map_option (\<lambda>m. JObj (map_of_members m)) (go_any_members ft kvs)"
| "go_any_list ft [] = Some []"
| "go_any_list ft (v # vs) =
     (case go_any ft v of None \<Rightarrow> None | Some w \<Rightarrow> map_option ((#) w) (go_any_list ft vs))"
| "go_any_members ft [] = Some []"
| "go_any_members ft ((k, v) # kvs) =
     (case go_any ft v of None \<Rightarrow> None | Some w \<Rightarrow> map_option ((#) (k, w)) (go_any_members ft kvs))"

definition decode_any :: "(string \<Rightarrow> string option) \<Rightarrow> RawMessage \<Rightarrow> json option" where
  "decode_any ft raw = (case raw of None \<Rightarrow> None | Some j \<Rightarrow> go_any ft j)"

definition validateBuildPayload :: "ApplicationBuildRequestedPayload \<Rightarrow> goerr option" where
  "validateBuildPayload payload =
     (if TrimSpace (p_CloneURL payload) = [] \<and> TrimSpace (p_RepositoryURL payload) = []
      then Some (ErrText ''missing clone url'') else None)"

end
