(* ===== verification/World.thy ===== *)
theory World
  imports Prelude Events
begin

text \<open>
  The world the worker runs in. Everything outside the process (the clock, the broker, the
  database server, child processes, the file system, GitHub) is an \<open>environment\<close>: a record of
  functions that answer a call from the history of calls made so far, so that nothing is assumed
  about when a call fails. The \<open>world\<close> pairs it with that history, the ledger table of the
  database, and the mutable fields of the consumer. Effectful code is a computation in the state
  monad over it; each call appends one entry to the history, newest last.

  Deadlines set with \<open>context.WithTimeout\<close> show up only as errors the environment may return.
  Log output is left out.
\<close>

section \<open>Messages\<close>

text \<open>A value of a message header; the types \<open>headerAttempt\<close> tells apart, and any other.\<close>

datatype header_value =
    HInt32 int
  | HInt64 int
  | HInt int
  | HString string
  | HOther string

type_synonym headers = "string \<rightharpoonup> header_value"

record Publishing =
  m_ContentType :: string
  m_DeliveryMode :: nat
  m_Headers :: headers
  m_Timestamp :: "gotime option"
  m_MessageId :: string
  m_Body :: string

definition Persistent :: nat where
  "Persistent = 2"

text \<open>A delivery; only one that came from a channel can be acknowledged, by its tag.\<close>

record Delivery =
  d_Body :: string
  d_Headers :: headers
  d_ContentType :: string
  d_tag :: "nat option"

record buildJob =
  j_event :: build_request
  j_body :: string
  j_headers :: headers
  j_contentType :: string

text \<open>
  How the broker answers a publish on the confirming channel: the send fails, no confirmation is
  created, waiting for it fails, or it arrives, negative or positive, and in the last case possibly
  with the message returned as unroutable.
\<close>

datatype pub_outcome =
    SendError string
  | NoConfirmation
  | WaitError string
  | NackedByBroker
  | Confirmed "(int \<times> string) option"

fun accepted :: "pub_outcome \<Rightarrow> bool" where
  "accepted (Confirmed r) = True"
| "accepted _ = False"

section \<open>Calls\<close>

datatype chan_id = ConsumerChannel | PublisherChannel

datatype amqp_call =
    Dial string
  | OpenChannel chan_id
  | ExchangeDeclare chan_id string string
  | QueueDeclare string "(string \<times> header_value) list"
  | QueueBind string string string
  | SetQos nat
  | ConfirmMode
  | Consume string
  | CloseChannel chan_id
  | CloseConnection

type_synonym StageState = string

record StageRecord =
  r_DeploymentID :: string
  r_Stage :: string
  r_State :: StageState
  r_Attempt :: int
  r_RetryCount :: int
  r_LeaseExpiresAt :: "gotime option"
  r_ResultJSON :: "string option"

text \<open>The statements sent to the database, with their arguments.\<close>

datatype sql_stmt =
    Ping
  | CloseDb
  | BeginTx
  | InsertClaim string string gotime
  | SelectForUpdate string string
  | UpdateClaim string string int gotime
  | Commit
  | UpdateRenew string string gotime
  | UpdateResult string string string string
  | UpdateRelease string string
  | UpdateRetry string string string

text \<open>A failing round trip may or may not have taken effect on the server.\<close>

datatype sql_fault = NotApplied string | AppliedUnseen string

record commandSpec =
  c_Name :: string
  c_Args :: "string list"
  c_Dir :: string
  c_Env :: "(string \<times> string) list"
  c_Stdin :: string

text \<open>A child process as it is started: its environment is a list of \<open>name=value\<close> texts.\<close>

record process =
  x_Name :: string
  x_Args :: "string list"
  x_Dir :: string
  x_Env :: "string list"
  x_Stdin :: string

datatype fs_call =
    MkdirAll string
  | WriteFile string string
  | RemoveAll string

datatype stat_result = IsFile | IsDir | NotExist | StatError string

record http_request =
  h_Method :: string
  h_URL :: string
  h_Headers :: "(string \<times> string) list"
  h_Body :: string

datatype call =
    ReadClock
  | Publish string string bool Publishing pub_outcome
  | ChannelPublish string string Publishing bool
  | Ack nat bool
  | Nack nat bool
  | Amqp amqp_call bool
  | Sql sql_stmt
  | MkdirTemp string
  | Fs fs_call
  | Stat string
  | Exec process
  | Http http_request
  | Sign string
  | RenewalTicks string

section \<open>The environment and the world\<close>

record environment =
  clock :: "call list \<Rightarrow> gotime"
  broker :: "call list \<Rightarrow> string \<Rightarrow> string \<Rightarrow> bool \<Rightarrow> Publishing \<Rightarrow> pub_outcome"
  channel_send :: "call list \<Rightarrow> string \<Rightarrow> string \<Rightarrow> Publishing \<Rightarrow> string option"
  acknowledge :: "call list \<Rightarrow> nat \<Rightarrow> string option"
  amqp :: "call list \<Rightarrow> amqp_call \<Rightarrow> string option"
  sql_fault :: "call list \<Rightarrow> sql_stmt \<Rightarrow> sql_fault option"
  sql_error :: "sql_stmt \<Rightarrow> string"
  sql_open :: "string \<Rightarrow> string option"
  timestamptz :: "gotime \<Rightarrow> gotime"
  jsonb :: "string \<Rightarrow> string option"
  mkdir_temp :: "call list \<Rightarrow> string \<Rightarrow> string + string"
  fs_error :: "call list \<Rightarrow> fs_call \<Rightarrow> string option"
  stat :: "call list \<Rightarrow> string \<Rightarrow> stat_result"
  run_process :: "call list \<Rightarrow> process \<Rightarrow> string \<times> string option"
  environ :: "string list"
  http :: "call list \<Rightarrow> http_request \<Rightarrow> string + int \<times> string"
  pem_decode :: "string \<Rightarrow> string option"
  parse_pkcs1 :: "string \<Rightarrow> string option"
  parse_pkcs8 :: "string \<Rightarrow> string + string option"
  rsa_sign :: "call list \<Rightarrow> string \<Rightarrow> nat list \<Rightarrow> string + string"
  renewal_ticks :: "call list \<Rightarrow> nat"
  float_text :: "string \<Rightarrow> string option"
  json_error :: "string \<Rightarrow> string"

text \<open>A row of the table \<open>stage_ledger\<close>, without \<open>updated_at\<close>, which no statement reads.\<close>

record pg_row =
  g_state :: string
  g_attempt :: int
  g_lease :: "gotime option"
  g_result :: "string option"
  g_retry_count :: int
  g_last_error :: "string option"

record world =
  env :: environment
  hist :: "call list"
  rows :: "string \<times> string \<rightharpoonup> pg_row"
  memory :: "string \<rightharpoonup> StageRecord"
  pub_set :: bool
  ch_set :: bool
  conn_set :: bool
  connectedAt :: int
  disconnectedAt :: int
  jobs :: "buildJob list"
  parked :: "buildJob list"

type_synonym 'a M = "(world, 'a) state"

section \<open>Calling out\<close>

text \<open>Append an entry to the history.\<close>

definition emit :: "call \<Rightarrow> unit M" where
  "emit e = modify (\<lambda>w. w\<lparr>hist := hist w @ [e]\<rparr>)"

definition ask :: "(environment \<Rightarrow> call list \<Rightarrow> 'a) \<Rightarrow> 'a M" where
  "ask f = gets (\<lambda>w. f (env w) (hist w))"

definition time_now :: "gotime M" where
  "time_now = do { t \<leftarrow> ask clock; emit ReadClock; ret t }"

definition amqp_do :: "amqp_call \<Rightarrow> string option M" where
  "amqp_do c = do { e \<leftarrow> ask (\<lambda>v h. amqp v h c); emit (Amqp c (e = None)); ret e }"

definition fs_do :: "fs_call \<Rightarrow> string option M" where
  "fs_do c = do { e \<leftarrow> ask (\<lambda>v h. fs_error v h c); emit (Fs c); ret e }"

definition mkdir_temp_do :: "string \<Rightarrow> (string + string) M" where
  "mkdir_temp_do pattern = do { r \<leftarrow> ask (\<lambda>v h. mkdir_temp v h pattern); emit (MkdirTemp pattern); ret r }"

definition stat_do :: "string \<Rightarrow> stat_result M" where
  "stat_do path = do { r \<leftarrow> ask (\<lambda>v h. stat v h path); emit (Stat path); ret r }"

definition exec_do :: "process \<Rightarrow> (string \<times> string option) M" where
  "exec_do p = do { r \<leftarrow> ask (\<lambda>v h. run_process v h p); emit (Exec p); ret r }"

definition http_do :: "http_request \<Rightarrow> (string + int \<times> string) M" where
  "http_do q = do { r \<leftarrow> ask (\<lambda>v h. http v h q); emit (Http q); ret r }"

definition sign_do :: "string \<Rightarrow> nat list \<Rightarrow> (string + string) M" where
  "sign_do key digest = do { r \<leftarrow> ask (\<lambda>v h. rsa_sign v h key digest); emit (Sign key); ret r }"

text \<open>\<open>msg.Ack(false)\<close> and \<open>msg.Nack(false, requeue)\<close>; a delivery without a channel fails.\<close>

definition ack :: "Delivery \<Rightarrow> goerr option M" where
  "ack msg =
     (case d_tag msg of
        None \<Rightarrow> ret (Some (ErrText ''delivery not initialized''))
      | Some tag \<Rightarrow> do { e \<leftarrow> ask (\<lambda>v h. acknowledge v h tag); emit (Ack tag (e = None)); ret (map_option ErrText e) })"

definition nack :: "Delivery \<Rightarrow> bool \<Rightarrow> goerr option M" where
  "nack msg requeue =
     (case d_tag msg of
        None \<Rightarrow> ret (Some (ErrText ''delivery not initialized''))
      | Some tag \<Rightarrow> do { e \<leftarrow> ask (\<lambda>v h. acknowledge v h tag); emit (Nack tag requeue); ret (map_option ErrText e) })"

section \<open>What a call does to the world\<close>

text \<open>
  Every call leaves the environment and the whole state apart from the history alone.
  \<open>calls m w\<close> names the entries a computation appends.
\<close>

definition calls :: "'a M \<Rightarrow> world \<Rightarrow> call list" where
  "calls m w = drop (length (hist w)) (hist (after m w))"

definition appends :: "'a M \<Rightarrow> bool" where
  "appends m \<longleftrightarrow> (\<forall>w. prefix (hist w) (hist (after m w)) \<and> env (after m w) = env w)"

lemma run_emit [simp]: "run_state (emit e) w = ((), w\<lparr>hist := hist w @ [e]\<rparr>)"
  by (simp add: emit_def)

lemma run_ask [simp]: "run_state (ask f) w = (f (env w) (hist w), w)"
  by (simp add: ask_def)

lemma run_bind [effect_simps]:
  "run_state (State_Monad.bind m f) w = (case run_state m w of (x, w') \<Rightarrow> run_state (f x) w')"
  by (simp)

lemmas call_defs = time_now_def amqp_do_def fs_do_def mkdir_temp_do_def stat_do_def exec_do_def
  http_do_def sign_do_def

lemma run_time_now [simp]:
  "run_state time_now w = (clock (env w) (hist w), w\<lparr>hist := hist w @ [ReadClock]\<rparr>)"
  by (simp add: time_now_def)

lemma time_now_steps [simp]:
  "value_of time_now w = clock (env w) (hist w)" "after time_now w = w\<lparr>hist := hist w @ [ReadClock]\<rparr>"
  by (simp_all add: value_of_def after_def)

lemma run_amqp_do [simp]:
  "run_state (amqp_do c) w =
     (amqp (env w) (hist w) c,
      w\<lparr>hist := hist w @ [Amqp c (amqp (env w) (hist w) c = None)]\<rparr>)"
  by (simp add: amqp_do_def)

lemma run_fs_do [simp]:
  "run_state (fs_do c) w = (fs_error (env w) (hist w) c, w\<lparr>hist := hist w @ [Fs c]\<rparr>)"
  by (simp add: fs_do_def)

lemma run_mkdir_temp_do [simp]:
  "run_state (mkdir_temp_do p) w = (mkdir_temp (env w) (hist w) p, w\<lparr>hist := hist w @ [MkdirTemp p]\<rparr>)"
  by (simp add: mkdir_temp_do_def)

lemma run_stat_do [simp]:
  "run_state (stat_do p) w = (stat (env w) (hist w) p, w\<lparr>hist := hist w @ [Stat p]\<rparr>)"
  by (simp add: stat_do_def)

lemma run_exec_do [simp]:
  "run_state (exec_do p) w = (run_process (env w) (hist w) p, w\<lparr>hist := hist w @ [Exec p]\<rparr>)"
  by (simp add: exec_do_def)

lemma run_http_do [simp]:
  "run_state (http_do q) w = (http (env w) (hist w) q, w\<lparr>hist := hist w @ [Http q]\<rparr>)"
  by (simp add: http_do_def)

lemma run_sign_do [simp]:
  "run_state (sign_do k d) w = (rsa_sign (env w) (hist w) k d, w\<lparr>hist := hist w @ [Sign k]\<rparr>)"
  by (simp add: sign_do_def)

lemma run_ack:
  "d_tag msg = Some tag \<Longrightarrow> run_state (ack msg) w =
     (map_option ErrText (acknowledge (env w) (hist w) tag), w\<lparr>hist := hist w @ [Ack tag (acknowledge (env w) (hist w) tag = None)]\<rparr>)"
  by (simp add: ack_def)

lemma run_nack:
  "d_tag msg = Some tag \<Longrightarrow> run_state (nack msg requeue) w =
     (map_option ErrText (acknowledge (env w) (hist w) tag), w\<lparr>hist := hist w @ [Nack tag requeue]\<rparr>)"
  by (simp add: nack_def)

end
