(* ===== verification/Publisher.thy ===== *)
theory Publisher
  imports World
begin

text \<open>
  \<open>rabbit_publisher.go\<close>: publishing on a channel in confirm mode. A publish succeeds only when the
  broker confirms it, and a mandatory one only when the message is not returned either. The
  publisher is the consumer's field \<open>pub\<close>; its presence is passed as a flag, and its mutex is
  implicit, since a publish is one step of the world.
\<close>

fun declare_exchanges :: "(string \<times> string) list \<Rightarrow> goerr option M" where
  "declare_exchanges [] = ret None"
| "declare_exchanges ((name, kind) # exchanges) = do {
     e \<leftarrow> amqp_do (ExchangeDeclare PublisherChannel name kind);
     case e of
       Some t \<Rightarrow> ret (Some (Wrapped (''declare exchange '' @ name @ '': '') (ErrText t)))
     | None \<Rightarrow> declare_exchanges exchanges }"

definition NewRabbitPublisher :: "(string \<times> string) list \<Rightarrow> goerr option M" where
  "NewRabbitPublisher exchanges = do {
     e \<leftarrow> amqp_do (OpenChannel PublisherChannel);
     case e of
       Some t \<Rightarrow> ret (Some (Wrapped ''open publish channel: '' (ErrText t)))
     | None \<Rightarrow> do {
         declared \<leftarrow> declare_exchanges exchanges;
         case declared of
           Some err \<Rightarrow> do { _ \<leftarrow> amqp_do (CloseChannel PublisherChannel); ret (Some err) }
         | None \<Rightarrow> do {
             c \<leftarrow> amqp_do ConfirmMode;
             case c of
               Some t \<Rightarrow> do {
                 _ \<leftarrow> amqp_do (CloseChannel PublisherChannel);
                 ret (Some (Wrapped ''enable publisher confirms: '' (ErrText t))) }
             | None \<Rightarrow> ret None } } }"

definition publisher_close :: "bool \<Rightarrow> string option M" where
  "publisher_close p = (if \<not> p then ret None else amqp_do (CloseChannel PublisherChannel))"

definition uninitialised :: goerr where
  "uninitialised = ErrText ''rabbitmq publish channel is not initialized''"

text \<open>What \<open>publish\<close> makes of the broker's answer.\<close>

fun outcome_error :: "bool \<Rightarrow> pub_outcome \<Rightarrow> goerr option" where
  "outcome_error mandatory (SendError t) = Some (Wrapped ''publish rabbitmq event: '' (ErrText t))"
| "outcome_error mandatory NoConfirmation = Some (ErrText ''publisher confirmation was not created'')"
| "outcome_error mandatory (WaitError t) =
     Some (Wrapped ''wait for publisher confirmation: '' (ErrText t))"
| "outcome_error mandatory NackedByBroker =
     Some (ErrText ''rabbitmq publisher negatively acknowledged the event'')"
| "outcome_error mandatory (Confirmed None) = None"
| "outcome_error mandatory (Confirmed (Some (code, txt))) =
     (if mandatory
      then Some (ErrText (''rabbitmq returned unroutable progress event: '' @ Itoa code @ '' '' @ txt))
      else None)"

definition publish :: "bool \<Rightarrow> string \<Rightarrow> string \<Rightarrow> bool \<Rightarrow> Publishing \<Rightarrow> goerr option M" where
  "publish p exchange routingKey mandatory message =
     (if \<not> p then ret (Some uninitialised)
      else do {
        answer \<leftarrow> ask (\<lambda>v h. broker v h exchange routingKey mandatory message);
        emit (Publish exchange routingKey mandatory message answer);
        ret (outcome_error mandatory answer) })"

text \<open>The message an event is sent in; \<open>t1\<close> gives its id, \<open>t2\<close> its time stamp.\<close>

definition json_message :: "json \<Rightarrow> gotime \<Rightarrow> gotime \<Rightarrow> Publishing" where
  "json_message body t1 t2 = \<lparr>
     m_ContentType = ''application/json'',
     m_DeliveryMode = Persistent,
     m_Headers = Map.empty,
     m_Timestamp = Some t2,
     m_MessageId = Itoa (int64 t1),
     m_Body = print_json body \<rparr>"

definition publishJSON :: "bool \<Rightarrow> string \<Rightarrow> string \<Rightarrow> outbound \<Rightarrow> bool \<Rightarrow> goerr option M" where
  "publishJSON p exchange routingKey payload mandatory =
     (if \<not> p then ret (Some uninitialised)
      else case outbound_json payload of
        Inl e \<Rightarrow> ret (Some (Wrapped ''marshal event payload: '' e))
      | Inr body \<Rightarrow> do {
          t1 \<leftarrow> time_now;
          t2 \<leftarrow> time_now;
          publish p exchange routingKey mandatory (json_message body t1 t2) })"

definition PublishJSON :: "bool \<Rightarrow> string \<Rightarrow> string \<Rightarrow> outbound \<Rightarrow> goerr option M" where
  "PublishJSON p exchange routingKey payload = publishJSON p exchange routingKey payload False"

definition PublishProgressJSON :: "bool \<Rightarrow> string \<Rightarrow> string \<Rightarrow> outbound \<Rightarrow> goerr option M" where
  "PublishProgressJSON p exchange routingKey payload = publishJSON p exchange routingKey payload True"

definition PublishRaw :: "bool \<Rightarrow> string \<Rightarrow> string \<Rightarrow> Publishing \<Rightarrow> goerr option M" where
  "PublishRaw p exchange routingKey message = publish p exchange routingKey False message"

section \<open>Confirmation\<close>

lemma outcome_error_None:
  "outcome_error mandatory answer = None
     \<longleftrightarrow> accepted answer \<and> (mandatory \<longrightarrow> answer = Confirmed None)"
  by (cases "(mandatory, answer)" rule: outcome_error.cases) auto

lemma run_publish:
  "run_state (publish p ex key mand msg) w =
     (if p then
        (let answer = broker (env w) (hist w) ex key mand msg
         in (outcome_error mand answer, w\<lparr>hist := hist w @ [Publish ex key mand msg answer]\<rparr>))
      else (Some uninitialised, w))"
  by (simp add: publish_def Let_def)

lemma outcome_error_plain [simp]: "outcome_error False a = None \<longleftrightarrow> accepted a"
  by (simp add: outcome_error_None)

lemma outcome_error_SomeD: "outcome_error False a = Some x \<Longrightarrow> \<not> accepted a"
  by (metis option.distinct(1) outcome_error_plain)

lemma json_message_body [simp]: "m_Body (json_message j t1 t2) = print_json j"
  by (simp add: json_message_def)

lemma run_publishJSON:
  "run_state (publishJSON p ex k x mand) w =
     (if \<not> p then (Some uninitialised, w)
      else case outbound_json x of
        Inl e \<Rightarrow> (Some (Wrapped ''marshal event payload: '' e), w)
      | Inr j \<Rightarrow>
          (let h = hist w @ [ReadClock, ReadClock];
               m = json_message j (clock (env w) (hist w)) (clock (env w) (hist w @ [ReadClock]));
               a = broker (env w) h ex k mand m
           in (outcome_error mand a, w\<lparr>hist := h @ [Publish ex k mand m a]\<rparr>)))"
  by (simp add: publishJSON_def run_publish Let_def split: sum.splits)

end
