(* ===== verification/Ledger.thy ===== *)
theory Ledger
  imports World
begin

text \<open>
  \<open>ledger.go\<close>: the interface \<open>StageLedger\<close> as a record of operations, the ledger in PostgreSQL and
  the ledger in memory. The database is the table \<open>rows\<close> of the world; each statement is a round
  trip that the environment may fail before or after the server applied it, and the server itself
  refuses texts it cannot store, documents it cannot parse and numbers out of range. A transaction
  that does not commit leaves the table as it was.
\<close>

section \<open>The interface\<close>

definition StateInProgress :: StageState where "StateInProgress = ''IN_PROGRESS''"
definition StateCompleted :: StageState where "StateCompleted = ''COMPLETED''"
definition StateFailed :: StageState where "StateFailed = ''FAILED''"

lemmas stage_states = StateInProgress_def StateCompleted_def StateFailed_def

datatype ClaimDisposition = ClaimAcquired | ClaimCompleted | ClaimBusy | ClaimFailed

record StageLedger =
  Claim :: "string \<Rightarrow> string \<Rightarrow> duration \<Rightarrow> (goerr + ClaimDisposition \<times> StageRecord) M"
  Renew :: "string \<Rightarrow> string \<Rightarrow> duration \<Rightarrow> goerr option M"
  Complete :: "string \<Rightarrow> string \<Rightarrow> buildResultEvents \<Rightarrow> goerr option M"
  Fail :: "string \<Rightarrow> string \<Rightarrow> buildResultEvents \<Rightarrow> goerr option M"
  Release :: "string \<Rightarrow> string \<Rightarrow> goerr option M"
  RecordRetry :: "string \<Rightarrow> string \<Rightarrow> string \<Rightarrow> (goerr + int) M"
  CloseLedger :: "goerr option M"

definition lease_live :: "gotime option \<Rightarrow> gotime \<Rightarrow> bool" where
  "lease_live lease now = (case lease of None \<Rightarrow> False | Some t \<Rightarrow> now < t)"

section \<open>The database server\<close>

text \<open>
  A text the server stores: well-formed UTF-8 without NUL. Integer columns have 32 bits. The
  checks on the columns are those of the migrations.
\<close>

definition pg_text :: "string \<Rightarrow> bool" where
  "pg_text s \<longleftrightarrow> valid_utf8 s \<and> CHR 0x00 \<notin> set s"

type_synonym table = "string \<times> string \<rightharpoonup> pg_row"

text \<open>The rows a statement hits, and what it makes of each; \<open>None\<close> when a row violates a check.\<close>

definition update_row ::
    "string \<Rightarrow> string \<Rightarrow> (pg_row \<Rightarrow> pg_row option) \<Rightarrow> table \<Rightarrow> (table \<times> pg_row option) option" where
  "update_row ident stage f tab =
     (case tab (ident, stage) of
        None \<Rightarrow> Some (tab, None)
      | Some row \<Rightarrow> map_option (\<lambda>row'. (tab((ident, stage) \<mapsto> row'), Some row')) (f row))"

definition int4 :: "int \<Rightarrow> bool" where
  "int4 n \<longleftrightarrow> - (2 ^ 31) \<le> n \<and> n < 2 ^ 31"

text \<open>
  The answer of the server to a statement: \<open>None\<close> is an error, otherwise the new table and the row
  inserted, found or updated, if there is one.
\<close>

fun server :: "environment \<Rightarrow> sql_stmt \<Rightarrow> table \<Rightarrow> (table \<times> pg_row option) option" where
  "server ev Ping tab = Some (tab, None)"
| "server ev CloseDb tab = Some (tab, None)"
| "server ev BeginTx tab = Some (tab, None)"
| "server ev Commit tab = Some (tab, None)"
| "server ev (InsertClaim ident stage lease) tab =
     (if \<not> pg_text ident \<or> \<not> pg_text stage then None
      else if tab (ident, stage) \<noteq> None then Some (tab, None)
      else let row = \<lparr> g_state = StateInProgress, g_attempt = 1, g_lease = Some (timestamptz ev lease),
                 g_result = None, g_retry_count = 0, g_last_error = None \<rparr>
           in Some (tab((ident, stage) \<mapsto> row), Some row))"
| "server ev (SelectForUpdate ident stage) tab =
     (if \<not> pg_text ident \<or> \<not> pg_text stage then None else Some (tab, tab (ident, stage)))"
| "server ev (UpdateClaim ident stage attempt lease) tab =
     (if \<not> pg_text ident \<or> \<not> pg_text stage \<or> \<not> int4 attempt then None
      else update_row ident stage
        (\<lambda>row. if attempt \<le> 0 then None
               else Some (row\<lparr>g_state := StateInProgress, g_attempt := attempt,
                           g_lease := Some (timestamptz ev lease)\<rparr>)) tab)"
| "server ev (UpdateRenew ident stage lease) tab =
     (if \<not> pg_text ident \<or> \<not> pg_text stage then None
      else update_row ident stage
        (\<lambda>row. Some (if g_state row = StateInProgress
                      then row\<lparr>g_lease := Some (timestamptz ev lease)\<rparr> else row)) tab)"
| "server ev (UpdateResult ident stage st doc) tab =
     (if \<not> pg_text ident \<or> \<not> pg_text stage then None
      else case jsonb ev doc of
        None \<Rightarrow> None
      | Some stored \<Rightarrow>
          update_row ident stage
            (\<lambda>row. if st \<notin> {StateInProgress, StateCompleted, StateFailed} then None
                   else Some (row\<lparr>g_state := st, g_result := Some stored, g_lease := None\<rparr>)) tab)"
| "server ev (UpdateRelease ident stage) tab =
     (if \<not> pg_text ident \<or> \<not> pg_text stage then None
      else update_row ident stage
        (\<lambda>row. Some (row\<lparr>g_state := StateInProgress, g_lease := None\<rparr>)) tab)"
| "server ev (UpdateRetry ident stage reason) tab =
     (if \<not> pg_text ident \<or> \<not> pg_text stage \<or> \<not> pg_text reason then None
      else update_row ident stage
        (\<lambda>row. if int4 (g_retry_count row + 1)
               then Some (row\<lparr>g_retry_count := g_retry_count row + 1, g_last_error := Some reason\<rparr>)
               else None) tab)"

text \<open>One round trip outside or inside a transaction.\<close>

definition sql_do :: "sql_stmt \<Rightarrow> (goerr + pg_row option) M" where
  "sql_do s = do {
     fault \<leftarrow> ask (\<lambda>v h. sql_fault v h s);
     ev \<leftarrow> gets env;
     tab \<leftarrow> gets rows;
     emit (Sql s);
     case fault of
       Some (NotApplied t) \<Rightarrow> ret (Inl (ErrText t))
     | _ \<Rightarrow>
         (case server ev s tab of
            None \<Rightarrow> ret (Inl (ErrText (sql_error ev s)))
          | Some (tab', row) \<Rightarrow> do {
              modify (\<lambda>w. w\<lparr>rows := tab'\<rparr>);
              case fault of
                Some (AppliedUnseen t) \<Rightarrow> ret (Inl (ErrText t))
              | _ \<Rightarrow> ret (Inr row) }) }"

definition sql_error_of :: "(goerr + pg_row option) \<Rightarrow> goerr option" where
  "sql_error_of r = (case r of Inl e \<Rightarrow> Some e | Inr _ \<Rightarrow> None)"

definition no_rows :: goerr where
  "no_rows = ErrText ''sql: no rows in result set''"

section \<open>The ledger in PostgreSQL\<close>

definition record_of_row :: "string \<Rightarrow> string \<Rightarrow> pg_row \<Rightarrow> StageRecord" where
  "record_of_row ident stage row = \<lparr>
     r_DeploymentID = ident, r_Stage = stage, r_State = g_state row, r_Attempt = g_attempt row,
     r_RetryCount = g_retry_count row, r_LeaseExpiresAt = g_lease row, r_ResultJSON = g_result row \<rparr>"

text \<open>The transaction of \<open>Claim\<close>, between its begin and its commit or rollback.\<close>

definition pg_claim_tx ::
    "string \<Rightarrow> string \<Rightarrow> duration \<Rightarrow> (goerr + ClaimDisposition \<times> StageRecord) M" where
  "pg_claim_tx ident stage lease = do {
     now \<leftarrow> time_now;
     ins \<leftarrow> sql_do (InsertClaim ident stage (now + lease));
     case ins of
       Inl e \<Rightarrow> ret (Inl e)
     | Inr (Some row) \<Rightarrow>
         ret (Inr (ClaimAcquired, \<lparr> r_DeploymentID = ident, r_Stage = stage, r_State = StateInProgress,
           r_Attempt = 1, r_RetryCount = 0, r_LeaseExpiresAt = Some (now + lease), r_ResultJSON = None \<rparr>))
     | Inr None \<Rightarrow> do {
         sel \<leftarrow> sql_do (SelectForUpdate ident stage);
         case sel of
           Inl e \<Rightarrow> ret (Inl e)
         | Inr None \<Rightarrow> ret (Inl no_rows)
         | Inr (Some row) \<Rightarrow>
             (let r = record_of_row ident stage row in
              if r_State r = StateCompleted then ret (Inr (ClaimCompleted, r))
              else if r_State r = StateFailed then ret (Inr (ClaimFailed, r))
              else if lease_live (r_LeaseExpiresAt r) now then ret (Inr (ClaimBusy, r))
              else do {
                let r' = r\<lparr>r_Attempt := r_Attempt r + 1, r_LeaseExpiresAt := Some (now + lease)\<rparr>;
                upd \<leftarrow> sql_do (UpdateClaim ident stage (r_Attempt r') (now + lease));
                case upd of
                  Inl e \<Rightarrow> ret (Inl e)
                | Inr _ \<Rightarrow> ret (Inr (ClaimAcquired, r')) }) } }"

definition pg_Claim ::
    "string \<Rightarrow> string \<Rightarrow> duration \<Rightarrow> (goerr + ClaimDisposition \<times> StageRecord) M" where
  "pg_Claim ident stage lease = do {
     b \<leftarrow> sql_do BeginTx;
     case b of
       Inl e \<Rightarrow> ret (Inl e)
     | Inr _ \<Rightarrow> do {
         before \<leftarrow> gets rows;
         r \<leftarrow> pg_claim_tx ident stage lease;
         case r of
           Inl e \<Rightarrow> do { modify (\<lambda>w. w\<lparr>rows := before\<rparr>); ret (Inl e) }
         | Inr res \<Rightarrow> do {
             fault \<leftarrow> ask (\<lambda>v h. sql_fault v h Commit);
             emit (Sql Commit);
             case fault of
               None \<Rightarrow> ret (Inr res)
             | Some (AppliedUnseen t) \<Rightarrow> ret (Inl (ErrText t))
             | Some (NotApplied t) \<Rightarrow> do {
                 modify (\<lambda>w. w\<lparr>rows := before\<rparr>);
                 ret (Inl (ErrText t)) } } } }"

definition pg_Renew :: "string \<Rightarrow> string \<Rightarrow> duration \<Rightarrow> goerr option M" where
  "pg_Renew ident stage d = do {
     now \<leftarrow> time_now;
     r \<leftarrow> sql_do (UpdateRenew ident stage (now + d));
     ret (sql_error_of r) }"

definition pg_set :: "string \<Rightarrow> string \<Rightarrow> string \<Rightarrow> buildResultEvents \<Rightarrow> goerr option M" where
  "pg_set ident stage st res = do {
     r \<leftarrow> sql_do (UpdateResult ident stage st (print_json (bundle_json res)));
     ret (sql_error_of r) }"

definition pg_Complete :: "string \<Rightarrow> string \<Rightarrow> buildResultEvents \<Rightarrow> goerr option M" where
  "pg_Complete ident stage res = pg_set ident stage StateCompleted res"

definition pg_Fail :: "string \<Rightarrow> string \<Rightarrow> buildResultEvents \<Rightarrow> goerr option M" where
  "pg_Fail ident stage res = pg_set ident stage StateFailed res"

definition pg_Release :: "string \<Rightarrow> string \<Rightarrow> goerr option M" where
  "pg_Release ident stage = do {
     r \<leftarrow> sql_do (UpdateRelease ident stage);
     ret (sql_error_of r) }"

definition pg_RecordRetry :: "string \<Rightarrow> string \<Rightarrow> string \<Rightarrow> (goerr + int) M" where
  "pg_RecordRetry ident stage reason = do {
     r \<leftarrow> sql_do (UpdateRetry ident stage reason);
     case r of
       Inl e \<Rightarrow> ret (Inl e)
     | Inr None \<Rightarrow> ret (Inl no_rows)
     | Inr (Some row) \<Rightarrow> ret (Inr (g_retry_count row)) }"

definition pg_Close :: "goerr option M" where
  "pg_Close = do { r \<leftarrow> sql_do CloseDb; ret (sql_error_of r) }"

definition PostgresStageLedger :: StageLedger where
  "PostgresStageLedger = \<lparr> Claim = pg_Claim, Renew = pg_Renew, Complete = pg_Complete,
     Fail = pg_Fail, Release = pg_Release, RecordRetry = pg_RecordRetry,
     CloseLedger = pg_Close \<rparr>"

text \<open>The guards of the constructor: a database address and a schema name that is an identifier.\<close>

definition schema_char :: "char \<Rightarrow> bool" where
  "schema_char c \<longleftrightarrow> 97 \<le> byte c \<and> byte c \<le> 122 \<or> c = CHR ''_''"

definition schemaNamePattern :: "string \<Rightarrow> bool" where
  "schemaNamePattern s \<longleftrightarrow>
     s \<noteq> [] \<and> schema_char (hd s) \<and> list_all (\<lambda>c. schema_char c \<or> is_digit c) (tl s)"

text \<open>The quoted schema name at the end of the second error text is left out.\<close>

definition NewPostgresStageLedger :: "string \<Rightarrow> string \<Rightarrow> (goerr + string) M" where
  "NewPostgresStageLedger databaseURL schema =
     (if databaseURL = [] then ret (Inl (ErrText ''DATABASE_URL is required''))
      else if \<not> schemaNamePattern schema then ret (Inl (ErrText ''invalid ledger schema''))
      else do {
        opened \<leftarrow> ask (\<lambda>v h. sql_open v databaseURL);
        case opened of
          Some t \<Rightarrow> ret (Inl (ErrText t))
        | None \<Rightarrow> do {
            p \<leftarrow> sql_do Ping;
            case p of
              Inl e \<Rightarrow> do { _ \<leftarrow> sql_do CloseDb; ret (Inl (Wrapped ''connect stage ledger: '' e)) }
            | Inr _ \<Rightarrow> ret (Inr (schema @ ''.stage_ledger'')) } })"

section \<open>The ledger in memory\<close>

definition mem_key :: "string \<Rightarrow> string \<Rightarrow> string" where
  "mem_key ident stage = ident @ [CHR 0x00] @ stage"

definition zero_record :: StageRecord where
  "zero_record = \<lparr> r_DeploymentID = [], r_Stage = [], r_State = [], r_Attempt = 0,
     r_RetryCount = 0, r_LeaseExpiresAt = None, r_ResultJSON = None \<rparr>"

definition mem_get :: "string \<Rightarrow> string \<Rightarrow> StageRecord M" where
  "mem_get ident stage = gets (\<lambda>w. case memory w (mem_key ident stage) of None \<Rightarrow> zero_record | Some r \<Rightarrow> r)"

definition mem_put :: "string \<Rightarrow> string \<Rightarrow> StageRecord \<Rightarrow> unit M" where
  "mem_put ident stage r = modify (\<lambda>w. w\<lparr>memory := (memory w)(mem_key ident stage \<mapsto> r)\<rparr>)"

definition mem_Claim ::
    "string \<Rightarrow> string \<Rightarrow> duration \<Rightarrow> (goerr + ClaimDisposition \<times> StageRecord) M" where
  "mem_Claim ident stage d = do {
     found \<leftarrow> gets (\<lambda>w. memory w (mem_key ident stage));
     now \<leftarrow> time_now;
     case found of
       None \<Rightarrow> do {
         let r = \<lparr> r_DeploymentID = ident, r_Stage = stage, r_State = StateInProgress, r_Attempt = 1,
                   r_RetryCount = 0, r_LeaseExpiresAt = Some (now + d), r_ResultJSON = None \<rparr>;
         mem_put ident stage r;
         ret (Inr (ClaimAcquired, r)) }
     | Some r \<Rightarrow>
         if r_State r = StateCompleted then ret (Inr (ClaimCompleted, r))
         else if r_State r = StateFailed then ret (Inr (ClaimFailed, r))
         else if lease_live (r_LeaseExpiresAt r) now then ret (Inr (ClaimBusy, r))
         else do {
           let r' = r\<lparr>r_Attempt := r_Attempt r + 1, r_LeaseExpiresAt := Some (now + d)\<rparr>;
           mem_put ident stage r';
           ret (Inr (ClaimAcquired, r')) } }"

definition mem_Renew :: "string \<Rightarrow> string \<Rightarrow> duration \<Rightarrow> goerr option M" where
  "mem_Renew ident stage d = do {
     r \<leftarrow> mem_get ident stage;
     now \<leftarrow> time_now;
     mem_put ident stage (r\<lparr>r_LeaseExpiresAt := Some (now + d)\<rparr>);
     ret None }"

definition mem_set :: "string \<Rightarrow> string \<Rightarrow> string \<Rightarrow> buildResultEvents \<Rightarrow> goerr option M" where
  "mem_set ident stage st v = do {
     r \<leftarrow> mem_get ident stage;
     mem_put ident stage (r\<lparr>r_State := st, r_ResultJSON := Some (print_json (bundle_json v))\<rparr>);
     ret None }"

definition mem_Complete :: "string \<Rightarrow> string \<Rightarrow> buildResultEvents \<Rightarrow> goerr option M" where
  "mem_Complete ident stage v = mem_set ident stage StateCompleted v"

definition mem_Fail :: "string \<Rightarrow> string \<Rightarrow> buildResultEvents \<Rightarrow> goerr option M" where
  "mem_Fail ident stage v = mem_set ident stage StateFailed v"

definition mem_Release :: "string \<Rightarrow> string \<Rightarrow> goerr option M" where
  "mem_Release ident stage = do {
     r \<leftarrow> mem_get ident stage;
     mem_put ident stage (r\<lparr>r_State := StateInProgress, r_LeaseExpiresAt := None\<rparr>);
     ret None }"

definition mem_RecordRetry :: "string \<Rightarrow> string \<Rightarrow> string \<Rightarrow> (goerr + int) M" where
  "mem_RecordRetry ident stage reason = do {
     r \<leftarrow> mem_get ident stage;
     let r' = r\<lparr>r_RetryCount := r_RetryCount r + 1\<rparr>;
     mem_put ident stage r';
     ret (Inr (r_RetryCount r')) }"

definition mem_Close :: "goerr option M" where
  "mem_Close = ret None"

definition memoryStageLedger :: StageLedger where
  "memoryStageLedger = \<lparr> Claim = mem_Claim, Renew = mem_Renew, Complete = mem_Complete,
     Fail = mem_Fail, Release = mem_Release, RecordRetry = mem_RecordRetry,
     CloseLedger = mem_Close \<rparr>"

end
