(* ===== verification/ImageRef.thy ===== *)
theory ImageRef
  imports Config GoErrors
begin

text \<open>
  The pure half of \<open>builder.go\<close>: how an image reference is made from the registry configuration,
  the project and service ids and the commit. The lemmas show that every repository component it
  emits has the shape registries accept: lower-case alphanumeric runs joined by single separators.
\<close>

section \<open>Definitions\<close>

definition alnum :: "nat \<Rightarrow> bool" where
  "alnum r \<longleftrightarrow> 97 \<le> r \<and> r \<le> 122 \<or> 48 \<le> r \<and> r \<le> 57"

text \<open>The loop of \<open>sanitizeImageComponent\<close>, over the runes, with the builder and \<open>lastSeparator\<close>.\<close>

fun component_loop :: "nat list \<Rightarrow> string \<Rightarrow> bool \<Rightarrow> string" where
  "component_loop [] builder lastSeparator = builder"
| "component_loop (r # rs) builder lastSeparator =
     (if alnum r then component_loop rs (builder @ encode_rune r) False
      else if r \<in> {46, 45, 95} then
        (if builder = [] \<or> lastSeparator then component_loop rs builder lastSeparator
         else component_loop rs (builder @ encode_rune r) True)
      else
        (if builder = [] \<or> lastSeparator then component_loop rs builder lastSeparator
         else component_loop rs (builder @ ''-'') True))"

definition sanitizeImageComponent :: "string \<Rightarrow> string \<Rightarrow> string" where
  "sanitizeImageComponent v fallback =
     (let txt = ToLower (TrimSpace v) in
      if txt = [] then fallback
      else (let sanitized = TrimBytes (component_loop (runes txt) [] False) ''._-''
            in if sanitized = [] then fallback else sanitized))"

definition normalizeRegistryHost :: "string \<Rightarrow> string" where
  "normalizeRegistryHost host = TrimSuffix (ToLower (TrimSpace host)) ''/''"

definition normalizeRepositoryPrefix :: "string \<Rightarrow> string" where
  "normalizeRepositoryPrefix pre =
     (if TrimSpace pre = [] then []
      else Join (filter (\<lambda>part. part \<noteq> [])
             (map (\<lambda>part. sanitizeImageComponent part []) (SplitByte (CHR ''/'') pre))) ''/'')"

definition shortCommitSHA :: "string \<Rightarrow> string" where
  "shortCommitSHA commitSHA =
     (let sha = TrimSpace commitSHA in if 12 < length sha then take 12 sha else sha)"

definition buildImageReference :: "RegistryConfig \<Rightarrow> string \<Rightarrow> string \<Rightarrow> string \<Rightarrow> goerr + string" where
  "buildImageReference registry projectID serviceID commitSHA =
     (let host = normalizeRegistryHost (Host registry) in
      if host = [] then Inl (ErrText ''missing CONTAINER_REGISTRY_HOST'')
      else let shortSHA = shortCommitSHA commitSHA in
        if shortSHA = [] then Inl (ErrText ''missing commit sha for image tag'')
        else let pre = normalizeRepositoryPrefix (RepositoryPrefix registry);
                 segments = [host] @ (if pre \<noteq> [] then [pre] else []) @
                   [sanitizeImageComponent projectID ''project'',
                    sanitizeImageComponent serviceID ''service'']
          in Inr (Join segments ''/'' @ '':'' @ shortSHA))"

definition validateRegistryConfig :: "RegistryConfig \<Rightarrow> goerr option" where
  "validateRegistryConfig cfg =
     (if TrimSpace (Host cfg) = [] then Some (ErrText ''missing CONTAINER_REGISTRY_HOST'')
      else if TrimSpace (Username cfg) = [] then
        Some (ErrText ''missing CONTAINER_REGISTRY_USERNAME'')
      else if Password cfg = [] then Some (ErrText ''missing CONTAINER_REGISTRY_PASSWORD'')
      else None)"

section \<open>The grammar of a repository component\<close>

definition is_alnum :: "char \<Rightarrow> bool" where
  "is_alnum c \<longleftrightarrow> alnum (byte c)"

definition is_sep :: "char \<Rightarrow> bool" where
  "is_sep c \<longleftrightarrow> byte c \<in> {46, 45, 95}"

fun no_double_sep :: "string \<Rightarrow> bool" where
  "no_double_sep (c # d # s) \<longleftrightarrow> \<not> (is_sep c \<and> is_sep d) \<and> no_double_sep (d # s)"
| "no_double_sep _ \<longleftrightarrow> True"

definition component_ok :: "string \<Rightarrow> bool" where
  "component_ok s \<longleftrightarrow>
     s \<noteq> [] \<and> is_alnum (hd s) \<and> is_alnum (last s)
     \<and> (\<forall>c \<in> set s. is_alnum c \<or> is_sep c) \<and> no_double_sep s"

lemma alnum_not_sep: "is_alnum c \<Longrightarrow> \<not> is_sep c"
  by (auto simp: is_alnum_def is_sep_def alnum_def)

lemma no_double_sep_snoc:
  "no_double_sep (s @ [c]) \<longleftrightarrow> no_double_sep s \<and> (s = [] \<or> \<not> (is_sep (last s) \<and> is_sep c))"
  by (induction s rule: no_double_sep.induct) auto

text \<open>
  What the loop keeps of its builder: no leading separator, no two separators in a row, and
  \<open>lastSeparator\<close> records whether it ends in one.
\<close>

definition builder_ok :: "string \<Rightarrow> bool \<Rightarrow> bool" where
  "builder_ok b sep \<longleftrightarrow>
     (\<forall>c \<in> set b. is_alnum c \<or> is_sep c) \<and> no_double_sep b
     \<and> (b = [] \<longrightarrow> \<not> sep) \<and> (b \<noteq> [] \<longrightarrow> is_alnum (hd b) \<and> sep = is_sep (last b))"

lemma builder_ok_alnum:
  assumes "builder_ok b sep" "alnum r"
  shows "builder_ok (b @ encode_rune r) False"
proof -
  have r: "r < 0x80" using assms(2) by (auto simp: alnum_def)
  then have e: "encode_rune r = [char_of r]" and c: "is_alnum (char_of r)"
    using assms(2) by (simp_all add: encode_rune_def is_alnum_def)
  show ?thesis
    using assms(1) c alnum_not_sep [OF c] unfolding e
    by (auto simp: builder_ok_def no_double_sep_snoc hd_append)
qed

lemma builder_ok_sep:
  assumes "builder_ok b False" "b \<noteq> []" "is_sep c"
  shows "builder_ok (b @ [c]) True"
  using assms by (auto simp: builder_ok_def no_double_sep_snoc)

lemma component_loop_ok: "builder_ok b sep \<Longrightarrow> \<exists>sep'. builder_ok (component_loop rs b sep) sep'"
proof (induction rs b sep rule: component_loop.induct)
  case (2 r rs b sep)
  have dash: "is_sep (CHR ''-'')" by (simp add: is_sep_def byte_def)
  have enc: "r \<in> {46, 45, 95} \<Longrightarrow> encode_rune r = [char_of r] \<and> is_sep (char_of r)"
    by (auto simp: encode_rune_def is_sep_def)
  have step: "b \<noteq> [] \<Longrightarrow> \<not> sep \<Longrightarrow> is_sep c \<Longrightarrow> builder_ok (b @ [c]) True" for c
    using builder_ok_sep "2.prems" by simp
  show ?case
    using "2.IH" "2.prems" builder_ok_alnum step [OF _ _ dash] enc step
    by (auto split: if_splits)
qed auto

lemma cutset_is_sep: "(\<lambda>c. c \<in> set ''._-'') = is_sep"
proof -
  have b: "byte (CHR ''.'') = 46" "byte (CHR ''_'') = 95" "byte (CHR ''-'') = 45"
    by (simp_all add: byte_def)
  show ?thesis unfolding is_sep_def by (auto simp: fun_eq_iff simp flip: b)
qed

text \<open>Trimming such a builder removes at most one separator, at the end.\<close>

lemma trim_builder:
  assumes "builder_ok b sep"
  shows "TrimBytes b ''._-'' = (if sep then butlast b else b)"
proof -
  have drop: "dropWhile is_sep b = b"
    using assms alnum_not_sep by (cases b) (auto simp: builder_ok_def)
  show ?thesis
  proof (cases b rule: rev_cases)
    case Nil
    then show ?thesis using assms unfolding TrimBytes_def cutset_is_sep by (simp add: builder_ok_def)
  next
    case (snoc b' c)
    have "sep = is_sep c" using assms by (simp add: builder_ok_def snoc)
    moreover have "is_sep c \<Longrightarrow> b' \<noteq> [] \<and> \<not> is_sep (last b')"
      using assms alnum_not_sep by (auto simp: builder_ok_def snoc no_double_sep_snoc)
    then have "is_sep c \<Longrightarrow> dropWhile is_sep (rev b') = rev b'"
      by (cases b' rule: rev_cases) auto
    ultimately show ?thesis
      unfolding TrimBytes_def cutset_is_sep drop by (simp add: snoc)
  qed
qed

lemma trimmed_component_ok:
  assumes "builder_ok b sep" "(if sep then butlast b else b) \<noteq> []"
  shows "component_ok (if sep then butlast b else b)"
proof (cases b rule: rev_cases)
  case (snoc b' c)
  show ?thesis
  proof (cases sep)
    case True
    with assms snoc have "b' \<noteq> []" "\<not> is_sep (last b')" "last b' \<in> set b'"
      by (auto simp: builder_ok_def no_double_sep_snoc)
    with assms snoc True show ?thesis
      by (auto simp: component_ok_def builder_ok_def no_double_sep_snoc)
  next
    case False
    with assms snoc show ?thesis by (auto simp: component_ok_def builder_ok_def)
  qed
qed (use assms in simp)

lemma builder_ok_Nil: "builder_ok [] False"
  by (simp add: builder_ok_def)

lemma sanitizeImageComponent_cases:
  "sanitizeImageComponent v fallback = fallback \<or> component_ok (sanitizeImageComponent v fallback)"
proof -
  obtain sep where ok: "builder_ok (component_loop (runes (ToLower (TrimSpace v))) [] False) sep"
    using component_loop_ok [OF builder_ok_Nil] by blast
  show ?thesis
    using trim_builder [OF ok] trimmed_component_ok [OF ok]
    by (auto simp: sanitizeImageComponent_def Let_def)
qed

text \<open>A well-formed component passes through unchanged.\<close>

lemma component_ascii: "c \<in> set s \<Longrightarrow> component_ok s \<Longrightarrow>
    byte c < 0x80 \<and> \<not> ascii_space c \<and> \<not> (65 \<le> byte c \<and> byte c \<le> 90)"
  by (auto simp: component_ok_def is_alnum_def is_sep_def alnum_def ascii_space_def)

lemma no_double_sep_prefix: "no_double_sep (x @ y) \<Longrightarrow> no_double_sep x"
  by (induction y rule: rev_induct) (auto simp: no_double_sep_snoc simp flip: append_assoc)

lemma builder_ok_prefix:
  "builder_ok (x @ y) sep \<Longrightarrow> x \<noteq> [] \<Longrightarrow> builder_ok x (is_sep (last x))"
  by (auto simp: builder_ok_def hd_append dest: no_double_sep_prefix)

lemma encode_byte: "byte c < 0x80 \<Longrightarrow> encode_rune (byte c) = [c]"
  by (simp add: encode_rune_def)

lemma component_loop_id:
  "builder_ok b sep \<Longrightarrow> builder_ok (b @ s) sep' \<Longrightarrow> component_loop (map byte s) b sep = b @ s"
proof (induction s arbitrary: b sep)
  case (Cons c s)
  have pre: "builder_ok (b @ [c]) (is_sep c)"
    using builder_ok_prefix [of "b @ [c]" s sep'] Cons.prems(2) by simp
  then have IH: "component_loop (map byte s) (b @ [c]) (is_sep c) = b @ c # s"
    using Cons.IH [of "b @ [c]"] Cons.prems(2) by simp
  have "is_alnum c \<or> is_sep c" using pre by (simp add: builder_ok_def)
  then show ?case
  proof
    assume a: "is_alnum c"
    then have "byte c < 0x80" by (auto simp: is_alnum_def alnum_def)
    then show ?thesis
      using IH a alnum_not_sep [OF a] by (simp add: encode_byte is_alnum_def)
  next
    assume a: "is_sep c"
    then have n: "\<not> alnum (byte c)" and m: "byte c \<in> {46, 45, 95}" and l: "byte c < 0x80"
      using alnum_not_sep by (auto simp: is_alnum_def is_sep_def)
    have "b \<noteq> []" "\<not> sep"
      using pre a Cons.prems(1) alnum_not_sep by (auto simp: builder_ok_def no_double_sep_snoc)
    then show ?thesis
      using IH a n m by (simp add: encode_byte [OF l])
  qed
qed simp

lemma component_builder: "component_ok s \<Longrightarrow> builder_ok s False"
  using alnum_not_sep by (auto simp: component_ok_def builder_ok_def)

lemma sanitizeImageComponent_id:
  assumes "component_ok s"
  shows "sanitizeImageComponent s fallback = s"
proof -
  note c = component_ascii [OF _ assms]
  have asc: "is_ascii s" using c by (simp add: is_ascii_def)
  have "TrimSpace s = s" using c asc by (intro TrimSpace_idle) auto
  moreover have "ToLower s = s" using c asc by (intro ToLower_idle) auto
  moreover have "component_loop (runes s) [] False = s"
    using component_loop_id [OF builder_ok_Nil, of s False] component_builder [OF assms]
    by (simp add: runes_of_ascii asc)
  moreover have "TrimBytes s ''._-'' = s"
    using trim_builder [OF component_builder [OF assms]] by simp
  moreover have "s \<noteq> []" using assms by (simp add: component_ok_def)
  ultimately show ?thesis by (simp add: sanitizeImageComponent_def Let_def)
qed

section \<open>The shape of an image reference\<close>

lemma sanitizeImageComponent_ok:
  "component_ok fallback \<Longrightarrow> component_ok (sanitizeImageComponent v fallback)"
  using sanitizeImageComponent_cases [of v fallback] by auto

lemma component_ok_defaults: "component_ok ''project''" "component_ok ''service''"
  by (simp_all add: component_ok_def is_alnum_def is_sep_def alnum_def byte_def)

lemma normalizeRepositoryPrefix_components:
  "\<exists>comps. normalizeRepositoryPrefix pre = Join comps ''/'' \<and> list_all component_ok comps"
proof (cases "TrimSpace pre = []")
  case True
  then show ?thesis
    by (intro exI [of _ "[]"]) (simp add: normalizeRepositoryPrefix_def)
next
  case False
  let ?comps = "filter (\<lambda>part. part \<noteq> [])
    (map (\<lambda>part. sanitizeImageComponent part []) (SplitByte (CHR ''/'') pre))"
  have "list_all component_ok ?comps"
    using sanitizeImageComponent_cases [of _ "[]"] by (auto simp: list_all_iff)
  then show ?thesis using False by (auto simp: normalizeRepositoryPrefix_def)
qed

lemma Join_append:
  "xs \<noteq> [] \<Longrightarrow> ys \<noteq> [] \<Longrightarrow> Join (xs @ ys) sep = Join xs sep @ sep @ Join ys sep"
proof (induction xs)
  case (Cons a xs)
  then show ?case by (cases "xs = []") (simp_all add: Join_Cons)
qed simp

lemma Join_eq_Nil: "list_all component_ok comps \<Longrightarrow> Join comps ''/'' = [] \<longleftrightarrow> comps = []"
proof (cases comps)
  case (Cons c cs)
  assume "list_all component_ok comps"
  then have "c \<noteq> []" using Cons by (simp add: component_ok_def)
  then show ?thesis using Cons by (cases cs) auto
qed simp

text \<open>
  C40: Every repository component that reaches an image reference is a run of lower-case letters
  and digits joined by single separators, whatever id it was made from; a component that already
  has this shape passes through unchanged, so sanitising is idempotent.
\<close>

theorem sanitizeImageComponent_grammar:
  assumes "component_ok fallback"
  shows "component_ok (sanitizeImageComponent v fallback)
    \<and> (component_ok v \<longrightarrow> sanitizeImageComponent v fallback = v)
    \<and> sanitizeImageComponent (sanitizeImageComponent v fallback) fallback
        = sanitizeImageComponent v fallback"
  using sanitizeImageComponent_ok [OF assms] sanitizeImageComponent_id by blast

theorem sanitizeImageComponent_grammar_witness:
  "component_ok (sanitizeImageComponent '' My__App/v1. '' ''project'')
    \<and> sanitizeImageComponent ''my_app-v1'' ''project'' = ''my_app-v1''"
proof -
  have "component_ok ''my_app-v1''"
    by (simp add: component_ok_def is_alnum_def is_sep_def alnum_def byte_def)
  then show ?thesis
    using sanitizeImageComponent_grammar [OF component_ok_defaults(1)] by blast
qed

text \<open>
  An image reference is the normalised registry host, then a slash-separated path of
  well-formed components ending in those of the project and the service, then a colon and the
  first twelve bytes of the trimmed commit id. It is refused exactly when the host or the commit
  id is blank.
\<close>

lemma buildImageReference_shape:
  "case buildImageReference registry projectID serviceID commitSHA of
     Inl e \<Rightarrow> normalizeRegistryHost (Host registry) = [] \<or> TrimSpace commitSHA = []
   | Inr ref \<Rightarrow>
       normalizeRegistryHost (Host registry) \<noteq> [] \<and> TrimSpace commitSHA \<noteq> []
       \<and> (\<exists>comps. list_all component_ok comps
            \<and> ref = normalizeRegistryHost (Host registry) @ ''/''
                 @ Join (comps @ [sanitizeImageComponent projectID ''project'',
                     sanitizeImageComponent serviceID ''service'']) ''/''
                 @ '':'' @ take 12 (TrimSpace commitSHA))
       \<and> component_ok (sanitizeImageComponent projectID ''project'')
       \<and> component_ok (sanitizeImageComponent serviceID ''service'')"
proof -
  obtain comps where c: "normalizeRepositoryPrefix (RepositoryPrefix registry) = Join comps ''/''"
      "list_all component_ok comps"
    using normalizeRepositoryPrefix_components by blast
  have short: "shortCommitSHA commitSHA = take 12 (TrimSpace commitSHA)"
    by (simp add: shortCommitSHA_def Let_def)
  show ?thesis
    using c(2) sanitizeImageComponent_ok component_ok_defaults Join_eq_Nil [OF c(2)]
    by (auto simp: buildImageReference_def Let_def short c(1) Join_append Join_Cons intro!: exI [of _ comps])
qed

end
