(* ===== verification/Builder.thy ===== *)
theory Builder
  imports World ImageRef
begin

text \<open>
  The effectful half of \<open>builder.go\<close>: the command builder, which resolves the commit, logs into the
  registry, reuses an image that is already there and otherwise builds and pushes one, and removes
  the local image in any case. The runner of commands is a field, as in the code; \<open>runCommand\<close>
  starts a child process.
\<close>

section \<open>Paths\<close>

text \<open>\<open>filepath.Clean\<close> on the slash-separated elements, and \<open>filepath.Join\<close>.\<close>

fun clean_elems :: "bool \<Rightarrow> string list \<Rightarrow> string list \<Rightarrow> string list" where
  "clean_elems rooted out [] = rev out"
| "clean_elems rooted out (e # es) =
     (if e = [] \<or> e = ''.'' then clean_elems rooted out es
      else if e = ''..'' then
        (if out \<noteq> [] \<and> hd out \<noteq> ''..'' then clean_elems rooted (tl out) es
         else if rooted then clean_elems rooted out es
         else clean_elems rooted (e # out) es)
      else clean_elems rooted (e # out) es)"

definition filepath_Clean :: "string \<Rightarrow> string" where
  "filepath_Clean path =
     (let rooted = prefix ''/'' path;
          s = (if rooted then ''/'' else []) @ Join (clean_elems rooted [] (SplitByte (CHR ''/'') path)) ''/''
      in if s = [] then ''.'' else s)"

definition filepath_Join :: "string list \<Rightarrow> string" where
  "filepath_Join elems =
     (let es = filter (\<lambda>e. e \<noteq> []) elems in if es = [] then [] else filepath_Clean (Join es ''/''))"

section \<open>Commands\<close>

record BuildRequest =
  q_ProjectID :: string
  q_ServiceID :: string
  q_RepositoryDir :: string
  q_WorkDir :: string

type_synonym commandRunner = "commandSpec \<Rightarrow> (goerr + string) M"

type_synonym BuildExecutor = "BuildRequest \<Rightarrow> (BuildResult \<times> goerr option) M"

record CommandBuilder =
  cb_cfg :: Config
  cb_run :: commandRunner

definition assignment :: "string \<times> string \<Rightarrow> string" where
  "assignment kv = fst kv @ ''='' @ snd kv"

definition mergeCommandEnv :: "(string \<times> string) list \<Rightarrow> string list M" where
  "mergeCommandEnv extra = do {
     inherited \<leftarrow> ask (\<lambda>v h. environ v);
     ret (inherited @ map assignment extra) }"

definition runCommand :: commandRunner where
  "runCommand spec = do {
     environment \<leftarrow> mergeCommandEnv (c_Env spec);
     out \<leftarrow> exec_do \<lparr> x_Name = c_Name spec, x_Args = c_Args spec, x_Dir = c_Dir spec,
       x_Env = environment, x_Stdin = c_Stdin spec \<rparr>;
     let trimmedOutput = TrimSpace (fst out);
     case snd out of
       Some t \<Rightarrow>
         if trimmedOutput = [] then ret (Inl (Wrapped (c_Name spec @ '': '') (ErrText t)))
         else ret (Inl (ErrText (c_Name spec @ '': '' @ redact trimmedOutput)))
     | None \<Rightarrow> ret (Inr trimmedOutput) }"

definition NewCommandBuilder :: "Config \<Rightarrow> CommandBuilder" where
  "NewCommandBuilder cfg = \<lparr> cb_cfg = cfg, cb_run = runCommand \<rparr>"

definition plain_command :: "string \<Rightarrow> string list \<Rightarrow> commandSpec" where
  "plain_command name args = \<lparr> c_Name = name, c_Args = args, c_Dir = [], c_Env = [], c_Stdin = [] \<rparr>"

definition rev_parse_command :: "string \<Rightarrow> commandSpec" where
  "rev_parse_command dir = (plain_command ''git'' [''rev-parse'', ''HEAD''])\<lparr>c_Dir := dir\<rparr>"

definition resolveCommitSHA :: "CommandBuilder \<Rightarrow> string \<Rightarrow> (goerr + string) M" where
  "resolveCommitSHA b repositoryDir = do {
     r \<leftarrow> cb_run b (rev_parse_command repositoryDir);
     case r of
       Inl e \<Rightarrow> ret (Inl (Wrapped ''resolve commit sha: '' e))
     | Inr output \<Rightarrow>
         (let commitSHA = TrimSpace output in
          if commitSHA = []
          then ret (Inl (ErrText ''resolve commit sha: git returned an empty commit sha''))
          else ret (Inr commitSHA)) }"

definition login_command :: "RegistryConfig \<Rightarrow> (string \<times> string) list \<Rightarrow> commandSpec" where
  "login_command reg denv = \<lparr> c_Name = ''docker'',
     c_Args = [''login'', normalizeRegistryHost (Host reg), ''--username'', Username reg, ''--password-stdin''],
     c_Dir = [], c_Env = denv, c_Stdin = Password reg \<rparr>"

definition registryDockerEnv ::
    "CommandBuilder \<Rightarrow> string \<Rightarrow> (goerr + (string \<times> string) list) M" where
  "registryDockerEnv b workDir =
     (case validateRegistryConfig (Registry (cb_cfg b)) of
        Some e \<Rightarrow> ret (Inl e)
      | None \<Rightarrow> do {
          let dockerConfigDir = filepath_Join [workDir, ''docker-config''];
          made \<leftarrow> fs_do (MkdirAll dockerConfigDir);
          case made of
            Some t \<Rightarrow> ret (Inl (Wrapped ''create docker config dir: '' (ErrText t)))
          | None \<Rightarrow> do {
              let denv = [(''DOCKER_CONFIG'', dockerConfigDir)];
              r \<leftarrow> cb_run b (login_command (Registry (cb_cfg b)) denv);
              case r of
                Inl e \<Rightarrow> ret (Inl (Wrapped ''docker login failed: '' e))
              | Inr _ \<Rightarrow> ret (Inr denv) } })"

definition inspect_command :: "string \<Rightarrow> (string \<times> string) list \<Rightarrow> commandSpec" where
  "inspect_command imageTag denv =
     (plain_command ''docker'' [''manifest'', ''inspect'', imageTag])\<lparr>c_Env := denv\<rparr>"

definition imageExists :: "CommandBuilder \<Rightarrow> string \<Rightarrow> (string \<times> string) list \<Rightarrow> bool M" where
  "imageExists b imageTag denv = do {
     r \<leftarrow> cb_run b (inspect_command imageTag denv);
     ret (case r of Inl _ \<Rightarrow> False | Inr _ \<Rightarrow> True) }"

definition hasDockerfile :: "string \<Rightarrow> (goerr + bool) M" where
  "hasDockerfile repositoryDir = do {
     r \<leftarrow> stat_do (filepath_Join [repositoryDir, ''Dockerfile'']);
     case r of
       IsFile \<Rightarrow> ret (Inr True)
     | IsDir \<Rightarrow> ret (Inr False)
     | NotExist \<Rightarrow> ret (Inr False)
     | StatError t \<Rightarrow> ret (Inl (Wrapped ''check Dockerfile: '' (ErrText t))) }"

definition nixpacks_command :: "string \<Rightarrow> string \<Rightarrow> commandSpec" where
  "nixpacks_command repositoryDir imageTag =
     plain_command ''nixpacks'' [''build'', repositoryDir, ''--name'', imageTag]"

definition docker_build_command :: "string \<Rightarrow> string \<Rightarrow> commandSpec" where
  "docker_build_command repositoryDir imageTag =
     plain_command ''docker'' [''build'', ''-t'', imageTag, repositoryDir]"

definition buildImage :: "CommandBuilder \<Rightarrow> string \<Rightarrow> string \<Rightarrow> (string \<times> goerr option) M" where
  "buildImage b repositoryDir imageTag = do {
     nix \<leftarrow> cb_run b (nixpacks_command repositoryDir imageTag);
     case nix of
       Inr _ \<Rightarrow> ret (''nixpacks'', None)
     | Inl nixpacksErr \<Rightarrow> do {
         found \<leftarrow> hasDockerfile repositoryDir;
         case found of
           Inl e \<Rightarrow> ret (''nixpacks'', Some e)
         | Inr dockerfileExists \<Rightarrow>
             if \<not> dockerfileExists
             then ret (''nixpacks'',
               Some (Wrapped ''nixpacks build failed and no Dockerfile found: '' nixpacksErr))
             else do {
               r \<leftarrow> cb_run b (docker_build_command repositoryDir imageTag);
               case r of
                 Inl e \<Rightarrow> ret (''dockerfile'', Some (Wrapped ''docker build fallback failed: '' e))
               | Inr _ \<Rightarrow> ret (''dockerfile'', None) } } }"

definition push_command :: "string \<Rightarrow> (string \<times> string) list \<Rightarrow> commandSpec" where
  "push_command imageTag denv = (plain_command ''docker'' [''push'', imageTag])\<lparr>c_Env := denv\<rparr>"

definition pushImage :: "CommandBuilder \<Rightarrow> string \<Rightarrow> (string \<times> string) list \<Rightarrow> goerr option M" where
  "pushImage b imageTag denv = do {
     r \<leftarrow> cb_run b (push_command imageTag denv);
     case r of
       Inl e \<Rightarrow> ret (Some (Wrapped ''docker push failed: '' e))
     | Inr _ \<Rightarrow> ret None }"

definition remove_command :: "string \<Rightarrow> commandSpec" where
  "remove_command imageTag = plain_command ''docker'' [''image'', ''rm'', ''-f'', imageTag]"

text \<open>The part of \<open>BuildAndPush\<close> under the deferred removal of the local image.\<close>

definition build_or_reuse ::
    "CommandBuilder \<Rightarrow> BuildRequest \<Rightarrow> BuildResult \<Rightarrow> string \<Rightarrow> (string \<times> string) list
       \<Rightarrow> (BuildResult \<times> goerr option) M" where
  "build_or_reuse b request res imageTag denv = do {
     exists \<leftarrow> imageExists b imageTag denv;
     if exists then ret (res\<lparr>br_Builder := ''registry''\<rparr>, None)
     else do {
       built \<leftarrow> buildImage b (q_RepositoryDir request) imageTag;
       let res' = res\<lparr>br_Builder := fst built\<rparr>;
       case snd built of
         Some e \<Rightarrow> ret (res', Some e)
       | None \<Rightarrow> do {
           pushed \<leftarrow> pushImage b imageTag denv;
           ret (res', pushed) } } }"

definition BuildAndPush :: "CommandBuilder \<Rightarrow> BuildExecutor" where
  "BuildAndPush b request = do {
     resolved \<leftarrow> resolveCommitSHA b (q_RepositoryDir request);
     case resolved of
       Inl e \<Rightarrow> ret (no_result, Some e)
     | Inr commitSHA \<Rightarrow>
         (let res1 = no_result\<lparr>br_CommitSHA := commitSHA\<rparr> in
          case buildImageReference (Registry (cb_cfg b)) (q_ProjectID request)
                 (q_ServiceID request) commitSHA of
            Inl e \<Rightarrow> ret (res1, Some e)
          | Inr imageTag \<Rightarrow> do {
              let res2 = res1\<lparr>br_ImageTag := imageTag\<rparr>;
              docker \<leftarrow> registryDockerEnv b (q_WorkDir request);
              case docker of
                Inl e \<Rightarrow> ret (res2, Some e)
              | Inr denv \<Rightarrow> do {
                  out \<leftarrow> build_or_reuse b request res2 imageTag denv;
                  _ \<leftarrow> cb_run b (remove_command imageTag);
                  ret out } }) }"

end
