(* ===== verification/Git.thy ===== *)
theory Git
  imports Builder
begin

text \<open>
  How the source of a build is fetched: \<open>github.go\<close>, which exchanges a signed claim for an
  installation token, and \<open>cloneRepository\<close> with its helpers from \<open>build_consumer.go\<close>. The PEM and
  key parsers, the RSA signature and the HTTP client are functions of the environment.
\<close>

section \<open>Base64\<close>

text \<open>
  The encoder without padding in the URL alphabet, and the strict decoder in the standard alphabet,
  which ignores line breaks and insists on padding.
\<close>

definition sextet_char :: "bool \<Rightarrow> nat \<Rightarrow> char" where
  "sextet_char url n =
     (if n < 26 then char_of (65 + n)
      else if n < 52 then char_of (71 + n)
      else if n < 62 then char_of (n - 4)
      else if n = 62 then (if url then CHR ''-'' else CHR ''+'')
      else (if url then CHR ''_'' else CHR ''/''))"

fun RawURLEncoding :: "nat list \<Rightarrow> string" where
  "RawURLEncoding [] = []"
| "RawURLEncoding [a] = map (sextet_char True) [a div 4, a mod 4 * 16]"
| "RawURLEncoding [a, b] = map (sextet_char True) [a div 4, a mod 4 * 16 + b div 16, b mod 16 * 4]"
| "RawURLEncoding (a # b # c # bs) =
     map (sextet_char True)
       [a div 4, a mod 4 * 16 + b div 16, b mod 16 * 4 + c div 64, c mod 64] @ RawURLEncoding bs"

definition sextet_val :: "char \<Rightarrow> nat option" where
  "sextet_val c =
     (let n = byte c in
      if 65 \<le> n \<and> n \<le> 90 then Some (n - 65)
      else if 97 \<le> n \<and> n \<le> 122 then Some (n - 71)
      else if 48 \<le> n \<and> n \<le> 57 then Some (n + 4)
      else if c = CHR ''+'' then Some 62
      else if c = CHR ''/'' then Some 63
      else None)"

fun decode_quads :: "string \<Rightarrow> nat list option" where
  "decode_quads [] = Some []"
| "decode_quads (p # q # r # s # t) =
     (case (sextet_val p, sextet_val q) of
        (Some x, Some y) \<Rightarrow>
          (if r = CHR ''='' then
             (if s = CHR ''='' \<and> t = [] then Some [x * 4 + y div 16] else None)
           else case sextet_val r of
             None \<Rightarrow> None
           | Some z \<Rightarrow>
               if s = CHR ''='' then
                 (if t = [] then Some [x * 4 + y div 16, y mod 16 * 16 + z div 4] else None)
               else case sextet_val s of
                 None \<Rightarrow> None
               | Some w \<Rightarrow>
                   map_option ((@) [x * 4 + y div 16, y mod 16 * 16 + z div 4, z mod 4 * 64 + w])
                     (decode_quads t))
      | _ \<Rightarrow> None)"
| "decode_quads _ = None"

definition StdDecodeString :: "string \<Rightarrow> string option" where
  "StdDecodeString s =
     map_option (map char_of) (decode_quads (filter (\<lambda>c. byte c \<noteq> 10 \<and> byte c \<noteq> 13) s))"

section \<open>The installation token\<close>

definition parse_key :: "string \<Rightarrow> (goerr + string) M" where
  "parse_key keyMaterial = do {
     block \<leftarrow> ask (\<lambda>v h. pem_decode v (ReplaceAll keyMaterial [CHR 0x5C, CHR ''n''] [CHR 0x0A]));
     case block of
       None \<Rightarrow> ret (Inl (ErrText ''invalid GitHub private key PEM''))
     | Some der \<Rightarrow> do {
         pkcs1 \<leftarrow> ask (\<lambda>v h. parse_pkcs1 v der);
         case pkcs1 of
           Some key \<Rightarrow> ret (Inr key)
         | None \<Rightarrow> do {
             pkcs8 \<leftarrow> ask (\<lambda>v h. parse_pkcs8 v der);
             case pkcs8 of
               Inl t \<Rightarrow> ret (Inl (Wrapped ''parse private key: '' (ErrText t)))
             | Inr None \<Rightarrow> ret (Inl (ErrText ''GitHub private key is not RSA''))
             | Inr (Some key) \<Rightarrow> ret (Inr key) } } }"

text \<open>The offset in the text of a base64 error is not modelled; the error keeps its first part.\<close>

definition parseGitHubPrivateKey :: "Config \<Rightarrow> (goerr + string) M" where
  "parseGitHubPrivateKey cfg =
     (let keyMaterial = GitHubPrivateKey cfg;
          decoded = (if keyMaterial = [] \<and> GitHubPrivateKeyB64 cfg \<noteq> []
                     then StdDecodeString (TrimSpace (GitHubPrivateKeyB64 cfg)) else Some keyMaterial)
      in case decoded of
           None \<Rightarrow> ret (Inl (Wrapped ''decode base64 github private key: ''
                     (ErrText ''illegal base64 data'')))
         | Some material \<Rightarrow>
             if TrimSpace material = [] then ret (Inl (ErrText ''missing GitHub private key''))
             else parse_key material)"

definition jwt_header :: string where
  "jwt_header = print_json (JObj [(''alg'', JStr ''RS256''), (''typ'', JStr ''JWT'')])"

definition jwt_claims :: "int \<Rightarrow> string \<Rightarrow> string" where
  "jwt_claims now appID =
     print_json (JObj [(''exp'', JNum (Itoa (int64 (now + 540)))), (''iat'', JNum (Itoa (int64 (now - 30)))),
       (''iss'', JStr appID)])"

definition encode_text :: "string \<Rightarrow> string" where
  "encode_text s = RawURLEncoding (map byte s)"

definition createGitHubAppJWT :: "string \<Rightarrow> string \<Rightarrow> (goerr + string) M" where
  "createGitHubAppJWT appID privateKey = do {
     t \<leftarrow> time_now;
     let signingInput = encode_text jwt_header @ ''.'' @ encode_text (jwt_claims (t div Second) appID);
     signature \<leftarrow> sign_do privateKey (Sum256 signingInput);
     case signature of
       Inl e \<Rightarrow> ret (Inl (ErrText e))
     | Inr sig \<Rightarrow> ret (Inr (signingInput @ ''.'' @ encode_text sig)) }"

definition token_field :: "string \<Rightarrow> json \<Rightarrow> string \<Rightarrow> string option" where
  "token_field key v tok = (if field_is ''token'' key then as_string v tok else Some tok)"

definition decode_token :: "string \<Rightarrow> string option" where
  "decode_token body =
     (case parse_json body of None \<Rightarrow> None | Some j \<Rightarrow> decode_struct token_field j [])"

definition token_request :: "int \<Rightarrow> string \<Rightarrow> http_request" where
  "token_request installationID jwt = \<lparr>
     h_Method = ''POST'',
     h_URL = ''https://api.github.com/app/installations/'' @ Itoa installationID @ ''/access_tokens'',
     h_Headers = [(''Accept'', ''application/vnd.github+json''),
       (''Authorization'', ''Bearer '' @ jwt),
       (''X-GitHub-Api-Version'', ''2022-11-28''),
       (''Content-Type'', ''application/json'')],
     h_Body = ''{}'' \<rparr>"

definition generateInstallationToken :: "Config \<Rightarrow> int \<Rightarrow> (goerr + string) M" where
  "generateInstallationToken cfg installationID =
     (if GitHubAppID cfg = [] then ret (Inl (ErrText ''missing GITHUB_APP_ID''))
      else do {
        parsed \<leftarrow> parseGitHubPrivateKey cfg;
        case parsed of
          Inl e \<Rightarrow> ret (Inl e)
        | Inr privateKey \<Rightarrow> do {
            signed \<leftarrow> createGitHubAppJWT (GitHubAppID cfg) privateKey;
            case signed of
              Inl e \<Rightarrow> ret (Inl (Wrapped ''create GitHub app jwt: '' e))
            | Inr jwt \<Rightarrow> do {
                answer \<leftarrow> http_do (token_request installationID jwt);
                v \<leftarrow> gets env;
                case answer of
                  Inl t \<Rightarrow> ret (Inl (Wrapped ''request installation token: '' (ErrText t)))
                | Inr (status, body) \<Rightarrow>
                    if status < 200 \<or> 300 \<le> status
                    then ret (Inl (ErrText (''request installation token: github returned status ''
                           @ Itoa status)))
                    else case decode_token body of
                      None \<Rightarrow> ret (Inl (Wrapped ''decode installation token: '' (ErrText (json_error v body))))
                    | Some tok \<Rightarrow>
                        if tok = []
                        then ret (Inl (ErrText ''github installation token response was empty''))
                        else ret (Inr tok) } } })"

section \<open>Cloning\<close>

text \<open>
  Go visits the entries of the extra environment in no particular order; their names are distinct,
  so the child sees the same bindings in any order.
\<close>

definition clone_args :: "string \<Rightarrow> string \<Rightarrow> string \<Rightarrow> string list" where
  "clone_args cloneURL branch repositoryDir =
     [''clone'', ''--depth'', ''1'', ''--single-branch'']
     @ (if TrimSpace branch \<noteq> [] then [''--branch'', branch] else [])
     @ [cloneURL, repositoryDir]"

definition runGitClone ::
    "string \<Rightarrow> string \<Rightarrow> string \<Rightarrow> (string \<times> string) list \<Rightarrow> goerr option M" where
  "runGitClone cloneURL branch repositoryDir extraEnv = do {
     environment \<leftarrow> mergeCommandEnv extraEnv;
     out \<leftarrow> exec_do \<lparr> x_Name = ''git'', x_Args = clone_args cloneURL branch repositoryDir,
       x_Dir = [], x_Env = environment, x_Stdin = [] \<rparr>;
     case snd out of
       Some _ \<Rightarrow> ret (Some (ErrText (''git clone failed: '' @ redact (fst out))))
     | None \<Rightarrow> ret None }"

definition askpass_script :: string where
  "askpass_script =
     ''#!/bin/sh'' @ [CHR 0x0A] @ ''case '' @ [dquote] @ ''$1'' @ [dquote] @ '' in'' @ [CHR 0x0A]
     @ ''*Username*) printf '' @ [CHR 0x27] @ ''%s'' @ [CHR 0x27] @ '' '' @ [dquote]
     @ ''x-access-token'' @ [dquote] @ '' ;;'' @ [CHR 0x0A]
     @ ''*) printf '' @ [CHR 0x27] @ ''%s'' @ [CHR 0x27] @ '' '' @ [dquote] @ ''$GIT_TOKEN'' @ [dquote]
     @ '' ;;'' @ [CHR 0x0A] @ ''esac'' @ [CHR 0x0A]"

definition cloneWithAskPass :: "string \<Rightarrow> string \<Rightarrow> string \<Rightarrow> string \<Rightarrow> goerr option M" where
  "cloneWithAskPass cloneURL branch repositoryDir tok = do {
     made \<leftarrow> mkdir_temp_do ''shiply-askpass-*'';
     case made of
       Inl t \<Rightarrow> ret (Some (Wrapped ''create askpass dir: '' (ErrText t)))
     | Inr tmpDir \<Rightarrow> do {
         let scriptPath = filepath_Join [tmpDir, ''askpass.sh''];
         written \<leftarrow> fs_do (WriteFile scriptPath askpass_script);
         r \<leftarrow> (case written of
           Some t \<Rightarrow> ret (Some (Wrapped ''write askpass script: '' (ErrText t)))
         | None \<Rightarrow> runGitClone cloneURL branch repositoryDir
             [(''GIT_ASKPASS'', scriptPath), (''GIT_TOKEN'', tok), (''GIT_TERMINAL_PROMPT'', ''0'')]);
         _ \<leftarrow> fs_do (RemoveAll tmpDir);
         ret r } }"

definition cloneRepository ::
    "Config \<Rightarrow> ApplicationBuildRequestedPayload \<Rightarrow> string \<Rightarrow> goerr option M" where
  "cloneRepository cfg payload repositoryDir =
     (let cloneURL = (if p_CloneURL payload = [] then p_RepositoryURL payload else p_CloneURL payload)
      in if cloneURL = [] then ret (Some (ErrText ''missing clone url''))
         else if p_RepositoryProvider payload = ''GITHUB_APP'' \<and> p_PrivateRepository payload then
           (case p_GitHubInstallationID payload of
              None \<Rightarrow> ret (Some (ErrText ''missing GitHub installation id for private repository''))
            | Some installation \<Rightarrow> do {
                issued \<leftarrow> generateInstallationToken cfg installation;
                case issued of
                  Inl e \<Rightarrow> ret (Some e)
                | Inr tok \<Rightarrow> cloneWithAskPass cloneURL (p_Branch payload) repositoryDir tok })
         else runGitClone cloneURL (p_Branch payload) repositoryDir [])"

end
