(* ===== verification/Consumer.thy ===== *)
theory Consumer
  imports Publisher Ledger Git
begin

text \<open>
  The stage body of \<open>build_consumer.go\<close>: the consumer and its replaceable parts, publishing, the
  recording of a terminal result before it is announced, the replay of a recorded result, the
  renewal of the lease, and \<open>handleClaimedBuildEvent\<close>, which runs one claimed build.
\<close>

section \<open>The consumer\<close>

record deliveryAction =
  a_ack :: bool
  a_requeue :: bool

definition actionAck :: deliveryAction where
  "actionAck = \<lparr> a_ack = True, a_requeue = False \<rparr>"

definition actionNackDrop :: deliveryAction where
  "actionNackDrop = \<lparr> a_ack = False, a_requeue = False \<rparr>"

definition actionNackRequeue :: deliveryAction where
  "actionNackRequeue = \<lparr> a_ack = False, a_requeue = True \<rparr>"

lemma action_simps [simp]:
  "a_ack actionAck" "\<not> a_ack actionNackDrop" "\<not> a_ack actionNackRequeue"
  "\<not> a_requeue actionNackDrop" "a_requeue actionNackRequeue"
  by (simp_all add: actionAck_def actionNackDrop_def actionNackRequeue_def)

type_synonym publishFunc = "string \<Rightarrow> string \<Rightarrow> outbound \<Rightarrow> goerr option M"

text \<open>
  The immutable fields; a nil field is \<open>None\<close>. The connection, the channels, the job queue and the
  two time stamps live in the world.
\<close>

record BuildConsumer =
  c_cfg :: Config
  c_ledger :: "StageLedger option"
  c_cloneRepositoryFn :: "(ApplicationBuildRequestedPayload \<Rightarrow> string \<Rightarrow> goerr option M) option"
  c_buildExecutor :: "BuildExecutor option"
  c_publishFn :: "publishFunc option"

definition no_publisher :: goerr where
  "no_publisher = ErrText ''rabbitmq publisher is not initialized''"

definition publishJSONEvent :: publishFunc where
  "publishJSONEvent exchange routingKey event = do {
     p \<leftarrow> gets pub_set;
     if \<not> p then ret (Some no_publisher) else PublishJSON p exchange routingKey event }"

definition publishEvent :: "BuildConsumer \<Rightarrow> publishFunc" where
  "publishEvent c exchange routingKey event =
     (case c_publishFn c of
        None \<Rightarrow> publishJSONEvent exchange routingKey event
      | Some f \<Rightarrow> f exchange routingKey event)"

definition publishProgressEvent :: "BuildConsumer \<Rightarrow> publishFunc" where
  "publishProgressEvent c exchange routingKey event =
     (case c_publishFn c of
        Some f \<Rightarrow> f exchange routingKey event
      | None \<Rightarrow> do {
          p \<leftarrow> gets pub_set;
          if \<not> p then ret (Some no_publisher) else PublishProgressJSON p exchange routingKey event })"

text \<open>The consumer as the service wires it.\<close>

definition wired :: "Config \<Rightarrow> BuildConsumer" where
  "wired cfg = \<lparr>
     c_cfg = cfg,
     c_ledger = Some PostgresStageLedger,
     c_cloneRepositoryFn = Some (cloneRepository cfg),
     c_buildExecutor = Some (BuildAndPush (NewCommandBuilder cfg)),
     c_publishFn = Some publishJSONEvent \<rparr>"

definition NewBuildConsumer :: "Config \<Rightarrow> (goerr + BuildConsumer) M" where
  "NewBuildConsumer cfg = do {
     opened \<leftarrow> NewPostgresStageLedger (DatabaseURL cfg) (LedgerSchema cfg);
     case opened of
       Inl e \<Rightarrow> ret (Inl (Wrapped ''initialize stage ledger: '' e))
     | Inr _ \<Rightarrow> ret (Inr (wired cfg)) }"

section \<open>Terminal results\<close>

definition build_stage :: string where
  "build_stage = ''build''"

text \<open>Announcing a failure, once it has been recorded.\<close>

definition announceFailure ::
    "BuildConsumer \<Rightarrow> outbound \<Rightarrow> outbound \<Rightarrow> goerr \<Rightarrow> (deliveryAction \<times> goerr option) M" where
  "announceFailure c failureEvent progressEvent buildErr = do {
     r1 \<leftarrow> publishEvent c (RabbitMQExchange (c_cfg c)) (BuildFailedRoutingKey (c_cfg c)) failureEvent;
     case r1 of
       Some e \<Rightarrow> ret (actionNackRequeue,
         Some (Wrapped (error_text buildErr @ ''; publish build failed event: '') e))
     | None \<Rightarrow> do {
         r2 \<leftarrow> publishProgressEvent c (DeploymentExchange (c_cfg c))
                 (DeploymentBuildFailedRoutingKey (c_cfg c)) progressEvent;
         case r2 of
           Some e \<Rightarrow> ret (actionNackRequeue,
             Some (Wrapped (error_text buildErr @ ''; publish deployment build failed event: '') e))
         | None \<Rightarrow> ret (actionAck, Some buildErr) } }"

definition completeFailure ::
    "BuildConsumer \<Rightarrow> build_request \<Rightarrow> BuildResult \<Rightarrow> goerr \<Rightarrow> (deliveryAction \<times> goerr option) M" where
  "completeFailure c event res buildErr = do {
     t1 \<leftarrow> time_now;
     t2 \<leftarrow> time_now;
     let failureEvent = Failed (newBuildFailedEvent t1 event res buildErr);
     let progressEvent = Deployment (newBuildFailedDeploymentEvent t2 event res buildErr);
     case c_ledger c of
       None \<Rightarrow> announceFailure c failureEvent progressEvent buildErr
     | Some led \<Rightarrow>
         (case makeBuildResultEvents (BuildFailedRoutingKey (c_cfg c)) failureEvent
                 (DeploymentBuildFailedRoutingKey (c_cfg c)) progressEvent of
            Inl e \<Rightarrow> ret (actionNackRequeue, Some e)
          | Inr bundle \<Rightarrow> do {
              failed \<leftarrow> Fail led (se_DeploymentID event) build_stage bundle;
              case failed of
                Some e \<Rightarrow> ret (actionNackRequeue, Some (Wrapped ''persist build failure: '' e))
              | None \<Rightarrow> announceFailure c failureEvent progressEvent buildErr }) }"

definition publishBundle :: "BuildConsumer \<Rightarrow> buildResultEvents \<Rightarrow> (deliveryAction \<times> goerr option) M" where
  "publishBundle c b = do {
     v \<leftarrow> gets env;
     case decode_any (float_text v) (b_ServiceEvent b) of
       None \<Rightarrow> ret (actionNackDrop, Some (ErrText (json_error v (print_json (raw_json (b_ServiceEvent b))))))
     | Some s \<Rightarrow>
         (case decode_any (float_text v) (b_ProgressEvent b) of
            None \<Rightarrow> ret (actionNackDrop,
              Some (ErrText (json_error v (print_json (raw_json (b_ProgressEvent b))))))
          | Some p \<Rightarrow> do {
              r1 \<leftarrow> publishEvent c (RabbitMQExchange (c_cfg c)) (b_ServiceRoutingKey b) (AnyJson s);
              case r1 of
                Some e \<Rightarrow> ret (actionNackRequeue, Some (Wrapped ''publish stored service event: '' e))
              | None \<Rightarrow> do {
                  r2 \<leftarrow> publishProgressEvent c (DeploymentExchange (c_cfg c))
                          (b_ProgressRoutingKey b) (AnyJson p);
                  case r2 of
                    Some e \<Rightarrow> ret (actionNackRequeue,
                      Some (Wrapped ''publish stored progress event: '' e))
                  | None \<Rightarrow> ret (actionAck, None) } }) }"

text \<open>An absent result decodes as the empty text does: not at all.\<close>

definition stored_text :: "string option \<Rightarrow> string" where
  "stored_text raw = (case raw of None \<Rightarrow> [] | Some s \<Rightarrow> s)"

definition publishStored :: "BuildConsumer \<Rightarrow> string option \<Rightarrow> (deliveryAction \<times> goerr option) M" where
  "publishStored c raw = do {
     v \<leftarrow> gets env;
     case decode_bundle (stored_text raw) of
       None \<Rightarrow> ret (actionNackDrop,
         Some (Wrapped ''decode stored build result: '' (ErrText (json_error v (stored_text raw)))))
     | Some b \<Rightarrow> publishBundle c b }"

section \<open>Lease renewal\<close>

definition renewal_interval :: "Config \<Rightarrow> duration" where
  "renewal_interval cfg =
     (let interval = quot (LeaseDuration cfg) 3 in if interval \<le> 0 then Minute else interval)"

fun renew_times :: "StageLedger \<Rightarrow> string \<Rightarrow> duration \<Rightarrow> nat \<Rightarrow> unit M" where
  "renew_times led ident lease 0 = ret ()"
| "renew_times led ident lease (Suc n) = do {
     _ \<leftarrow> Renew led ident build_stage lease;
     renew_times led ident lease n }"

text \<open>
  The renewing goroutine runs beside the build, from \<open>startLeaseRenewal\<close> until the handler
  returns. The environment says how often its ticker fired since the last point; the renewals are
  placed after the call during which they happened, whose other effects do not touch the ledger,
  and after each later call of the handler.
\<close>

definition lease_ticks :: "BuildConsumer \<Rightarrow> string \<Rightarrow> unit M" where
  "lease_ticks c ident =
     (case c_ledger c of
        None \<Rightarrow> ret ()
      | Some led \<Rightarrow> do {
          n \<leftarrow> ask renewal_ticks;
          emit (RenewalTicks ident);
          renew_times led ident (LeaseDuration (c_cfg c)) n })"

section \<open>The stage body\<close>

definition executor_of :: "BuildConsumer \<Rightarrow> BuildExecutor" where
  "executor_of c =
     (case c_buildExecutor c of
        None \<Rightarrow> BuildAndPush (NewCommandBuilder (c_cfg c)) | Some b \<Rightarrow> b)"

definition clone_fn_of ::
    "BuildConsumer \<Rightarrow> ApplicationBuildRequestedPayload \<Rightarrow> string \<Rightarrow> goerr option M" where
  "clone_fn_of c =
     (case c_cloneRepositoryFn c of None \<Rightarrow> cloneRepository (c_cfg c) | Some f \<Rightarrow> f)"

text \<open>After a successful build: persist the result, then announce it.\<close>

definition announceSuccess ::
    "BuildConsumer \<Rightarrow> build_request \<Rightarrow> BuildResult \<Rightarrow> outbound \<Rightarrow> (deliveryAction \<times> goerr option) M" where
  "announceSuccess c event res successEvent = do {
     r1 \<leftarrow> publishEvent c (RabbitMQExchange (c_cfg c)) (BuildSucceededRoutingKey (c_cfg c)) successEvent;
     lease_ticks c (se_DeploymentID event);
     case r1 of
       Some e \<Rightarrow> ret (actionNackRequeue, Some (Wrapped ''publish build succeeded event: '' e))
     | None \<Rightarrow> do {
         t \<leftarrow> time_now;
         r2 \<leftarrow> publishProgressEvent c (DeploymentExchange (c_cfg c))
                 (DeploymentBuildSucceededRoutingKey (c_cfg c))
                 (Deployment (newBuildSucceededDeploymentEvent t event res));
         lease_ticks c (se_DeploymentID event);
         case r2 of
           Some e \<Rightarrow> ret (actionNackRequeue, Some (Wrapped ''publish deployment build succeeded event: '' e))
         | None \<Rightarrow> ret (actionAck, None) } }"

definition completeSuccess ::
    "BuildConsumer \<Rightarrow> build_request \<Rightarrow> BuildResult \<Rightarrow> (deliveryAction \<times> goerr option) M" where
  "completeSuccess c event res = do {
     t1 \<leftarrow> time_now;
     t2 \<leftarrow> time_now;
     let successEvent = Succeeded (newBuildSucceededEvent t1 event res);
     case makeBuildResultEvents (BuildSucceededRoutingKey (c_cfg c)) successEvent
            (DeploymentBuildSucceededRoutingKey (c_cfg c))
            (Deployment (newBuildSucceededDeploymentEvent t2 event res)) of
       Inl e \<Rightarrow> ret (actionNackRequeue, Some e)
     | Inr bundle \<Rightarrow>
         (case c_ledger c of
            None \<Rightarrow> announceSuccess c event res successEvent
          | Some led \<Rightarrow> do {
              completed \<leftarrow> Complete led (se_DeploymentID event) build_stage bundle;
              lease_ticks c (se_DeploymentID event);
              case completed of
                Some e \<Rightarrow> ret (actionNackRequeue, Some (Wrapped ''persist build result: '' e))
              | None \<Rightarrow> announceSuccess c event res successEvent }) }"

text \<open>From the clone to the end, under the deferred removal of the work directory.\<close>

definition build_in ::
    "BuildConsumer \<Rightarrow> build_request \<Rightarrow> string \<Rightarrow> (deliveryAction \<times> goerr option) M" where
  "build_in c event targetDir = do {
     let repositoryDir = filepath_Join [targetDir, sanitizeName (p_ServiceAlias (se_Payload event))];
     cloned \<leftarrow> clone_fn_of c (se_Payload event) repositoryDir;
     case cloned of
       Some e \<Rightarrow> completeFailure c event no_result e
     | None \<Rightarrow> do {
         out \<leftarrow> executor_of c \<lparr> q_ProjectID = se_ProjectID event, q_ServiceID = se_ServiceID event,
           q_RepositoryDir = repositoryDir, q_WorkDir = targetDir \<rparr>;
         lease_ticks c (se_DeploymentID event);
         case snd out of
           Some e \<Rightarrow> do {
             r \<leftarrow> completeFailure c event no_result e;
             lease_ticks c (se_DeploymentID event);
             ret (actionAck, snd r) }
         | None \<Rightarrow> completeSuccess c event (fst out) } }"

definition handleClaimedBuildEvent ::
    "BuildConsumer \<Rightarrow> build_request \<Rightarrow> (deliveryAction \<times> goerr option) M" where
  "handleClaimedBuildEvent c event = do {
     t \<leftarrow> time_now;
     started \<leftarrow> publishProgressEvent c (DeploymentExchange (c_cfg c))
       (DeploymentBuildStartedRoutingKey (c_cfg c)) (Deployment (newBuildStartedDeploymentEvent t event));
     case started of
       Some e \<Rightarrow> ret (actionNackRequeue, Some (Wrapped ''publish build started event: '' e))
     | None \<Rightarrow> do {
         made \<leftarrow> mkdir_temp_do ''shiply-build-*'';
         case made of
           Inl t \<Rightarrow> completeFailure c event no_result (Wrapped ''create workdir: '' (ErrText t))
         | Inr targetDir \<Rightarrow> do {
             r \<leftarrow> build_in c event targetDir;
             _ \<leftarrow> fs_do (RemoveAll targetDir);
             ret r } } }"

end
