(* ===== verification/Retry.thy ===== *)
theory Retry
  imports Consumer
begin

text \<open>
  Retries and the dead-letter queue in \<open>build_consumer.go\<close>: the attempt carried in the headers and
  counted in the ledger, the choice of the delay queue, the event that announces a retry, the
  recording of an exhausted build, and the topology that gives each delay queue its time to live.
\<close>

definition consumerBackoff_step :: "duration \<Rightarrow> duration" where
  "consumerBackoff_step d = d * 2"

text \<open>The loop of \<open>consumerBackoff\<close>: \<open>n\<close> is what is left of the attempt count.\<close>

fun backoff_loop :: "nat \<Rightarrow> duration \<Rightarrow> duration" where
  "backoff_loop 0 d = d"
| "backoff_loop (Suc n) d = (if d < 30 * Second then backoff_loop n (consumerBackoff_step d) else d)"

definition consumerBackoff :: "int \<Rightarrow> duration" where
  "consumerBackoff attempt =
     (let d = backoff_loop (nat attempt) Second in if 30 * Second < d then 30 * Second else d)"

section \<open>Headers\<close>

definition headerAttempt :: "headers \<Rightarrow> int" where
  "headerAttempt h =
     (case h ''x-shiply-attempt'' of
        Some (HInt32 v) \<Rightarrow> v
      | Some (HInt64 v) \<Rightarrow> v
      | Some (HInt v) \<Rightarrow> v
      | _ \<Rightarrow> 0)"

text \<open>A fresh map with the same entries, also for a nil map.\<close>

definition cloneHeaders :: "headers \<Rightarrow> headers" where
  "cloneHeaders h = (\<lambda>k. h k)"

section \<open>Topology\<close>

definition retry_queue :: "Config \<Rightarrow> int \<Rightarrow> string" where
  "retry_queue cfg n = RetryQueuePrefix cfg @ ''.'' @ Itoa n"

definition retry_ttl :: "duration \<Rightarrow> int" where
  "retry_ttl d = int32 (quot d Millisecond)"

definition retry_queue_args :: "Config \<Rightarrow> duration \<Rightarrow> (string \<times> header_value) list" where
  "retry_queue_args cfg d =
     [(''x-message-ttl'', HInt32 (retry_ttl d)),
      (''x-dead-letter-exchange'', HString (RabbitMQExchange cfg)),
      (''x-dead-letter-routing-key'', HString (ApplicationRoutingKey cfg))]"

fun declare_retry_queues :: "Config \<Rightarrow> nat \<Rightarrow> duration list \<Rightarrow> goerr option M" where
  "declare_retry_queues cfg i [] = ret None"
| "declare_retry_queues cfg i (d # ds) = do {
     e \<leftarrow> amqp_do (QueueDeclare (retry_queue cfg (int i + 1)) (retry_queue_args cfg d));
     case e of
       Some t \<Rightarrow> ret (Some (Wrapped ''declare retry queue: '' (ErrText t)))
     | None \<Rightarrow> declare_retry_queues cfg (i + 1) ds }"

definition declareRetryTopology :: "Config \<Rightarrow> goerr option M" where
  "declareRetryTopology cfg = do {
     e \<leftarrow> amqp_do (QueueDeclare (DLQ cfg) []);
     case e of
       Some t \<Rightarrow> ret (Some (Wrapped ''declare build dlq: '' (ErrText t)))
     | None \<Rightarrow> declare_retry_queues cfg 0 (RetryBackoffs cfg) }"

section \<open>Copies\<close>

definition copyToDLQWithAttempt ::
    "BuildConsumer \<Rightarrow> Delivery \<Rightarrow> goerr option \<Rightarrow> int \<Rightarrow> goerr option M" where
  "copyToDLQWithAttempt c msg cause attempt = do {
     let h = (cloneHeaders (d_Headers msg))(''x-shiply-dead-letter-reason'' \<mapsto> HString (safeReason cause),
                ''x-shiply-attempt'' \<mapsto> HInt32 (int32 attempt));
     p \<leftarrow> gets pub_set;
     if \<not> p then ret (Some no_publisher)
     else PublishRaw p [] (DLQ (c_cfg c)) \<lparr>
       m_ContentType = d_ContentType msg, m_DeliveryMode = Persistent, m_Headers = h,
       m_Timestamp = None, m_MessageId = [], m_Body = d_Body msg \<rparr> }"

definition copyToDLQ :: "BuildConsumer \<Rightarrow> Delivery \<Rightarrow> goerr option \<Rightarrow> goerr option M" where
  "copyToDLQ c msg cause = copyToDLQWithAttempt c msg cause (headerAttempt (d_Headers msg))"

definition emitRetrying :: "BuildConsumer \<Rightarrow> string \<Rightarrow> int \<Rightarrow> goerr \<Rightarrow> goerr option M" where
  "emitRetrying c body attempt cause =
     (case decode_request body of
        None \<Rightarrow> ret None
      | Some event \<Rightarrow> do {
          t \<leftarrow> time_now;
          publishProgressEvent c (DeploymentExchange (c_cfg c))
            (DeploymentBuildRetryingRoutingKey (c_cfg c))
            (Deployment (newBuildRetryingDeploymentEvent t event attempt cause)) })"

definition emitExhausted :: "BuildConsumer \<Rightarrow> string \<Rightarrow> goerr \<Rightarrow> goerr option M" where
  "emitExhausted c body cause =
     (case decode_request body of
        None \<Rightarrow> ret None
      | Some event \<Rightarrow> do {
          r \<leftarrow> completeFailure c event no_result (Wrapped ''retry attempts exhausted: '' cause);
          ret (if \<not> a_ack (fst r) then snd r else None) })"

definition releaseClaim :: "BuildConsumer \<Rightarrow> string \<Rightarrow> goerr option M" where
  "releaseClaim c body =
     (case c_ledger c of
        None \<Rightarrow> ret None
      | Some led \<Rightarrow>
          (case decode_request body of
             None \<Rightarrow> do { v \<leftarrow> gets env; ret (Some (ErrText (json_error v body))) }
           | Some event \<Rightarrow> Release led (se_DeploymentID event) build_stage))"

section \<open>Scheduling a retry\<close>

text \<open>
  The attempt the retry counts as, and whether the ledger recorded it. The ledger's count wins over
  the header when it is larger; without a ledger, or when recording fails, the header's count goes
  up by one (as a 64-bit integer).
\<close>

definition retry_attempt :: "BuildConsumer \<Rightarrow> Delivery \<Rightarrow> goerr \<Rightarrow> (int \<times> bool) M" where
  "retry_attempt c msg cause =
     (let attempt = headerAttempt (d_Headers msg) in
      case c_ledger c of
        None \<Rightarrow> ret (int64 (attempt + 1), False)
      | Some led \<Rightarrow>
          (case decode_request (d_Body msg) of
             None \<Rightarrow> ret (attempt, False)
           | Some event \<Rightarrow> do {
               r \<leftarrow> RecordRetry led (se_DeploymentID event) build_stage (safeReason (Some cause));
               case r of
                 Inl _ \<Rightarrow> ret (int64 (attempt + 1), False)
               | Inr persisted \<Rightarrow> ret (if attempt < persisted then persisted else attempt, True) }))"

definition retry_index :: "int \<Rightarrow> nat \<Rightarrow> int" where
  "retry_index attempt schedule =
     (let idx = (if 0 < attempt then attempt - 1 else attempt)
      in if int schedule \<le> idx then int schedule - 1 else idx)"

definition retry_publishing :: "Delivery \<Rightarrow> int \<Rightarrow> goerr \<Rightarrow> Publishing" where
  "retry_publishing msg attempt cause = \<lparr>
     m_ContentType = d_ContentType msg, m_DeliveryMode = Persistent,
     m_Headers = (cloneHeaders (d_Headers msg))(''x-shiply-attempt'' \<mapsto> HInt32 (int32 attempt),
       ''x-shiply-retry-reason'' \<mapsto> HString (safeReason (Some cause))),
     m_Timestamp = None, m_MessageId = [], m_Body = d_Body msg \<rparr>"

text \<open>Sending the delayed copy: the confirming channel first, then the consumer's own.\<close>

definition send_retry :: "string \<Rightarrow> Publishing \<Rightarrow> bool \<Rightarrow> goerr option M" where
  "send_retry queue publishing retryPersisted = do {
     p \<leftarrow> gets pub_set;
     first \<leftarrow> (if p then PublishRaw p [] queue publishing else ret (Some no_publisher));
     case first of
       None \<Rightarrow> ret None
     | Some _ \<Rightarrow> do {
         open_ch \<leftarrow> gets ch_set;
         if \<not> open_ch then ret (Some (ErrText ''rabbitmq retry publisher is not initialized''))
         else do {
           e \<leftarrow> ask (\<lambda>v h. channel_send v h [] queue publishing);
           emit (ChannelPublish [] queue publishing (e = None));
           case e of
             None \<Rightarrow> ret None
           | Some t \<Rightarrow>
               if retryPersisted then ret (Some (Wrapped ''publish durable retry: '' (ErrText t)))
               else ret (Some (Wrapped ''publish retry: '' (ErrText t))) } } }"

text \<open>Below the limit: announce (for a counted attempt), release the lease, send the copy.\<close>

definition delay_retry ::
    "BuildConsumer \<Rightarrow> Delivery \<Rightarrow> goerr \<Rightarrow> bool \<Rightarrow> int \<Rightarrow> bool \<Rightarrow> goerr option M" where
  "delay_retry c msg cause countAttempt attempt retryPersisted = do {
     announced \<leftarrow> (if countAttempt then emitRetrying c (d_Body msg) attempt cause else ret None);
     case announced of
       Some e \<Rightarrow> ret (Some e)
     | None \<Rightarrow> do {
         _ \<leftarrow> (if countAttempt then releaseClaim c (d_Body msg) else ret None);
         send_retry
           (retry_queue (c_cfg c) (retry_index attempt (length (RetryBackoffs (c_cfg c))) + 1))
           (retry_publishing msg attempt cause) retryPersisted } }"

definition scheduleRetry :: "BuildConsumer \<Rightarrow> Delivery \<Rightarrow> goerr \<Rightarrow> bool \<Rightarrow> goerr option M" where
  "scheduleRetry c msg cause countAttempt = do {
     (attempt, retryPersisted) \<leftarrow> retry_attempt c msg cause;
     if MaxAttempts (c_cfg c) \<le> attempt then do {
       exhausted \<leftarrow> (if countAttempt \<and> \<not> errors_is cause ErrStoredResultPublish
                      then emitExhausted c (d_Body msg) cause else ret None);
       case exhausted of
         Some e \<Rightarrow> ret (Some e)
       | None \<Rightarrow> copyToDLQWithAttempt c msg (Some cause) attempt }
     else delay_retry c msg cause countAttempt attempt retryPersisted }"

end
