(* ===== verification/Delivery.thy ===== *)
theory Delivery
  imports Retry
begin

text \<open>
  What \<open>build_consumer.go\<close> does with a delivery. A well-formed request is claimed, acknowledged and
  queued for the worker, or answered from the ledger; anything else goes through the synchronous
  path, which acknowledges, retries, dead-letters or rejects it. The worker takes jobs from the
  queue one at a time; jobs that do not fit wait in goroutines of their own.
\<close>

definition buildConcurrency :: nat where
  "buildConcurrency = 1"

section \<open>The synchronous path\<close>

definition handleBuildEvent :: "BuildConsumer \<Rightarrow> build_request \<Rightarrow> (deliveryAction \<times> goerr option) M" where
  "handleBuildEvent c event =
     (if TrimSpace (se_DeploymentID event) = []
      then ret (actionNackDrop, Some (ErrText ''missing deploymentId''))
      else case validateBuildPayload (se_Payload event) of
        Some e \<Rightarrow> ret (actionNackDrop, Some e)
      | None \<Rightarrow>
          (case c_ledger c of
             None \<Rightarrow> handleClaimedBuildEvent c event
           | Some led \<Rightarrow> do {
               claimed \<leftarrow> Claim led (se_DeploymentID event) build_stage (LeaseDuration (c_cfg c));
               case claimed of
                 Inl e \<Rightarrow> ret (actionNackRequeue, Some (Wrapped ''claim build stage: '' e))
               | Inr (disposition, record) \<Rightarrow>
                   (case disposition of
                      ClaimCompleted \<Rightarrow> publishStored c (r_ResultJSON record)
                    | ClaimFailed \<Rightarrow> publishStored c (r_ResultJSON record)
                    | ClaimBusy \<Rightarrow> ret (actionNackRequeue, Some ErrLeaseBusy)
                    | ClaimAcquired \<Rightarrow> handleClaimedBuildEvent c event) }))"

definition handleMessage :: "BuildConsumer \<Rightarrow> string \<Rightarrow> (deliveryAction \<times> goerr option) M" where
  "handleMessage c body =
     (case decode_request body of
        None \<Rightarrow> do {
          v \<leftarrow> gets env;
          ret (actionNackDrop, Some (Wrapped ''decode build event: '' (ErrText (json_error v body)))) }
      | Some event \<Rightarrow> handleBuildEvent c event)"

text \<open>
  What follows the handler. A requeue always comes with an error (theorem \<open>unacknowledged_has_error\<close> in
  StageProps), so the case of a retry without a cause, where the code would dereference nil, does
  not arise; it is given the plain rejection here.
\<close>

definition settle ::
    "BuildConsumer \<Rightarrow> Delivery \<Rightarrow> deliveryAction \<Rightarrow> goerr option \<Rightarrow> unit M" where
  "settle c msg action err =
     (if a_ack action then do { _ \<leftarrow> ack msg; ret () }
      else do {
        open_ch \<leftarrow> gets ch_set;
        copied \<leftarrow>
          (if open_ch then
             (if a_requeue action then
                (case err of
                   Some cause \<Rightarrow> scheduleRetry c msg cause (\<not> errors_is cause ErrLeaseBusy)
                 | None \<Rightarrow> ret (Some no_publisher))
              else copyToDLQ c msg err)
           else ret (Some no_publisher));
        case copied of
          None \<Rightarrow> do { _ \<leftarrow> ack msg; ret () }
        | Some _ \<Rightarrow> do { _ \<leftarrow> nack msg (a_requeue action); ret () } })"

definition processDelivery :: "BuildConsumer \<Rightarrow> Delivery \<Rightarrow> unit M" where
  "processDelivery c msg = do {
     (action, err) \<leftarrow> handleMessage c (d_Body msg);
     settle c msg action err }"

section \<open>Accepting a delivery\<close>

definition job_of :: "Delivery \<Rightarrow> build_request \<Rightarrow> buildJob" where
  "job_of msg event = \<lparr> j_event = event, j_body = d_Body msg, j_headers = cloneHeaders (d_Headers msg),
     j_contentType = d_ContentType msg \<rparr>"

text \<open>The send on the buffered channel, or a goroutine that waits to send.\<close>

definition enqueue :: "buildJob \<Rightarrow> unit M" where
  "enqueue job =
     modify (\<lambda>w. if length (jobs w) < buildConcurrency then w\<lparr>jobs := jobs w @ [job]\<rparr>
                  else w\<lparr>parked := parked w @ [job]\<rparr>)"

definition early_ack :: "BuildConsumer \<Rightarrow> Delivery \<Rightarrow> build_request \<Rightarrow> unit M" where
  "early_ack c msg event = do {
     acked \<leftarrow> ack msg;
     case acked of
       Some _ \<Rightarrow> ret ()
     | None \<Rightarrow> enqueue (job_of msg event) }"

definition replay :: "BuildConsumer \<Rightarrow> Delivery \<Rightarrow> string option \<Rightarrow> unit M" where
  "replay c msg stored = do {
     (action, err) \<leftarrow> publishStored c stored;
     case err of
       Some _ \<Rightarrow> do { _ \<leftarrow> nack msg True; ret () }
     | None \<Rightarrow>
         if a_ack action then do { _ \<leftarrow> ack msg; ret () }
         else do { _ \<leftarrow> nack msg (a_requeue action); ret () } }"

definition acceptDelivery :: "BuildConsumer \<Rightarrow> Delivery \<Rightarrow> unit M" where
  "acceptDelivery c msg =
     (case decode_request (d_Body msg) of
        None \<Rightarrow> processDelivery c msg
      | Some event \<Rightarrow>
          if TrimSpace (se_DeploymentID event) = [] \<or> validateBuildPayload (se_Payload event) \<noteq> None
          then processDelivery c msg
          else (case c_ledger c of
             None \<Rightarrow> early_ack c msg event
           | Some led \<Rightarrow> do {
               claimed \<leftarrow> Claim led (se_DeploymentID event) build_stage (LeaseDuration (c_cfg c));
               case claimed of
                 Inl _ \<Rightarrow> do { _ \<leftarrow> nack msg True; ret () }
               | Inr (disposition, record) \<Rightarrow>
                   (case disposition of
                      ClaimBusy \<Rightarrow> do { _ \<leftarrow> nack msg True; ret () }
                    | ClaimCompleted \<Rightarrow> replay c msg (r_ResultJSON record)
                    | ClaimFailed \<Rightarrow> replay c msg (r_ResultJSON record)
                    | ClaimAcquired \<Rightarrow> early_ack c msg event) }))"

section \<open>The worker\<close>

definition executeBuildEvent :: "BuildConsumer \<Rightarrow> build_request \<Rightarrow> (deliveryAction \<times> goerr option) M" where
  "executeBuildEvent c event = handleClaimedBuildEvent c event"

definition job_delivery :: "buildJob \<Rightarrow> Delivery" where
  "job_delivery job = \<lparr> d_Body = j_body job, d_Headers = j_headers job,
     d_ContentType = j_contentType job, d_tag = None \<rparr>"

definition runBuildEvent :: "BuildConsumer \<Rightarrow> buildJob \<Rightarrow> unit M" where
  "runBuildEvent c job = do {
     (action, err) \<leftarrow> executeBuildEvent c (j_event job);
     case err of
       None \<Rightarrow> ret ()
     | Some cause \<Rightarrow>
         if a_ack action then ret ()
         else if a_requeue action then do {
           _ \<leftarrow> scheduleRetry c (job_delivery job) cause (\<not> errors_is cause ErrLeaseBusy);
           ret () }
         else do { _ \<leftarrow> copyToDLQ c (job_delivery job) err; ret () } }"

text \<open>One turn of the worker's loop, when a job is there.\<close>

definition worker_turn :: "BuildConsumer \<Rightarrow> unit M" where
  "worker_turn c = do {
     js \<leftarrow> gets jobs;
     case js of
       [] \<Rightarrow> ret ()
     | job # rest \<Rightarrow> do { modify (\<lambda>w. w\<lparr>jobs := rest\<rparr>); runBuildEvent c job } }"

text \<open>A waiting goroutine gets its job into the channel; which one is up to the scheduler.\<close>

definition unpark :: "nat \<Rightarrow> unit M" where
  "unpark i =
     modify (\<lambda>w. if i < length (parked w) \<and> length (jobs w) < buildConcurrency
                  then w\<lparr>jobs := jobs w @ [parked w ! i], parked := take i (parked w) @ drop (Suc i) (parked w)\<rparr>
                  else w)"

end
