(* ===== verification/Connection.thy ===== *)
theory Connection
  imports Delivery
begin

text \<open>
  The connection to the broker: \<open>connect\<close>, \<open>disconnect\<close>, \<open>Close\<close>, the health probes and the loop of
  \<open>Start\<close> in \<open>build_consumer.go\<close>, with the health handler of \<open>main.go\<close>. The loop waits for outside
  events in a \<open>select\<close>; it is a step relation over a control point, the backoff counter and the
  world, in which the worker takes its turns too.
\<close>

section \<open>Connecting\<close>

definition dial_cleanup :: "unit M" where
  "dial_cleanup = do { _ \<leftarrow> amqp_do (CloseChannel ConsumerChannel); _ \<leftarrow> amqp_do CloseConnection; ret () }"

text \<open>The declarations on the consumer's channel, up to its prefetch limit; the first failure ends.\<close>

definition declare_topology :: "Config \<Rightarrow> goerr option M" where
  "declare_topology cfg = do {
     e1 \<leftarrow> amqp_do (ExchangeDeclare ConsumerChannel (RabbitMQExchange cfg) ''direct'');
     case e1 of
       Some t \<Rightarrow> ret (Some (Wrapped ''declare exchange: '' (ErrText t)))
     | None \<Rightarrow> do {
         e2 \<leftarrow> amqp_do (QueueDeclare (ApplicationBuildQueue cfg) []);
         case e2 of
           Some t \<Rightarrow> ret (Some (Wrapped ''declare queue: '' (ErrText t)))
         | None \<Rightarrow> do {
             e3 \<leftarrow> amqp_do (QueueBind (ApplicationBuildQueue cfg) (ApplicationRoutingKey cfg)
                     (RabbitMQExchange cfg));
             case e3 of
               Some t \<Rightarrow> ret (Some (Wrapped ''bind queue: '' (ErrText t)))
             | None \<Rightarrow> do {
                 e4 \<leftarrow> declareRetryTopology cfg;
                 case e4 of
                   Some e \<Rightarrow> ret (Some e)
                 | None \<Rightarrow> do {
                     e5 \<leftarrow> amqp_do (SetQos buildConcurrency);
                     case e5 of
                       Some t \<Rightarrow> ret (Some (Wrapped ''set qos: '' (ErrText t)))
                     | None \<Rightarrow> do {
                         e6 \<leftarrow> NewRabbitPublisher [(RabbitMQExchange cfg, ''direct''),
                                 (DeploymentExchange cfg, ''topic'')];
                         ret (map_option (Wrapped ''initialize publisher: '') e6) } } } } } }"

definition connect :: "BuildConsumer \<Rightarrow> goerr option M" where
  "connect c = do {
     d \<leftarrow> amqp_do (Dial (RabbitMQURL (c_cfg c)));
     case d of
       Some t \<Rightarrow> ret (Some (Wrapped ''connect rabbitmq: '' (ErrText t)))
     | None \<Rightarrow> do {
         o1 \<leftarrow> amqp_do (OpenChannel ConsumerChannel);
         case o1 of
           Some t \<Rightarrow> do {
             _ \<leftarrow> amqp_do CloseConnection;
             ret (Some (Wrapped ''open rabbitmq channel: '' (ErrText t))) }
         | None \<Rightarrow> do {
             topo \<leftarrow> declare_topology (c_cfg c);
             case topo of
               Some e \<Rightarrow> do { dial_cleanup; ret (Some e) }
             | None \<Rightarrow> do {
                 modify (\<lambda>w. w\<lparr>conn_set := True, ch_set := True, pub_set := True, disconnectedAt := 0\<rparr>);
                 ret None } } } }"

definition close_all :: "unit M" where
  "close_all = do {
     p \<leftarrow> gets pub_set;
     _ \<leftarrow> publisher_close p;
     h \<leftarrow> gets ch_set;
     _ \<leftarrow> (if h then amqp_do (CloseChannel ConsumerChannel) else ret None);
     n \<leftarrow> gets conn_set;
     _ \<leftarrow> (if n then amqp_do CloseConnection else ret None);
     ret () }"

definition Close :: "BuildConsumer \<Rightarrow> unit M" where
  "Close c = do {
     _ \<leftarrow> (case c_ledger c of None \<Rightarrow> ret None | Some led \<Rightarrow> CloseLedger led);
     close_all }"

definition disconnect :: "unit M" where
  "disconnect = do {
     modify (\<lambda>w. w\<lparr>connectedAt := 0\<rparr>);
     d \<leftarrow> gets disconnectedAt;
     _ \<leftarrow> (if d = 0 then do { t \<leftarrow> time_now; modify (\<lambda>w. w\<lparr>disconnectedAt := int64 t\<rparr>) }
           else ret ());
     close_all;
     modify (\<lambda>w. w\<lparr>pub_set := False, ch_set := False, conn_set := False\<rparr>) }"

section \<open>Health\<close>

definition Unhealthy :: "bool M" where
  "Unhealthy = do {
     started \<leftarrow> gets disconnectedAt;
     if started = 0 then ret False
     else do { now \<leftarrow> time_now; ret (2 * Minute < now - started) } }"

definition Connected :: "bool M" where
  "Connected = gets (\<lambda>w. connectedAt w \<noteq> 0)"

definition health_handler :: "string \<Rightarrow> (nat \<times> string) M" where
  "health_handler path = do {
     bad \<leftarrow> (if path = ''/health'' then Unhealthy else ret False);
     if bad then ret (503, ''consumer disconnected'') else ret (200, ''ok'') }"

section \<open>The loop\<close>

text \<open>Where \<open>Start\<close> is: at the head of its loop, in the inner loop, in \<open>waitBackoff\<close>, or returned.\<close>

datatype phase = Connecting | Consuming | Waiting duration | Stopped

record loop_state =
  l_phase :: phase
  l_attempt :: int
  l_cancelled :: bool
  l_working :: bool
  l_world :: world

definition begin_consuming :: "BuildConsumer \<Rightarrow> string option M" where
  "begin_consuming c = do {
     e \<leftarrow> amqp_do (Consume (ApplicationBuildQueue (c_cfg c)));
     case e of
       Some t \<Rightarrow> ret (Some t)
     | None \<Rightarrow> do { t \<leftarrow> time_now; modify (\<lambda>w. w\<lparr>connectedAt := int64 t\<rparr>); ret None } }"

text \<open>
  One pass from the head of the loop: connect, then consume. The result is the next control point
  and the counter it is reached with; a failed connect waits without a disconnect, a failed
  consume disconnects first.
\<close>

definition attempt_connection :: "BuildConsumer \<Rightarrow> int \<Rightarrow> (phase \<times> int) M" where
  "attempt_connection c n = do {
     e \<leftarrow> connect c;
     case e of
       Some _ \<Rightarrow> ret (Waiting (consumerBackoff n), n)
     | None \<Rightarrow> do {
         f \<leftarrow> begin_consuming c;
         case f of
           None \<Rightarrow> ret (Consuming, 0)
         | Some _ \<Rightarrow> do { disconnect; ret (Waiting (consumerBackoff n), n) } } }"

text \<open>
  The steps. \<open>l_cancelled\<close> tells whether the context has been cancelled, which may happen at any time;
  the loop looks at it at its head and in both of its selects, the worker in its select and once more
  when it has received a job, which is then dropped. A select with several ready cases takes any of
  them, so a cancelled loop may still accept a delivery. \<open>l_working\<close> tells whether the worker, of
  which there is one, still runs. A step carries what it does to a delivery or a job.
\<close>

datatype action = Accept Delivery | Build buildJob | Internal

inductive start_step :: "BuildConsumer \<Rightarrow> action \<Rightarrow> loop_state \<Rightarrow> loop_state \<Rightarrow> bool" for c where
  cancel:
    "start_step c Internal s (s\<lparr>l_cancelled := True\<rparr>)"
| cancelled_at_head:
    "l_phase s = Connecting \<Longrightarrow> l_cancelled s \<Longrightarrow> start_step c Internal s (s\<lparr>l_phase := Stopped\<rparr>)"
| connecting:
    "l_phase s = Connecting \<Longrightarrow> \<not> l_cancelled s \<Longrightarrow>
     run_state (attempt_connection c (l_attempt s)) (l_world s) = ((ph, n), w) \<Longrightarrow>
     start_step c Internal s (s\<lparr>l_phase := ph, l_attempt := n, l_world := w\<rparr>)"
| waited:
    "l_phase s = Waiting d \<Longrightarrow>
     start_step c Internal s (s\<lparr>l_phase := Connecting, l_attempt := int64 (l_attempt s + 1)\<rparr>)"
| cancelled_waiting:
    "l_phase s = Waiting d \<Longrightarrow> l_cancelled s \<Longrightarrow> start_step c Internal s (s\<lparr>l_phase := Stopped\<rparr>)"
| cancelled_consuming:
    "l_phase s = Consuming \<Longrightarrow> l_cancelled s \<Longrightarrow>
     start_step c Internal s (s\<lparr>l_phase := Stopped, l_world := after disconnect (l_world s)\<rparr>)"
| connection_lost:
    "l_phase s = Consuming \<Longrightarrow>
     start_step c Internal s (s\<lparr>l_phase := Waiting (consumerBackoff (l_attempt s)),
       l_world := after disconnect (l_world s)\<rparr>)"
| delivery:
    "l_phase s = Consuming \<Longrightarrow>
     start_step c (Accept msg) s (s\<lparr>l_world := after (acceptDelivery c msg) (l_world s)\<rparr>)"
| worker:
    "l_working s \<Longrightarrow> \<not> l_cancelled s \<Longrightarrow> jobs (l_world s) = job # rest \<Longrightarrow>
     start_step c (Build job) s (s\<lparr>l_world := after (worker_turn c) (l_world s)\<rparr>)"
| worker_stops:
    "l_working s \<Longrightarrow> l_cancelled s \<Longrightarrow> start_step c Internal s (s\<lparr>l_working := False\<rparr>)"
| worker_drops:
    "l_working s \<Longrightarrow> l_cancelled s \<Longrightarrow>
     start_step c Internal s (s\<lparr>l_working := False, l_world := (l_world s)\<lparr>jobs := tl (jobs (l_world s))\<rparr>\<rparr>)"
| unparked:
    "start_step c Internal s (s\<lparr>l_world := after (unpark i) (l_world s)\<rparr>)"

text \<open>Where \<open>Start\<close> begins: nothing is connected yet and nothing is queued.\<close>

definition fresh_world :: "world \<Rightarrow> bool" where
  "fresh_world w \<longleftrightarrow> \<not> pub_set w \<and> \<not> ch_set w \<and> \<not> conn_set w \<and> connectedAt w = 0
     \<and> disconnectedAt w = 0 \<and> jobs w = [] \<and> parked w = []"

definition start_state :: "world \<Rightarrow> loop_state" where
  "start_state w = \<lparr>l_phase = Connecting, l_attempt = 0, l_cancelled = False, l_working = True, l_world = w\<rparr>"

inductive reachable :: "BuildConsumer \<Rightarrow> loop_state \<Rightarrow> bool" for c where
  start: "fresh_world w \<Longrightarrow> reachable c (start_state w)"
| step: "reachable c s \<Longrightarrow> start_step c a s s' \<Longrightarrow> reachable c s'"

text \<open>The steps by what they carry.\<close>

inductive_cases acceptE: "start_step c (Accept msg) s s'"
inductive_cases buildE: "start_step c (Build job) s s'"

end
