(* ===== verification/Frame.thy ===== *)
theory Frame
  imports Connection
begin

text \<open>
  What the operations leave alone. \<open>framed P m\<close> says that \<open>m\<close> only appends calls with property \<open>P\<close>
  to the history and touches neither the environment nor the fields of the consumer; the ledger
  tables may change. It holds of every operation below the delivery handlers, with the property
  narrowed to the calls the operation can make.
\<close>

definition same_consumer :: "world \<Rightarrow> world \<Rightarrow> bool" where
  "same_consumer w w' \<longleftrightarrow>
     env w' = env w \<and> pub_set w' = pub_set w \<and> ch_set w' = ch_set w \<and> conn_set w' = conn_set w
     \<and> connectedAt w' = connectedAt w \<and> disconnectedAt w' = disconnectedAt w
     \<and> jobs w' = jobs w \<and> parked w' = parked w"

definition extends :: "(call \<Rightarrow> bool) \<Rightarrow> world \<Rightarrow> world \<Rightarrow> bool" where
  "extends P w w' \<longleftrightarrow> (\<exists>es. hist w' = hist w @ es \<and> list_all P es)"

definition frame :: "(call \<Rightarrow> bool) \<Rightarrow> world \<Rightarrow> world \<Rightarrow> bool" where
  "frame P w w' \<longleftrightarrow> same_consumer w w' \<and> extends P w w'"

lemma extends_refl: "extends P w w"
  by (simp add: extends_def)

lemma extends_trans: "extends P u v \<Longrightarrow> extends P v w \<Longrightarrow> extends P u w"
  by (fastforce simp: extends_def)

lemma frame_reflp: "reflp (frame P)"
  by (simp add: reflp_def frame_def same_consumer_def extends_refl)

lemma frame_transp: "transp (frame P)"
  unfolding transp_def frame_def by (auto simp: same_consumer_def intro: extends_trans)

abbreviation framed :: "(call \<Rightarrow> bool) \<Rightarrow> 'a M \<Rightarrow> bool" where
  "framed P \<equiv> abides (frame P)"

lemmas framed_ret [framed_intros] = abides_ret [OF frame_reflp]
lemmas framed_gets [framed_intros] = abides_gets [OF frame_reflp]
lemmas framed_bind [framed_intros] = abides_bind [OF frame_transp]
lemmas framed_cases [framed_intros] = abides_cases [where R = "frame P" for P]

lemma framed_ask [framed_intros]: "framed P (ask f)"
  by (simp add: ask_def framed_gets)

lemma framed_emit: "P e \<Longrightarrow> framed P (emit e)"
  by (simp add: abides_def emit_def frame_def same_consumer_def extends_def)

lemma framed_modify_rows [framed_intros]: "framed P (modify (\<lambda>w. w\<lparr>rows := f w\<rparr>))"
  by (simp add: abides_def frame_def same_consumer_def extends_def)

lemma framed_modify_memory [framed_intros]: "framed P (modify (\<lambda>w. w\<lparr>memory := f w\<rparr>))"
  by (simp add: abides_def frame_def same_consumer_def extends_def)

lemma framed_weaken:
  assumes "framed P m" and "\<And>e. P e \<Longrightarrow> Q e"
  shows "framed Q m"
  using assms unfolding abides_def frame_def extends_def by (meson list.pred_mono_strong)

lemma framedD:
  assumes "framed P m"
  shows "hist (after m w) = hist w @ calls m w" "list_all P (calls m w)" "same_consumer w (after m w)"
  using abidesD [OF assms, of w] by (auto simp: frame_def extends_def calls_def)

section \<open>Kinds of calls\<close>

definition is_publish :: "call \<Rightarrow> bool" where
  "is_publish e \<longleftrightarrow> (\<exists>ex k m p a. e = Publish ex k m p a)"

definition is_sql :: "call \<Rightarrow> bool" where
  "is_sql e \<longleftrightarrow> (\<exists>s. e = Sql s)"

definition settling :: "call \<Rightarrow> bool" where
  "settling e \<longleftrightarrow> (\<exists>t b. e = Ack t b) \<or> (\<exists>t b. e = Nack t b)"

definition ledger_call :: "call \<Rightarrow> bool" where
  "ledger_call e \<longleftrightarrow> e = ReadClock \<or> is_sql e"

definition publish_call :: "call \<Rightarrow> bool" where
  "publish_call e \<longleftrightarrow> e = ReadClock \<or> is_publish e"

definition build_call :: "call \<Rightarrow> bool" where
  "build_call e \<longleftrightarrow> (\<exists>p. e = Exec p) \<or> (\<exists>f. e = Fs f) \<or> (\<exists>s. e = Stat s)"

definition clone_call :: "call \<Rightarrow> bool" where
  "clone_call e \<longleftrightarrow> build_call e \<or> e = ReadClock \<or> (\<exists>s. e = Sign s) \<or> (\<exists>q. e = Http q)
     \<or> (\<exists>s. e = MkdirTemp s)"

definition renewal_call :: "call \<Rightarrow> bool" where
  "renewal_call e \<longleftrightarrow> ledger_call e \<or> (\<exists>s. e = RenewalTicks s)"

definition handler_call :: "call \<Rightarrow> bool" where
  "handler_call e \<longleftrightarrow> \<not> settling e \<and> (\<forall>a b. e \<noteq> Amqp a b)"

lemmas call_kinds = is_publish_def is_sql_def settling_def ledger_call_def publish_call_def
  build_call_def clone_call_def renewal_call_def handler_call_def

lemma publish_kinds [simp]:
  "publish_call (Publish ex k m p a)" "handler_call (Publish ex k m p a)" "is_publish (Publish ex k m p a)"
  unfolding call_kinds by auto

section \<open>The operations\<close>

lemma framed_time_now: "P ReadClock \<Longrightarrow> framed P time_now"
  unfolding time_now_def by (intro framed_intros framed_emit)

lemma framed_publish: "(\<And>a. P (Publish ex k m msg a)) \<Longrightarrow> framed P (publish p ex k m msg)"
  unfolding publish_def by (intro framed_intros framed_emit)

lemma framed_publishJSON [framed_intros]: "framed publish_call (publishJSON p ex k payload m)"
  unfolding publishJSON_def
  by (intro framed_intros framed_publish framed_time_now) (simp_all add: call_kinds)

lemma framed_publishJSONEvent [framed_intros]: "framed publish_call (publishJSONEvent ex k payload)"
  unfolding publishJSONEvent_def PublishJSON_def by (intro framed_intros)

lemma framed_sql_do [framed_intros]: "framed ledger_call (sql_do s)"
proof -
  have "framed ledger_call (case fault of Some (NotApplied t) \<Rightarrow> m | Some (AppliedUnseen t) \<Rightarrow> f t | None \<Rightarrow> n)"
    if "framed ledger_call m" "\<And>t. framed ledger_call (f t)" "framed ledger_call n"
    for fault and m :: "'z M" and f n
    using that by (auto split: option.splits sql_fault.splits)
  then show ?thesis
    unfolding sql_do_def
    by (auto intro!: framed_intros framed_emit simp: call_kinds split: option.splits sql_fault.splits)
qed

lemma framed_ledger_clock [framed_intros]: "framed ledger_call time_now"
  by (rule framed_time_now) (simp add: call_kinds)

lemma framed_pg_claim_tx [framed_intros]: "framed ledger_call (pg_claim_tx ident stage d)"
  unfolding pg_claim_tx_def by (intro framed_intros)

lemma framed_pg_Claim: "framed ledger_call (pg_Claim ident stage d)"
  unfolding pg_Claim_def
  by (auto intro!: framed_intros framed_emit simp: call_kinds split: option.splits sql_fault.splits)

lemma framed_postgres:
  "framed ledger_call (pg_Claim ident stage d)" "framed ledger_call (pg_Renew ident stage d)"
  "framed ledger_call (pg_Complete ident stage b)" "framed ledger_call (pg_Fail ident stage b)"
  "framed ledger_call (pg_Release ident stage)" "framed ledger_call (pg_RecordRetry ident stage r)"
  "framed ledger_call pg_Close"
  unfolding pg_Renew_def pg_Complete_def pg_Fail_def pg_set_def pg_Release_def pg_RecordRetry_def pg_Close_def
  by (intro framed_intros framed_pg_Claim)+

lemma framed_memory:
  "framed ledger_call (mem_Claim ident stage d)" "framed ledger_call (mem_Renew ident stage d)"
  "framed ledger_call (mem_Complete ident stage b)" "framed ledger_call (mem_Fail ident stage b)"
  "framed ledger_call (mem_Release ident stage)" "framed ledger_call (mem_RecordRetry ident stage r)"
  unfolding mem_Claim_def mem_Renew_def mem_Complete_def mem_Fail_def mem_set_def mem_Release_def
    mem_RecordRetry_def mem_put_def mem_get_def
  by (intro framed_intros)+

lemma framed_runCommand [framed_intros]: "framed build_call (runCommand spec)"
  unfolding runCommand_def mergeCommandEnv_def exec_do_def
  by (intro framed_intros framed_emit) (simp_all add: call_kinds)

lemma framed_BuildAndPush:
  assumes run: "\<And>spec. framed build_call (cb_run b spec)"
  shows "framed build_call (BuildAndPush b request)"
proof -
  have fs: "framed build_call (fs_do f)" and st: "framed build_call (hasDockerfile d)" for f d
    unfolding fs_do_def hasDockerfile_def stat_do_def
    by (auto intro!: framed_intros framed_emit simp: call_kinds split: stat_result.splits)
  show ?thesis
    unfolding BuildAndPush_def resolveCommitSHA_def registryDockerEnv_def build_or_reuse_def
      imageExists_def buildImage_def pushImage_def
    by (intro framed_intros run fs st)
qed

lemma framed_cloneRepository: "framed clone_call (cloneRepository cfg payload dir)"
proof -
  have clock: "framed clone_call time_now" and sign: "framed clone_call (sign_do k d)"
    and web: "framed clone_call (http_do q)" and fs: "framed clone_call (fs_do f)"
    and ex: "framed clone_call (exec_do p)" and tmp: "framed clone_call (mkdir_temp_do s)"
    for k d q f p s
    unfolding time_now_def sign_do_def http_do_def fs_do_def exec_do_def mkdir_temp_do_def
    by (intro framed_intros framed_emit; simp add: call_kinds)+
  have key: "framed clone_call (parse_key k)" for k
    unfolding parse_key_def by (auto intro!: framed_intros split: option.splits sum.splits)
  show ?thesis
    unfolding cloneRepository_def generateInstallationToken_def parseGitHubPrivateKey_def
      createGitHubAppJWT_def cloneWithAskPass_def runGitClone_def mergeCommandEnv_def
    by (intro framed_intros clock sign web fs ex tmp key)
qed

end
