(* ===== verification/Parts.thy ===== *)
theory Parts
  imports Frame
begin

text \<open>
  The consumer works with parts it is given: a ledger, a way to clone, a builder and a publishing
  function. What it needs of them is the locale \<open>consumer_parts\<close>: each part makes calls of its own
  kind only and leaves the consumer's fields alone. The handlers' frames are proved once from
  that, and the locale is interpreted for the consumer the service wires.
\<close>

section \<open>Histories of composed computations\<close>

definition extending :: "'a M \<Rightarrow> bool" where
  "extending m \<longleftrightarrow> (\<forall>w. prefix (hist w) (hist (after m w)))"

lemma framed_extending: "framed P m \<Longrightarrow> extending m"
  unfolding extending_def by (metis framedD(1) prefixI)

lemma extending_hist: "extending m \<Longrightarrow> hist (after m w) = hist w @ calls m w"
  by (auto simp: extending_def calls_def prefix_def) (metis append_eq_conv_conj)

lemma extending_ret: "extending (ret x)" and extending_gets: "extending (gets f)"
  by (simp_all add: extending_def)

lemma extending_bind: "extending m \<Longrightarrow> (\<And>x. extending (f x)) \<Longrightarrow> extending (State_Monad.bind m f)"
  unfolding extending_def after_bind by (meson prefix_order.order_trans)

lemma calls_bind:
  assumes "extending m" and "extending (f (value_of m w))"
  shows "calls (State_Monad.bind m f) w = calls m w @ calls (f (value_of m w)) (after m w)"
proof -
  let ?w1 = "after m w"
  have "hist (after (State_Monad.bind m f) w) = hist w @ calls m w @ calls (f (value_of m w)) ?w1"
    using extending_hist [OF assms(1), of w] extending_hist [OF assms(2), of ?w1]
    by (simp add: after_bind)
  then show ?thesis unfolding calls_def [of "State_Monad.bind m f"] by simp
qed

lemma calls_ret [simp]: "calls (ret x) w = []" and calls_gets [simp]: "calls (gets f) w = []"
  by (simp_all add: calls_def)

lemma calls_ask [simp]: "calls (ask f) w = []"
  by (simp add: ask_def)

lemma calls_emit [simp]: "calls (emit e) w = [e]"
  by (simp add: calls_def after_def)

section \<open>The parts\<close>

locale consumer_parts =
  fixes c :: BuildConsumer
  assumes ledger_framed:
      "c_ledger c = Some led \<Longrightarrow>
        framed ledger_call (Claim led i s d) \<and> framed ledger_call (Renew led i s d)
        \<and> framed ledger_call (Complete led i s b) \<and> framed ledger_call (Fail led i s b)
        \<and> framed ledger_call (Release led i s) \<and> framed ledger_call (RecordRetry led i s r)"
    and publish_framed: "c_publishFn c = Some f \<Longrightarrow> framed publish_call (f ex k x)"
    and clone_framed: "framed clone_call (clone_fn_of c payload dir)"
    and executor_framed: "framed build_call (executor_of c q)"
begin

lemma handler_kinds:
  "ledger_call e \<Longrightarrow> handler_call e" "publish_call e \<Longrightarrow> handler_call e" "clone_call e \<Longrightarrow> handler_call e"
  "build_call e \<Longrightarrow> handler_call e"
  by (auto simp: call_kinds)

lemma publishEvent_framed: "framed publish_call (publishEvent c ex k x)"
  unfolding publishEvent_def by (intro framed_intros publish_framed; assumption)

lemma publishProgressEvent_framed: "framed publish_call (publishProgressEvent c ex k x)"
  unfolding publishProgressEvent_def PublishProgressJSON_def
  by (intro framed_intros publish_framed; assumption)

lemmas publishing = publishEvent_framed publishProgressEvent_framed

lemmas publishing_handler = publishing [THEN framed_weaken, OF handler_kinds(2)]

lemma handler_clock: "framed handler_call time_now"
  by (rule framed_time_now) (simp add: call_kinds)

lemma handler_emit:
  "framed handler_call (emit (RenewalTicks s))" "framed handler_call (emit (ChannelPublish a b m k))"
  "framed handler_call (fs_do f)" "framed handler_call (mkdir_temp_do s)"
  unfolding fs_do_def mkdir_temp_do_def
  by (intro framed_intros framed_emit; simp add: call_kinds)+

lemma ledger_handler:
  assumes "c_ledger c = Some led"
  shows "framed handler_call (Claim led i s d)" "framed handler_call (Renew led i s d)"
    "framed handler_call (Complete led i s b)" "framed handler_call (Fail led i s b)"
    "framed handler_call (Release led i s)" "framed handler_call (RecordRetry led i s r)"
  by (rule framed_weaken [where P = ledger_call], use ledger_framed [OF assms] in blast, erule handler_kinds)+

lemma announceFailure_framed: "framed publish_call (announceFailure c x y e)"
  unfolding announceFailure_def by (intro framed_intros publishing)

lemma completeFailure_framed: "framed handler_call (completeFailure c event res e)"
  unfolding completeFailure_def
  by (auto intro!: framed_intros handler_clock ledger_handler
      framed_weaken [OF announceFailure_framed handler_kinds(2)] split: option.splits sum.splits)

lemma publishBundle_framed: "framed publish_call (publishBundle c b)"
  unfolding publishBundle_def by (intro framed_intros publishing)

lemma publishStored_framed: "framed publish_call (publishStored c raw)"
  unfolding publishStored_def by (intro framed_intros publishBundle_framed)

lemma lease_ticks_framed: "framed handler_call (lease_ticks c i)"
proof -
  have "framed handler_call (renew_times led i d n)" if "c_ledger c = Some led" for led d n
    by (induction n) (auto intro!: framed_intros ledger_handler [OF that])
  then show ?thesis
    unfolding lease_ticks_def by (auto intro!: framed_intros handler_emit split: option.splits)
qed

lemma announceSuccess_framed: "framed handler_call (announceSuccess c event res x)"
  unfolding announceSuccess_def
  by (intro framed_intros publishing_handler lease_ticks_framed handler_clock)

lemma completeSuccess_framed: "framed handler_call (completeSuccess c event res)"
  unfolding completeSuccess_def
  by (auto intro!: framed_intros handler_clock ledger_handler announceSuccess_framed lease_ticks_framed
      split: option.splits sum.splits)

lemma build_in_framed: "framed handler_call (build_in c event dir)"
  unfolding build_in_def
  by (intro framed_intros framed_weaken [OF clone_framed handler_kinds(3)]
      framed_weaken [OF executor_framed handler_kinds(4)] completeFailure_framed
      completeSuccess_framed lease_ticks_framed)

lemma handleClaimed_framed: "framed handler_call (handleClaimedBuildEvent c event)"
  unfolding handleClaimedBuildEvent_def
  by (intro framed_intros handler_clock publishing_handler handler_emit completeFailure_framed
      build_in_framed)

lemma copyToDLQ_framed: "framed publish_call (copyToDLQWithAttempt c msg cause n)"
  unfolding copyToDLQWithAttempt_def PublishRaw_def
  by (intro framed_intros framed_publish) simp

lemma send_retry_framed: "framed handler_call (send_retry q m b)"
  unfolding send_retry_def PublishRaw_def
  by (intro framed_intros framed_publish handler_emit; simp add: call_kinds)

lemma retry_attempt_framed: "framed handler_call (retry_attempt c msg cause)"
  unfolding retry_attempt_def by (intro framed_intros ledger_handler; assumption)

lemma releaseClaim_framed: "framed handler_call (releaseClaim c body)"
  unfolding releaseClaim_def by (intro framed_intros ledger_handler; assumption)

lemma emitRetrying_framed: "framed handler_call (emitRetrying c body n cause)"
  unfolding emitRetrying_def by (intro framed_intros handler_clock publishing_handler)

lemma emitExhausted_framed: "framed handler_call (emitExhausted c body cause)"
  unfolding emitExhausted_def by (intro framed_intros completeFailure_framed)

lemma scheduleRetry_framed: "framed handler_call (scheduleRetry c msg cause count)"
  unfolding scheduleRetry_def delay_retry_def
  by (intro framed_intros send_retry_framed framed_weaken [OF copyToDLQ_framed handler_kinds(2)]
      retry_attempt_framed releaseClaim_framed emitRetrying_framed emitExhausted_framed)

lemma handleMessage_framed: "framed handler_call (handleMessage c body)"
  unfolding handleMessage_def handleBuildEvent_def
  by (auto intro!: framed_intros ledger_handler handleClaimed_framed
      framed_weaken [OF publishStored_framed handler_kinds(2)]
      split: option.splits sum.splits ClaimDisposition.splits)

end

lemma framed_NewCommandBuilder: "framed build_call (BuildAndPush (NewCommandBuilder cfg) q)"
  by (rule framed_BuildAndPush) (simp add: NewCommandBuilder_def framed_runCommand)

lemma wired_fields [simp]:
  "c_cfg (wired cfg) = cfg" "c_ledger (wired cfg) = Some PostgresStageLedger"
  "c_publishFn (wired cfg) = Some publishJSONEvent"
  "clone_fn_of (wired cfg) = cloneRepository cfg"
  "executor_of (wired cfg) = BuildAndPush (NewCommandBuilder cfg)"
  by (simp_all add: wired_def clone_fn_of_def executor_of_def)

interpretation wired: consumer_parts "wired cfg" for cfg
  by unfold_locales
    (auto simp: PostgresStageLedger_def framed_postgres framed_publishJSONEvent
      framed_cloneRepository framed_NewCommandBuilder)

end
