(* ===== verification/Samples.thy ===== *)
theory Samples
  imports World
begin

text \<open>
  A concrete environment in which every call succeeds, and worlds in it. They are the inputs at
  which the properties are instantiated, to show that their hypotheses can hold.
\<close>

definition calm :: environment where
  "calm = \<lparr>
     clock = (\<lambda>h. int (length h)),
     broker = (\<lambda>h ex k m msg. Confirmed None),
     channel_send = (\<lambda>h ex k msg. None),
     acknowledge = (\<lambda>h t. None),
     amqp = (\<lambda>h c. None),
     sql_fault = (\<lambda>h s. None),
     sql_error = (\<lambda>s. ''refused''),
     sql_open = (\<lambda>s. None),
     timestamptz = (\<lambda>t. t),
     jsonb = Some,
     mkdir_temp = (\<lambda>h p. Inr ''/tmp/work''),
     fs_error = (\<lambda>h c. None),
     stat = (\<lambda>h p. IsFile),
     run_process = (\<lambda>h p. (''0123456789abcdef'', None)),
     environ = [''PATH=/bin''],
     http = (\<lambda>h q. Inr (201, ''{}'')),
     pem_decode = Some,
     parse_pkcs1 = Some,
     parse_pkcs8 = (\<lambda>s. Inr (Some s)),
     rsa_sign = (\<lambda>h k d. Inr ''signature''),
     renewal_ticks = (\<lambda>h. 1),
     float_text = Some,
     json_error = (\<lambda>s. ''invalid JSON'') \<rparr>"

definition calm_world :: world where
  "calm_world = \<lparr> env = calm, hist = [], rows = Map.empty, memory = Map.empty, pub_set = True,
     ch_set = True, conn_set = True, connectedAt = 1, disconnectedAt = 0, jobs = [], parked = [] \<rparr>"

lemma calm_simps [simp]:
  "clock calm h = int (length h)" "broker calm h ex k m msg = Confirmed None"
  "channel_send calm h ex k msg = None" "acknowledge calm h t = None" "amqp calm h c = None"
  "sql_fault calm h s = None" "sql_error calm s = ''refused''" "sql_open calm u = None"
  "timestamptz calm i = i" "jsonb calm u = Some u" "mkdir_temp calm h u = Inr ''/tmp/work''"
  "fs_error calm h f = None" "stat calm h u = IsFile" "environ calm = [''PATH=/bin'']"
  "run_process calm h p = (''0123456789abcdef'', None)" "renewal_ticks calm h = 1"
  "json_error calm u = ''invalid JSON''"
  by (simp_all add: calm_def)

lemma calm_world_simps [simp]:
  "env calm_world = calm" "hist calm_world = []" "rows calm_world = Map.empty"
  "memory calm_world = Map.empty" "pub_set calm_world" "ch_set calm_world" "conn_set calm_world"
  "connectedAt calm_world = 1" "disconnectedAt calm_world = 0" "jobs calm_world = []"
  "parked calm_world = []"
  by (simp_all add: calm_world_def)

end
