(* ===== verification/Settlement.thy ===== *)
theory Settlement
  imports Parts Samples
begin

text \<open>
  Each delivery is settled exactly once: the computations of the consumer are classified by the
  acknowledgements and rejections they make, from the frames of its parts.
\<close>

section \<open>One settlement per delivery\<close>

definition settled :: "call list set \<Rightarrow> world \<Rightarrow> world \<Rightarrow> bool" where
  "settled X w w' \<longleftrightarrow> (\<exists>es. hist w' = hist w @ es \<and> filter settling es \<in> X)"

definition settlements_of :: "nat \<Rightarrow> call list set" where
  "settlements_of t = {[Ack t True], [Ack t False], [Nack t True], [Nack t False]}"

lemma settled_bind_after:
  assumes "abides (settled {[]}) m" and "\<And>x. abides (settled X) (f x)"
  shows "abides (settled X) (State_Monad.bind m f)"
  unfolding abides_def after_bind
proof
  fix w
  obtain es1 where "hist (after m w) = hist w @ es1" "filter settling es1 = []"
    using abidesD [OF assms(1), of w] by (auto simp: settled_def)
  moreover obtain es2 where "hist (after (f (value_of m w)) (after m w)) = hist (after m w) @ es2"
    "filter settling es2 \<in> X"
    using abidesD [OF assms(2), of "after m w"] by (auto simp: settled_def)
  ultimately show "settled X w (after (f (value_of m w)) (after m w))"
    unfolding settled_def by (intro exI [of _ "es1 @ es2"]) simp
qed

lemma settled_bind_before:
  assumes "abides (settled X) m" and "\<And>x. abides (settled {[]}) (f x)"
  shows "abides (settled X) (State_Monad.bind m f)"
  unfolding abides_def after_bind
proof
  fix w
  obtain es1 where "hist (after m w) = hist w @ es1" "filter settling es1 \<in> X"
    using abidesD [OF assms(1), of w] by (auto simp: settled_def)
  moreover obtain es2 where "hist (after (f (value_of m w)) (after m w)) = hist (after m w) @ es2"
    "filter settling es2 = []"
    using abidesD [OF assms(2), of "after m w"] by (auto simp: settled_def)
  ultimately show "settled X w (after (f (value_of m w)) (after m w))"
    unfolding settled_def by (intro exI [of _ "es1 @ es2"]) simp
qed

lemma settled_framed: "framed handler_call m \<Longrightarrow> abides (settled {[]}) m"
proof -
  have "list_all handler_call es \<Longrightarrow> filter settling es = []" for es
    by (induction es) (auto simp: handler_call_def)
  then show "framed handler_call m \<Longrightarrow> abides (settled {[]}) m"
    unfolding abides_def settled_def frame_def extends_def by blast
qed

lemma settled_silent: "(\<And>w. hist (after m w) = hist w) \<Longrightarrow> abides (settled {[]}) m"
  unfolding abides_def settled_def by (metis append.right_neutral filter.simps(1) singletonI)

lemma settled_ret: "abides (settled {[]}) (ret x)" and settled_gets: "abides (settled {[]}) (gets f)"
  by (simp_all add: settled_silent)

lemma settled_enqueue: "abides (settled {[]}) (enqueue job)"
  by (rule settled_silent) (simp add: enqueue_def)

lemma settled_ack: "d_tag msg = Some t \<Longrightarrow> abides (settled (settlements_of t)) (ack msg)"
  by (auto simp: abides_def after_def run_ack settled_def settlements_of_def settling_def)

lemma settled_nack: "d_tag msg = Some t \<Longrightarrow> abides (settled (settlements_of t)) (nack msg r)"
  by (cases r) (auto simp: abides_def after_def run_nack settled_def settlements_of_def settling_def)

context consumer_parts begin

lemma settle_settled:
  assumes "d_tag msg = Some t"
  shows "abides (settled (settlements_of t)) (settle c msg action err)"
proof -
  note done_ack = settled_bind_before [OF settled_ack [OF assms] settled_ret]
    and done_nack = settled_bind_before [OF settled_nack [OF assms] settled_ret]
  have copied: "abides (settled {[]}) (if open_ch then
             (if a_requeue action then
                (case err of
                   Some cause \<Rightarrow> scheduleRetry c msg cause (\<not> errors_is cause ErrLeaseBusy)
                 | None \<Rightarrow> ret (Some no_publisher))
              else copyToDLQ c msg err)
           else ret (Some no_publisher))" for open_ch
    unfolding copyToDLQ_def
    by (intro abides_cases settled_ret settled_framed scheduleRetry_framed
        framed_weaken [OF copyToDLQ_framed handler_kinds(2)])
  show ?thesis
    unfolding settle_def
    by (intro abides_if done_ack settled_bind_after [OF settled_gets] settled_bind_after [OF copied]
        abides_option done_nack)
qed

lemma processDelivery_settled:
  assumes "d_tag msg = Some t"
  shows "abides (settled (settlements_of t)) (processDelivery c msg)"
  unfolding processDelivery_def
  by (intro settled_bind_after [OF settled_framed [OF handleMessage_framed]] abides_prod
      settle_settled [OF assms])

lemma acceptDelivery_settled:
  assumes "d_tag msg = Some t"
  shows "abides (settled (settlements_of t)) (acceptDelivery c msg)"
proof -
  note done_ack = settled_bind_before [OF settled_ack [OF assms] settled_ret]
    and done_nack = settled_bind_before [OF settled_nack [OF assms] settled_ret]
  have early: "abides (settled (settlements_of t)) (early_ack c msg event)" for event
    unfolding early_ack_def
    by (intro settled_bind_before [OF settled_ack [OF assms]] abides_option settled_ret settled_enqueue)
  have again: "abides (settled (settlements_of t)) (replay c msg raw)" for raw
    unfolding replay_def
    by (intro settled_bind_after [OF settled_framed [OF framed_weaken [OF publishStored_framed handler_kinds(2)]]]
        abides_prod abides_option abides_if done_ack done_nack)
  have disp: "abides (settled (settlements_of t)) (case d of ClaimAcquired \<Rightarrow> a | ClaimCompleted \<Rightarrow> b
      | ClaimBusy \<Rightarrow> x | ClaimFailed \<Rightarrow> y)"
    if "abides (settled (settlements_of t)) a" "abides (settled (settlements_of t)) b"
      "abides (settled (settlements_of t)) x" "abides (settled (settlements_of t)) y"
    for d and a b x y :: "unit M"
    using that by (cases d) simp_all
  show ?thesis
    unfolding acceptDelivery_def
    by (intro abides_option abides_if processDelivery_settled [OF assms] early
        settled_bind_after [OF settled_framed [OF ledger_handler(1)]] abides_sum abides_prod disp
        done_nack again)
qed

end

text \<open>
  C6: Every delivery is settled exactly once. Whatever arrives, and however the database, the
  broker or a build behaves, accepting a delivery acknowledges or rejects that delivery one time,
  and no other delivery.
\<close>

theorem accept_settles_once:
  assumes "d_tag msg = Some t"
  shows "filter settling (calls (acceptDelivery (wired cfg) msg) w)
    \<in> {[Ack t True], [Ack t False], [Nack t True], [Nack t False]}"
  using abidesD [OF wired.acceptDelivery_settled [OF assms, of cfg], of w]
  by (auto simp: settled_def calls_def settlements_of_def)

definition sample_delivery :: "string \<Rightarrow> Delivery" where
  "sample_delivery body = \<lparr> d_Body = body, d_Headers = Map.empty, d_ContentType = ''application/json'',
     d_tag = Some 7 \<rparr>"

theorem accept_settles_once_witness:
  "filter settling (calls (acceptDelivery (wired (loadConfig (\<lambda>_. []))) (sample_delivery ''{'')) calm_world)
    \<in> {[Ack 7 True], [Ack 7 False], [Nack 7 True], [Nack 7 False]}"
  by (rule accept_settles_once) (simp add: sample_delivery_def)

end
