(* ===== verification/LedgerSpec.thy ===== *)
theory LedgerSpec
  imports Frame
begin

text \<open>
  What a stage ledger promises, and why both ledgers of \<open>ledger.go\<close> keep the promise. The contract
  is the locale \<open>stage_ledger\<close>: an abstract entry per deployment, a specification of every
  operation on it, and the law that an operation that reports success did what the specification
  says, while one that reports an error did that or nothing. It is interpreted for the ledger in
  PostgreSQL, whatever faults the connection has, and for the one in memory. The lemmas of the
  locale are what the consumer relies on: a recorded result is final for claims, a lease excludes
  other claims while it lasts, and the retry counter never goes back.
\<close>

section \<open>The abstract ledger\<close>

datatype status =
    Running "gotime option"
  | Done "string option"
  | Broken "string option"

record entry =
  e_status :: status
  e_attempt :: int
  e_retries :: int

definition terminal :: "status \<Rightarrow> bool" where
  "terminal st \<longleftrightarrow> (case st of Running _ \<Rightarrow> False | _ \<Rightarrow> True)"

definition entry_of :: "string \<Rightarrow> gotime option \<Rightarrow> string option \<Rightarrow> int \<Rightarrow> int \<Rightarrow> entry" where
  "entry_of st lease res attempt retries = \<lparr>
     e_status = (if st = StateCompleted then Done res else if st = StateFailed then Broken res
                 else Running lease),
     e_attempt = attempt, e_retries = retries \<rparr>"

fun claim_status :: "gotime \<Rightarrow> status \<Rightarrow> ClaimDisposition" where
  "claim_status now (Done res) = ClaimCompleted"
| "claim_status now (Broken res) = ClaimFailed"
| "claim_status now (Running lease) = (if lease_live lease now then ClaimBusy else ClaimAcquired)"

definition claim_spec :: "gotime \<Rightarrow> gotime \<Rightarrow> entry option \<Rightarrow> ClaimDisposition \<times> entry" where
  "claim_spec now until found =
     (case found of
        None \<Rightarrow> (ClaimAcquired, \<lparr> e_status = Running (Some until), e_attempt = 1, e_retries = 0 \<rparr>)
      | Some e \<Rightarrow>
          (case claim_status now (e_status e) of
             ClaimAcquired \<Rightarrow>
               (ClaimAcquired, e\<lparr>e_status := Running (Some until), e_attempt := e_attempt e + 1\<rparr>)
           | disposition \<Rightarrow> (disposition, e)))"

definition renew_spec :: "gotime \<Rightarrow> entry \<Rightarrow> entry" where
  "renew_spec until e =
     (case e_status e of Running _ \<Rightarrow> e\<lparr>e_status := Running (Some until)\<rparr> | _ \<Rightarrow> e)"

definition result_text :: "status \<Rightarrow> string option" where
  "result_text st = (case st of Done r \<Rightarrow> r | Broken r \<Rightarrow> r | Running _ \<Rightarrow> None)"

text \<open>The operations of a ledger as data, each for one deployment.\<close>

datatype ledger_op =
    OpClaim string duration
  | OpRenew string duration
  | OpComplete string buildResultEvents
  | OpFail string buildResultEvents
  | OpRelease string
  | OpRetry string string

fun op_id :: "ledger_op \<Rightarrow> string" where
  "op_id (OpClaim i d) = i"
| "op_id (OpRenew i d) = i"
| "op_id (OpComplete i b) = i"
| "op_id (OpFail i b) = i"
| "op_id (OpRelease i) = i"
| "op_id (OpRetry i r) = i"

fun run_op :: "StageLedger \<Rightarrow> ledger_op \<Rightarrow> unit M" where
  "run_op led (OpClaim i d) = do { _ \<leftarrow> Claim led i build_stage d; ret () }"
| "run_op led (OpRenew i d) = do { _ \<leftarrow> Renew led i build_stage d; ret () }"
| "run_op led (OpComplete i b) = do { _ \<leftarrow> Complete led i build_stage b; ret () }"
| "run_op led (OpFail i b) = do { _ \<leftarrow> Fail led i build_stage b; ret () }"
| "run_op led (OpRelease i) = do { _ \<leftarrow> Release led i build_stage; ret () }"
| "run_op led (OpRetry i r) = do { _ \<leftarrow> RecordRetry led i build_stage r; ret () }"

declare run_op.simps [simp del]

text \<open>A property of every operation of a sequence, in the world it starts in.\<close>

fun all_ops :: "StageLedger \<Rightarrow> (world \<Rightarrow> ledger_op \<Rightarrow> bool) \<Rightarrow> ledger_op list \<Rightarrow> world \<Rightarrow> bool" where
  "all_ops led Q [] w \<longleftrightarrow> True"
| "all_ops led Q (p # ps) w \<longleftrightarrow> Q w p \<and> all_ops led Q ps (after (run_op led p) w)"

fun run_ops :: "StageLedger \<Rightarrow> ledger_op list \<Rightarrow> world \<Rightarrow> world" where
  "run_ops led [] w = w"
| "run_ops led (p # ps) w = run_ops led ps (after (run_op led p) w)"

text \<open>Operations that leave a recorded result in place.\<close>

definition keeps_result :: "string \<Rightarrow> ledger_op \<Rightarrow> bool" where
  "keeps_result i p \<longleftrightarrow> op_id p \<noteq> i
     \<or> (case p of OpClaim _ _ \<Rightarrow> True | OpRenew _ _ \<Rightarrow> True | OpRetry _ _ \<Rightarrow> True | _ \<Rightarrow> False)"

text \<open>
  Operations that respect a lease on deployment \<open>i\<close> until \<open>until\<close>; the parameter gives the instant a
  claim reads from the clock.
\<close>

definition in_time :: "(world \<Rightarrow> gotime) \<Rightarrow> string \<Rightarrow> gotime \<Rightarrow> world \<Rightarrow> ledger_op \<Rightarrow> bool" where
  "in_time claim_time i until w p \<longleftrightarrow> op_id p \<noteq> i
     \<or> (case p of OpClaim _ _ \<Rightarrow> claim_time w < until | OpRetry _ _ \<Rightarrow> True | _ \<Rightarrow> False)"

text \<open>A claim on \<open>i\<close> that does not get the stage.\<close>

definition refused :: "StageLedger \<Rightarrow> string \<Rightarrow> world \<Rightarrow> ledger_op \<Rightarrow> bool" where
  "refused led i w p \<longleftrightarrow>
     (case p of
        OpClaim j d \<Rightarrow> j \<noteq> i \<or>
          (case value_of (Claim led i build_stage d) w of Inl _ \<Rightarrow> True | Inr (disp, rec) \<Rightarrow> disp = ClaimBusy)
      | _ \<Rightarrow> True)"

section \<open>The contract\<close>

locale stage_ledger =
  fixes led :: StageLedger
    and view :: "world \<Rightarrow> string \<Rightarrow> entry option"
    and wf :: "world \<Rightarrow> bool"
    and render :: "environment \<Rightarrow> string \<Rightarrow> string option"
    and stamp :: "environment \<Rightarrow> gotime \<Rightarrow> gotime"
    and claim_time :: "world \<Rightarrow> gotime"
    and renew_time :: "world \<Rightarrow> gotime"
  assumes wf_op: "wf w \<Longrightarrow> wf (after (run_op led p) w)"
    and others: "j \<noteq> op_id p \<Longrightarrow> view (after (run_op led p) w) j = view w j"
    and claim_ok:
      "value_of (Claim led i build_stage d) w = Inr (disp, rec) \<Longrightarrow>
         sp = claim_spec (claim_time w) (stamp (env w) (claim_time w + d)) (view w i) \<Longrightarrow>
         disp = fst sp \<and> view (after (Claim led i build_stage d) w) i = Some (snd sp)
         \<and> (terminal (e_status (snd sp)) \<longrightarrow> r_ResultJSON rec = result_text (e_status (snd sp)))"
    and claim_any:
      "view (after (Claim led i build_stage d) w) i
         \<in> {view w i, Some (snd (claim_spec (claim_time w) (stamp (env w) (claim_time w + d)) (view w i)))}"
    and renew_any:
      "wf w \<Longrightarrow> view w i = Some e \<Longrightarrow> view (after (Renew led i build_stage d) w) i
         \<in> {view w i, Some (renew_spec (stamp (env w) (renew_time w + d)) e)}"
    and renew_ok:
      "wf w \<Longrightarrow> view w i = Some e \<Longrightarrow> value_of (Renew led i build_stage d) w = None \<Longrightarrow>
         view (after (Renew led i build_stage d) w) i
           = Some (renew_spec (stamp (env w) (renew_time w + d)) e)"
    and complete_ok:
      "view w i = Some e \<Longrightarrow> value_of (Complete led i build_stage b) w = None \<Longrightarrow>
         \<exists>doc. render (env w) (print_json (bundle_json b)) = Some doc
           \<and> view (after (Complete led i build_stage b) w) i = Some (e\<lparr>e_status := Done (Some doc)\<rparr>)"
    and complete_any:
      "view w i = Some e \<Longrightarrow> view (after (Complete led i build_stage b) w) i
         \<in> {Some e} \<union> {Some (e\<lparr>e_status := Done (Some doc)\<rparr>) |doc.
              render (env w) (print_json (bundle_json b)) = Some doc}"
    and fail_ok:
      "view w i = Some e \<Longrightarrow> value_of (Fail led i build_stage b) w = None \<Longrightarrow>
         \<exists>doc. render (env w) (print_json (bundle_json b)) = Some doc
           \<and> view (after (Fail led i build_stage b) w) i = Some (e\<lparr>e_status := Broken (Some doc)\<rparr>)"
    and fail_any:
      "view w i = Some e \<Longrightarrow> view (after (Fail led i build_stage b) w) i
         \<in> {Some e} \<union> {Some (e\<lparr>e_status := Broken (Some doc)\<rparr>) |doc.
              render (env w) (print_json (bundle_json b)) = Some doc}"
    and release_ok:
      "view w i = Some e \<Longrightarrow> value_of (Release led i build_stage) w = None \<Longrightarrow>
         view (after (Release led i build_stage) w) i = Some (e\<lparr>e_status := Running None\<rparr>)"
    and release_any:
      "view w i = Some e \<Longrightarrow> view (after (Release led i build_stage) w) i
         \<in> {Some e, Some (e\<lparr>e_status := Running None\<rparr>)}"
    and retry_ok:
      "view w i = Some e \<Longrightarrow> value_of (RecordRetry led i build_stage r) w = Inr n \<Longrightarrow>
         n = e_retries e + 1
         \<and> view (after (RecordRetry led i build_stage r) w) i = Some (e\<lparr>e_retries := e_retries e + 1\<rparr>)"
    and retry_any:
      "view w i = Some e \<Longrightarrow> view (after (RecordRetry led i build_stage r) w) i
         \<in> {Some e, Some (e\<lparr>e_retries := e_retries e + 1\<rparr>)}"
begin

lemma wf_ops: "wf w \<Longrightarrow> wf (run_ops led ps w)"
  by (induction ps arbitrary: w) (auto intro: wf_op)

text \<open>What one operation can do to the entry of its own deployment.\<close>

lemma after_run_op:
  "after (run_op led (OpClaim i d)) w = after (Claim led i build_stage d) w"
  "after (run_op led (OpRenew i d)) w = after (Renew led i build_stage d) w"
  "after (run_op led (OpComplete i b)) w = after (Complete led i build_stage b) w"
  "after (run_op led (OpFail i b)) w = after (Fail led i build_stage b) w"
  "after (run_op led (OpRelease i)) w = after (Release led i build_stage) w"
  "after (run_op led (OpRetry i r)) w = after (RecordRetry led i build_stage r) w"
  by (simp_all add: after_bind run_op.simps)

lemma counters_op:
  assumes "wf w" and "view w i = Some e"
  shows "\<exists>e'. view (after (run_op led p) w) i = Some e'
    \<and> e_retries e \<le> e_retries e' \<and> e_attempt e \<le> e_attempt e'"
proof (cases "i = op_id p")
  case False
  then show ?thesis using others assms(2) by auto
next
  case True
  show ?thesis
  proof (cases p)
    case (OpClaim j d)
    with True show ?thesis
      using claim_any [of i d w] assms(2) unfolding OpClaim after_run_op
      by (auto simp: claim_spec_def after_run_op split: ClaimDisposition.splits)
  next
    case (OpRenew j d)
    with True show ?thesis
      using renew_any [OF assms, of d] assms(2)
      by (auto simp: renew_spec_def after_run_op split: status.splits)
  next
    case (OpComplete j b)
    with True show ?thesis using complete_any [OF assms(2), of b] by (auto simp: after_run_op)
  next
    case (OpFail j b)
    with True show ?thesis using fail_any [OF assms(2), of b] by (auto simp: after_run_op)
  next
    case (OpRelease j)
    with True show ?thesis using release_any [OF assms(2)] by (auto simp: after_run_op)
  next
    case (OpRetry j r)
    with True show ?thesis using retry_any [OF assms(2), of r] by (auto simp: after_run_op)
  qed
qed

lemma counters_monotone:
  assumes "wf w" and "view w i = Some e"
  shows "\<exists>e'. view (run_ops led ps w) i = Some e'
    \<and> e_retries e \<le> e_retries e' \<and> e_attempt e \<le> e_attempt e'"
  using assms
proof (induction ps arbitrary: w e)
  case (Cons p ps)
  obtain e1 where e1: "view (after (run_op led p) w) i = Some e1"
    "e_retries e \<le> e_retries e1" "e_attempt e \<le> e_attempt e1"
    using counters_op [OF Cons.prems] by blast
  then show ?case
    using Cons.IH [OF wf_op [OF Cons.prems(1)] e1(1)] by (auto intro: order_trans)
qed auto

lemma result_op:
  assumes "wf w" and "view w i = Some e" and "terminal (e_status e)" and "keeps_result i p"
  shows "\<exists>e'. view (after (run_op led p) w) i = Some e' \<and> e_status e' = e_status e"
proof (cases "op_id p = i")
  case False
  then show ?thesis using others [of i p w] assms(2) by auto
next
  case True
  then consider d where "p = OpClaim i d" | d where "p = OpRenew i d" | r where "p = OpRetry i r"
    using assms(4) by (cases p) (auto simp: keeps_result_def)
  then show ?thesis
  proof cases
    case 1
    then show ?thesis
      using claim_any [of i d w] assms(2,3)
      by (cases "e_status e") (auto simp: claim_spec_def after_run_op terminal_def)
  next
    case 2
    then show ?thesis
      using renew_any [OF assms(1,2), of d] assms(2,3)
      by (cases "e_status e") (auto simp: renew_spec_def after_run_op terminal_def)
  next
    case 3
    then show ?thesis using retry_any [OF assms(2), of r] by (auto simp: after_run_op)
  qed
qed

lemma result_stays:
  assumes "wf w" and "view w i = Some e" and "terminal (e_status e)"
    and "list_all (keeps_result i) ps"
  shows "\<exists>e'. view (run_ops led ps w) i = Some e' \<and> e_status e' = e_status e"
  using assms
proof (induction ps arbitrary: w e)
  case (Cons p ps)
  obtain e1 where e1: "view (after (run_op led p) w) i = Some e1" "e_status e1 = e_status e"
    using result_op [OF Cons.prems(1,2,3), of p] Cons.prems(4) by auto
  then show ?case
    using Cons.IH [OF wf_op [OF Cons.prems(1)] e1(1)] Cons.prems by auto
qed simp

text \<open>A stage with a result is never handed out; a claim returns the recorded text.\<close>

lemma claim_terminal:
  assumes "view w i = Some e" and "terminal (e_status e)"
    and "value_of (Claim led i build_stage d) w = Inr (disp, rec)"
  shows "disp = (case e_status e of Done _ \<Rightarrow> ClaimCompleted | _ \<Rightarrow> ClaimFailed)
    \<and> r_ResultJSON rec = result_text (e_status e)"
  using claim_ok [OF assms(3) refl] assms(1,2)
  by (cases "e_status e") (auto simp: claim_spec_def terminal_def)

lemma completed_is_final:
  assumes "wf w" and "view w i = Some e" and "value_of (Complete led i build_stage b) w = None"
    and "list_all (keeps_result i) ps"
    and "w' = run_ops led ps (after (Complete led i build_stage b) w)"
    and "value_of (Claim led i build_stage d) w' = Inr (disp, rec)"
  shows "disp = ClaimCompleted \<and> r_ResultJSON rec = render (env w) (print_json (bundle_json b))"
proof -
  obtain doc where r: "render (env w) (print_json (bundle_json b)) = Some doc"
    and v: "view (after (Complete led i build_stage b) w) i = Some (e\<lparr>e_status := Done (Some doc)\<rparr>)"
    using complete_ok [OF assms(2,3)] by blast
  have "wf (after (Complete led i build_stage b) w)"
    using wf_op [OF assms(1), of "OpComplete i b"] by (simp add: after_run_op)
  from result_stays [OF this v _ assms(4)]
  obtain e' where e': "view w' i = Some e'" "e_status e' = Done (Some doc)"
    by (auto simp: terminal_def assms(5))
  then show ?thesis
    using claim_terminal [OF e'(1) _ assms(6)] r by (simp add: terminal_def result_text_def)
qed

text \<open>
  A lease that runs until \<open>until\<close> excludes every claim made before that instant, as long as the
  holder does not give the stage up: the operations allowed on the deployment are claims in time
  and retry records.
\<close>

lemma claim_busy:
  assumes "view w i = Some e" and "e_status e = Running (Some until)" and "claim_time w < until"
  shows "view (after (Claim led i build_stage d) w) i = Some e"
    "value_of (Claim led i build_stage d) w = Inr (disp, rec) \<Longrightarrow> disp = ClaimBusy"
  using claim_any [of i d w] claim_ok [OF _ refl, of i d w disp rec] assms
  by (auto simp: claim_spec_def lease_live_def)

lemma lease_excludes:
  assumes "view w i = Some e" and "e_status e = Running (Some until)"
    and "all_ops led (in_time claim_time i until) ps w"
  shows "all_ops led (refused led i) ps w"
  using assms
proof (induction ps arbitrary: w e)
  case (Cons p ps)
  have t: "in_time claim_time i until w p" and rest: "all_ops led (in_time claim_time i until) ps (after (run_op led p) w)"
    using Cons.prems(3) by simp_all
  have "\<exists>e'. view (after (run_op led p) w) i = Some e' \<and> e_status e' = Running (Some until)"
  proof (cases "op_id p = i")
    case False
    then show ?thesis using others [of i p w] Cons.prems by auto
  next
    case True
    then consider d where "p = OpClaim i d" "claim_time w < until" | r where "p = OpRetry i r"
      using t by (cases p) (auto simp: in_time_def)
    then show ?thesis
    proof cases
      case 1
      then show ?thesis
        using claim_busy(1) [OF Cons.prems(1,2)] Cons.prems(2) by (auto simp: after_run_op)
    next
      case 2
      then show ?thesis
        using retry_any [OF Cons.prems(1), of r] Cons.prems(2) by (auto simp: after_run_op)
    qed
  qed
  then have "all_ops led (refused led i) ps (after (run_op led p) w)"
    using Cons.IH rest by blast
  moreover have "refused led i w p"
    using claim_busy(2) [OF Cons.prems(1,2)] t
    by (cases p) (auto simp: in_time_def refused_def split: sum.splits)
  ultimately show ?case by simp
qed simp

end

section \<open>The ledger in memory keeps it\<close>

definition mem_view :: "world \<Rightarrow> string \<Rightarrow> entry option" where
  "mem_view w i = map_option
     (\<lambda>r. entry_of (r_State r) (r_LeaseExpiresAt r) (r_ResultJSON r) (r_Attempt r) (r_RetryCount r))
     (memory w (mem_key i build_stage))"

definition first_clock :: "world \<Rightarrow> gotime" where
  "first_clock w = clock (env w) (hist w)"

lemma mem_key_inject [simp]: "mem_key i s = mem_key j s \<longleftrightarrow> i = j"
  by (simp add: mem_key_def)

lemma state_names [simp]:
  "StateInProgress \<noteq> StateCompleted" "StateInProgress \<noteq> StateFailed" "StateCompleted \<noteq> StateFailed"
  "StateCompleted \<noteq> StateInProgress" "StateFailed \<noteq> StateInProgress" "StateFailed \<noteq> StateCompleted"
  by (simp_all add: stage_states)

lemma memory_fields:
  "Claim memoryStageLedger = mem_Claim" "Renew memoryStageLedger = mem_Renew"
  "Complete memoryStageLedger = mem_Complete" "Fail memoryStageLedger = mem_Fail"
  "Release memoryStageLedger = mem_Release" "RecordRetry memoryStageLedger = mem_RecordRetry"
  by (simp_all add: memoryStageLedger_def)

lemmas mem_defs = mem_Claim_def mem_Renew_def mem_Complete_def mem_Fail_def mem_set_def
  mem_Release_def mem_RecordRetry_def mem_put_def mem_get_def

lemmas run_rules = value_of_def after_def

lemma mem_others: "j \<noteq> op_id p \<Longrightarrow> mem_view (after (run_op memoryStageLedger p) w) j = mem_view w j"
  by (cases p)
    (auto simp: run_op.simps memory_fields mem_defs run_rules mem_view_def Let_def split: option.splits)

lemma mem_claim:
  fixes w :: world and d :: duration and i :: string
  assumes sp: "sp = claim_spec (first_clock w) (first_clock w + d) (mem_view w i)"
  shows
  "\<exists>rec. run_state (mem_Claim i build_stage d) w =
     (Inr (fst sp, rec), after (mem_Claim i build_stage d) w)
     \<and> mem_view (after (mem_Claim i build_stage d) w) i = Some (snd sp)
     \<and> (terminal (e_status (snd sp)) \<longrightarrow> r_ResultJSON rec = result_text (e_status (snd sp)))"
proof (cases "memory w (mem_key i build_stage)")
  case None
  then show ?thesis
    unfolding sp
    by (simp add: mem_defs run_rules mem_view_def claim_spec_def entry_of_def first_clock_def
        terminal_def Let_def)
next
  case (Some r)
  then show ?thesis
    unfolding sp
    by (auto simp: mem_defs run_rules mem_view_def claim_spec_def entry_of_def first_clock_def
        terminal_def result_text_def Let_def)
qed

interpretation mem: stage_ledger memoryStageLedger mem_view "\<lambda>_. True" "\<lambda>_ s. Some s" "\<lambda>_ t. t"
  first_clock first_clock
proof unfold_locales
  show "mem_view (after (run_op memoryStageLedger p) w) j = mem_view w j" if "j \<noteq> op_id p" for p w j
    using that by (rule mem_others)
next
  fix d w disp rec sp i
  assume "value_of (Claim memoryStageLedger i build_stage d) w = Inr (disp, rec)"
    and "sp = claim_spec (first_clock w) (first_clock w + d) (mem_view w i)"
  then show "disp = fst sp \<and> mem_view (after (Claim memoryStageLedger i build_stage d) w) i = Some (snd sp)
      \<and> (terminal (e_status (snd sp)) \<longrightarrow> r_ResultJSON rec = result_text (e_status (snd sp)))"
    using mem_claim [of sp w d i] by (auto simp: memory_fields value_of_def)
next
  fix d w i
  show "mem_view (after (Claim memoryStageLedger i build_stage d) w) i
     \<in> {mem_view w i, Some (snd (claim_spec (first_clock w) (first_clock w + d) (mem_view w i)))}"
    using mem_claim [of _ w d i, OF refl] by (auto simp: memory_fields)
qed (auto simp: memory_fields mem_defs run_rules mem_view_def renew_spec_def entry_of_def first_clock_def
    split: option.splits if_splits)

end
