(* ===== verification/LedgerPg.thy ===== *)
theory LedgerPg
  imports LedgerSpec
begin

text \<open>
  The ledger in PostgreSQL keeps the contract of a stage ledger, whatever faults its round trips
  have: the laws are proved from what the server does with each statement and from the
  transaction of \<open>Claim\<close>, and the locale is interpreted.
\<close>

section \<open>Round trips\<close>

definition row_entry :: "pg_row \<Rightarrow> entry" where
  "row_entry row = entry_of (g_state row) (g_lease row) (g_result row) (g_attempt row) (g_retry_count row)"

definition table_view :: "table \<Rightarrow> string \<Rightarrow> entry option" where
  "table_view tab i = map_option row_entry (tab (i, build_stage))"

definition pg_view :: "world \<Rightarrow> string \<Rightarrow> entry option" where
  "pg_view w = table_view (rows w)"

text \<open>The checks of the migrations on the columns, as an invariant of the table.\<close>

definition row_ok :: "pg_row \<Rightarrow> bool" where
  "row_ok row \<longleftrightarrow> g_state row \<in> {StateInProgress, StateCompleted, StateFailed}
     \<and> 0 < g_attempt row \<and> 0 \<le> g_retry_count row"

definition table_ok :: "table \<Rightarrow> bool" where
  "table_ok tab \<longleftrightarrow> (\<forall>k row. tab k = Some row \<longrightarrow> row_ok row)"

definition pg_wf :: "world \<Rightarrow> bool" where
  "pg_wf w \<longleftrightarrow> table_ok (rows w)"

definition tx_clock :: "world \<Rightarrow> gotime" where
  "tx_clock w = clock (env w) (hist w @ [Sql BeginTx])"

lemma row_ok_simps [simp]:
  "row_ok \<lparr>g_state = StateInProgress, g_attempt = a, g_lease = l, g_result = r, g_retry_count = n,
     g_last_error = x\<rparr> \<longleftrightarrow> 0 < a \<and> 0 \<le> n"
  "row_ok row \<Longrightarrow> s \<in> {StateInProgress, StateCompleted, StateFailed} \<Longrightarrow> row_ok (row\<lparr>g_state := s\<rparr>)"
  "row_ok row \<Longrightarrow> 0 < a \<Longrightarrow> row_ok (row\<lparr>g_attempt := a\<rparr>)"
  "row_ok row \<Longrightarrow> row_ok (row\<lparr>g_retry_count := g_retry_count row + 1\<rparr>)"
  "row_ok (row\<lparr>g_lease := l\<rparr>) = row_ok row" "row_ok (row\<lparr>g_result := r\<rparr>) = row_ok row"
  "row_ok (row\<lparr>g_last_error := x\<rparr>) = row_ok row"
  by (simp_all add: row_ok_def)

lemma table_ok_update: "table_ok tab \<Longrightarrow> row_ok row \<Longrightarrow> table_ok (tab(k \<mapsto> row))"
  by (simp add: table_ok_def)

lemma table_okD: "table_ok tab \<Longrightarrow> tab k = Some row \<Longrightarrow> row_ok row"
  unfolding table_ok_def by blast

text \<open>A round trip: it fails and did nothing, it fails although the server did it, or it works.\<close>

lemma sql_do_cases:
  obtains
    (failed) e where "run_state (sql_do s) w = (Inl e, w\<lparr>hist := hist w @ [Sql s]\<rparr>)"
  | (unseen) e tab row where "server (env w) s (rows w) = Some (tab, row)"
      "run_state (sql_do s) w = (Inl e, w\<lparr>hist := hist w @ [Sql s], rows := tab\<rparr>)"
  | (ok) tab row where "server (env w) s (rows w) = Some (tab, row)"
      "sql_fault (env w) (hist w) s = None"
      "run_state (sql_do s) w = (Inr row, w\<lparr>hist := hist w @ [Sql s], rows := tab\<rparr>)"
  using that
  by (cases "server (env w) s (rows w)"; cases "sql_fault (env w) (hist w) s" rule: option.exhaust;
      cases "the (sql_fault (env w) (hist w) s)")
    (auto simp: sql_do_def)

text \<open>What the server's answer to each statement means for the table.\<close>

lemma update_row_view:
  assumes "update_row i s f tab = Some (tab', row)"
  shows "tab' = (case tab (i, s) of None \<Rightarrow> tab | Some r \<Rightarrow> tab((i, s) \<mapsto> the (f r)))"
    "tab (i, s) = Some r \<Longrightarrow> f r = Some (the (f r)) \<and> row = Some (the (f r))"
    "tab (i, s) = None \<Longrightarrow> row = None"
  using assms by (auto simp: update_row_def split: option.splits)

lemma server_ok:
  assumes "server ev s tab = Some (tab', row)" and "table_ok tab"
  shows "table_ok tab'"
  using assms
  by (cases s)
    (auto simp: update_row_def Let_def intro!: table_ok_update dest: table_okD table_okD [OF _ sym]
      split: if_splits option.splits)

lemma server_other:
  assumes "server ev s tab = Some (tab', row)"
    and "s \<in> {InsertClaim i st a, SelectForUpdate i st, UpdateClaim i st n a, UpdateRenew i st a,
       UpdateResult i st x y, UpdateRelease i st, UpdateRetry i st y}" and "k \<noteq> (i, st)"
  shows "tab' k = tab k"
  using assms
  by (auto simp: update_row_def Let_def split: if_splits option.splits)

lemmas pg_defs = pg_Renew_def pg_Complete_def pg_Fail_def pg_set_def pg_Release_def

lemma postgres_fields:
  "Claim PostgresStageLedger = pg_Claim" "Renew PostgresStageLedger = pg_Renew"
  "Complete PostgresStageLedger = pg_Complete" "Fail PostgresStageLedger = pg_Fail"
  "Release PostgresStageLedger = pg_Release" "RecordRetry PostgresStageLedger = pg_RecordRetry"
  by (simp_all add: PostgresStageLedger_def)

text \<open>
  The transaction of a claim. If it reaches its commit, the disposition and the table are those of
  the specification.
\<close>

lemma claim_tx:
  assumes "run_state (pg_claim_tx i s d) w = (Inr (disp, rec), w')"
  shows "(case rows w (i, s) of
      None \<Rightarrow> disp = ClaimAcquired \<and>
        rows w' = (rows w)((i, s) \<mapsto> \<lparr>g_state = StateInProgress, g_attempt = 1,
          g_lease = Some (timestamptz (env w) (clock (env w) (hist w) + d)), g_result = None,
          g_retry_count = 0, g_last_error = None\<rparr>)
    | Some row \<Rightarrow>
        if g_state row = StateCompleted then
          disp = ClaimCompleted \<and> rows w' = rows w \<and> rec = record_of_row i s row
        else if g_state row = StateFailed then
          disp = ClaimFailed \<and> rows w' = rows w \<and> rec = record_of_row i s row
        else if lease_live (g_lease row) (clock (env w) (hist w)) then
          disp = ClaimBusy \<and> rows w' = rows w
        else disp = ClaimAcquired \<and> rows w' = (rows w)((i, s) \<mapsto> row\<lparr>g_state := StateInProgress,
          g_attempt := g_attempt row + 1,
          g_lease := Some (timestamptz (env w) (clock (env w) (hist w) + d))\<rparr>))
    \<and> env w' = env w"
proof -
  let ?w1 = "w\<lparr>hist := hist w @ [ReadClock]\<rparr>" and ?until = "clock (env w) (hist w) + d"
  show ?thesis
  proof (cases rule: sql_do_cases [of "InsertClaim i s ?until" ?w1])
    case (ok tab row)
    note ins = this
    show ?thesis
    proof (cases "rows w (i, s)")
      case None
      then show ?thesis
        using assms ins by (auto simp: pg_claim_tx_def Let_def split: if_splits)
    next
      case (Some r)
      then have ins': "tab = rows w" "row = None"
        using ins(1) by (auto split: if_splits)
      let ?w2 = "?w1\<lparr>hist := hist w @ [ReadClock, Sql (InsertClaim i s ?until)]\<rparr>"
      show ?thesis
      proof (cases rule: sql_do_cases [of "SelectForUpdate i s" ?w2])
        case (ok tab2 row2)
        then have sel: "tab2 = rows w" "row2 = Some r"
          using Some by (auto split: if_splits)
        let ?w3 = "?w2\<lparr>hist := hist w @ [ReadClock, Sql (InsertClaim i s ?until), Sql (SelectForUpdate i s)]\<rparr>"
        let ?upd = "UpdateClaim i s (g_attempt r + 1) ?until"
        show ?thesis
        proof (cases rule: sql_do_cases [of ?upd ?w3])
          case (ok tab3 row3)
          then show ?thesis
            using assms ins(3) ins' \<open>run_state (sql_do (SelectForUpdate i s)) ?w2 = _\<close> sel Some
            by (auto simp: pg_claim_tx_def Let_def record_of_row_def update_row_def split: if_splits)
        qed (use assms ins(3) ins' \<open>run_state (sql_do (SelectForUpdate i s)) ?w2 = _\<close> sel Some in
            \<open>auto simp: pg_claim_tx_def Let_def record_of_row_def split: if_splits\<close>)
      qed (use assms ins(3) ins' in \<open>auto simp: pg_claim_tx_def Let_def\<close>)
    qed
  qed (use assms in \<open>auto simp: pg_claim_tx_def\<close>)
qed


lemma claim_tx_entry:
  assumes "run_state (pg_claim_tx i build_stage d) w = (Inr (disp, rec), w')"
    and "sp = claim_spec (clock (env w) (hist w)) (timestamptz (env w) (clock (env w) (hist w) + d)) (pg_view w i)"
  shows "disp = fst sp \<and> pg_view w' i = Some (snd sp)
    \<and> (terminal (e_status (snd sp)) \<longrightarrow> r_ResultJSON rec = result_text (e_status (snd sp)))
    \<and> (\<forall>k. k \<noteq> (i, build_stage) \<longrightarrow> rows w' k = rows w k)"
proof (cases "rows w (i, build_stage)")
  case None
  then show ?thesis
    using claim_tx [OF assms(1)] unfolding assms(2)
    by (simp add: pg_view_def table_view_def row_entry_def entry_of_def claim_spec_def terminal_def)
next
  case (Some row)
  note tx = claim_tx [OF assms(1)]
  note defs = pg_view_def table_view_def row_entry_def entry_of_def claim_spec_def terminal_def
    result_text_def record_of_row_def
  consider "g_state row = StateCompleted" | "g_state row = StateFailed"
    | "g_state row \<noteq> StateCompleted" "g_state row \<noteq> StateFailed"
        "lease_live (g_lease row) (clock (env w) (hist w))"
    | "g_state row \<noteq> StateCompleted" "g_state row \<noteq> StateFailed"
        "\<not> lease_live (g_lease row) (clock (env w) (hist w))"
    by blast
  then show ?thesis
    using tx Some unfolding assms(2) by cases (simp_all add: defs)
qed

text \<open>The whole claim: it commits what its transaction did, or leaves the table alone.\<close>

lemma claim_commits:
  obtains (kept) "rows (after (pg_Claim i s d) w) = rows w" "\<exists>e. value_of (pg_Claim i s d) w = Inl e"
  | (committed) res w2 where
      "run_state (pg_claim_tx i s d) (w\<lparr>hist := hist w @ [Sql BeginTx]\<rparr>) = (Inr res, w2)"
      "rows (after (pg_Claim i s d) w) = rows w2"
      "value_of (pg_Claim i s d) w = Inr res \<or> (\<exists>e. value_of (pg_Claim i s d) w = Inl e)"
proof -
  let ?w1 = "w\<lparr>hist := hist w @ [Sql BeginTx]\<rparr>"
  obtain r w2 where tx: "run_state (pg_claim_tx i s d) ?w1 = (r, w2)" by fastforce
  show thesis
  proof (cases rule: sql_do_cases [of BeginTx w])
    case (ok tab row)
    then have b: "run_state (sql_do BeginTx) w = (Inr None, ?w1)" by auto
    show ?thesis
    proof (cases r)
      case (Inl e)
      then show ?thesis
        using tx b by (intro that(1)) (simp_all add: pg_Claim_def run_rules)
    next
      case (Inr res)
      show ?thesis
      proof (cases "sql_fault (env w2) (hist w2) Commit")
        case None
        then show ?thesis
          using tx b Inr by (intro that(2)) (simp_all add: pg_Claim_def run_rules)
      next
        case (Some f)
        show ?thesis
        proof (cases f)
          case (NotApplied t)
          then show ?thesis
            using tx b Inr Some by (intro that(1)) (simp_all add: pg_Claim_def run_rules)
        next
          case (AppliedUnseen t)
          then show ?thesis
            using tx b Inr Some by (intro that(2)) (simp_all add: pg_Claim_def run_rules)
        qed
      qed
    qed
  next
    case (failed e)
    then show ?thesis by (intro that(1)) (simp_all add: pg_Claim_def run_rules)
  next
    case (unseen e tab row)
    then show ?thesis by (intro that(1)) (simp_all add: pg_Claim_def run_rules)
  qed
qed

text \<open>The single-statement operations: an error leaves the entry or moves it as specified.\<close>

lemma statement_others:
  assumes "s \<in> {InsertClaim i st a, SelectForUpdate i st, UpdateClaim i st n a, UpdateRenew i st a,
       UpdateResult i st x y, UpdateRelease i st, UpdateRetry i st y}" and "k \<noteq> (i, st)"
  shows "rows (after (sql_do s) w) k = rows w k"
  using server_other [OF _ assms]
  by (cases rule: sql_do_cases [of s w]) (auto simp: after_def)

lemma pg_view_update:
  "(i, build_stage) \<noteq> k \<Longrightarrow> table_view (tab(k \<mapsto> row)) i = table_view tab i"
  "table_view (tab((i, build_stage) \<mapsto> row)) i = Some (row_entry row)"
  by (simp_all add: table_view_def)

lemma after_pg_RecordRetry:
  "after (pg_RecordRetry i s r) w = after (sql_do (UpdateRetry i s r)) w"
  by (simp add: pg_RecordRetry_def after_bind split: sum.splits option.splits)

lemma value_pg_RecordRetry:
  "value_of (pg_RecordRetry i s r) w = Inr n \<longleftrightarrow>
     (\<exists>row. value_of (sql_do (UpdateRetry i s r)) w = Inr (Some row) \<and> n = g_retry_count row)"
  by (auto simp: pg_RecordRetry_def value_of_bind split: sum.splits option.splits)

lemma pg_others:
  assumes "j \<noteq> op_id p"
  shows "pg_view (after (run_op PostgresStageLedger p) w) j = pg_view w j"
proof -
  have k: "(j, build_stage) \<noteq> (op_id p, build_stage)" using assms by simp
  have "rows (after (run_op PostgresStageLedger p) w) (j, build_stage) = rows w (j, build_stage)"
  proof (cases p)
    case (OpClaim i d)
    show ?thesis
    proof (cases rule: claim_commits [of i build_stage d w])
      case (committed res w2)
      then show ?thesis
        using claim_tx_entry [of i d "w\<lparr>hist := hist w @ [Sql BeginTx]\<rparr>" "fst res" "snd res" w2] k OpClaim
        by (simp add: run_op.simps postgres_fields after_bind)
    qed (use OpClaim in \<open>simp add: run_op.simps postgres_fields after_bind\<close>)
  qed (use k in \<open>simp_all add: run_op.simps postgres_fields after_pg_RecordRetry pg_defs after_bind
      statement_others
      [where i = "op_id p" and st = build_stage]\<close>)
  then show ?thesis by (simp add: pg_view_def table_view_def)
qed

lemma sql_do_wf: "pg_wf w \<Longrightarrow> pg_wf (after (sql_do s) w)"
  by (cases rule: sql_do_cases [of s w]) (auto simp: after_def pg_wf_def dest: server_ok)


text \<open>A statement that updates the row of one deployment by \<open>f\<close>.\<close>

lemma update_statement:
  assumes upd: "\<And>tab tab' row. server (env w) s tab = Some (tab', row) \<Longrightarrow>
      update_row i build_stage f tab = Some (tab', row)"
    and r: "rows w (i, build_stage) = Some r"
  shows "value_of (sql_do s) w = Inr res \<Longrightarrow>
      \<exists>r'. f r = Some r' \<and> res = Some r' \<and> rows (after (sql_do s) w) (i, build_stage) = Some r'"
    and "rows (after (sql_do s) w) (i, build_stage) \<in> {Some r} \<union> {f r |r'. f r = Some r'}"
proof -
  have *: "\<exists>r'. f r = Some r' \<and> row = Some r' \<and> tab (i, build_stage) = Some r'"
    if "server (env w) s (rows w) = Some (tab, row)" for tab row
    using upd [OF that] r by (auto simp: update_row_def)
  show "value_of (sql_do s) w = Inr res \<Longrightarrow>
      \<exists>r'. f r = Some r' \<and> res = Some r' \<and> rows (after (sql_do s) w) (i, build_stage) = Some r'"
    using * by (cases rule: sql_do_cases [of s w]) (auto simp: run_rules)
  show "rows (after (sql_do s) w) (i, build_stage) \<in> {Some r} \<union> {f r |r'. f r = Some r'}"
    using * r by (cases rule: sql_do_cases [of s w]) (auto simp: run_rules)
qed

lemma sql_error_of_None: "sql_error_of r = None \<longleftrightarrow> (\<exists>x. r = Inr x)"
  by (auto simp: sql_error_of_def split: sum.splits)

definition renew_row :: "gotime \<Rightarrow> pg_row \<Rightarrow> pg_row option" where
  "renew_row until row = Some (if g_state row = StateInProgress then row\<lparr>g_lease := Some until\<rparr> else row)"

definition result_row :: "string \<Rightarrow> string \<Rightarrow> pg_row \<Rightarrow> pg_row option" where
  "result_row st stored row = (if st \<notin> {StateInProgress, StateCompleted, StateFailed} then None
     else Some (row\<lparr>g_state := st, g_result := Some stored, g_lease := None\<rparr>))"

definition release_row :: "pg_row \<Rightarrow> pg_row option" where
  "release_row row = Some (row\<lparr>g_state := StateInProgress, g_lease := None\<rparr>)"

definition retry_row :: "string \<Rightarrow> pg_row \<Rightarrow> pg_row option" where
  "retry_row reason row = (if int4 (g_retry_count row + 1)
     then Some (row\<lparr>g_retry_count := g_retry_count row + 1, g_last_error := Some reason\<rparr>) else None)"

lemma statement_rows:
  "server ev (UpdateRenew i st t) tab = Some (tab', row) \<Longrightarrow>
     update_row i st (renew_row (timestamptz ev t)) tab = Some (tab', row)"
  "server ev (UpdateRelease i st) tab = Some (tab', row) \<Longrightarrow>
     update_row i st release_row tab = Some (tab', row)"
  "server ev (UpdateRetry i st reason) tab = Some (tab', row) \<Longrightarrow>
     update_row i st (retry_row reason) tab = Some (tab', row)"
  "server ev (UpdateResult i st s doc) tab = Some (tab', row) \<Longrightarrow>
     \<exists>stored. jsonb ev doc = Some stored \<and> update_row i st (result_row s stored) tab = Some (tab', row)"
  by (auto simp: renew_row_def [abs_def] release_row_def [abs_def] retry_row_def [abs_def]
      result_row_def [abs_def] split: if_splits option.splits)

lemma pg_view_row: "pg_view w i = map_option row_entry (rows w (i, build_stage))"
  by (simp add: pg_view_def table_view_def)

lemmas row_updates = renew_row_def release_row_def retry_row_def result_row_def row_entry_def entry_of_def

lemma sql_set:
  assumes r: "rows w (i, build_stage) = Some r"
    and st: "st = StateCompleted \<and> mk = Done \<or> st = StateFailed \<and> mk = Broken"
  shows "value_of (pg_set i build_stage st b) w = None \<Longrightarrow>
      \<exists>doc. jsonb (env w) (print_json (bundle_json b)) = Some doc
        \<and> pg_view (after (pg_set i build_stage st b) w) i = Some ((row_entry r)\<lparr>e_status := mk (Some doc)\<rparr>)"
    and "pg_view (after (pg_set i build_stage st b) w) i
      \<in> {Some (row_entry r)} \<union> {Some ((row_entry r)\<lparr>e_status := mk (Some doc)\<rparr>) |doc.
           jsonb (env w) (print_json (bundle_json b)) = Some doc}"
proof -
  let ?s = "UpdateResult i build_stage st (print_json (bundle_json b))"
  have entry: "row_entry (r\<lparr>g_state := st, g_result := Some stored, g_lease := None\<rparr>)
      = (row_entry r)\<lparr>e_status := mk (Some stored)\<rparr>" for stored
    using st by (auto simp: row_entry_def entry_of_def)
  have stok: "st \<in> {StateInProgress, StateCompleted, StateFailed}" using st by auto
  have step: "tab' (i, build_stage) = Some (r\<lparr>g_state := st, g_result := Some stored, g_lease := None\<rparr>)"
    if "update_row i build_stage (result_row st stored) (rows w) = Some (tab', row)" for stored tab' row
    using that r stok by (auto simp: update_row_def result_row_def)
  show "value_of (pg_set i build_stage st b) w = None \<Longrightarrow>
      \<exists>doc. jsonb (env w) (print_json (bundle_json b)) = Some doc
        \<and> pg_view (after (pg_set i build_stage st b) w) i = Some ((row_entry r)\<lparr>e_status := mk (Some doc)\<rparr>)"
    by (cases rule: sql_do_cases [of ?s w])
      (auto simp: pg_set_def run_rules sql_error_of_def pg_view_row entry simp del: server.simps
        dest!: statement_rows(4) step)
  show "pg_view (after (pg_set i build_stage st b) w) i
      \<in> {Some (row_entry r)} \<union> {Some ((row_entry r)\<lparr>e_status := mk (Some doc)\<rparr>) |doc.
           jsonb (env w) (print_json (bundle_json b)) = Some doc}"
    using r
    by (cases rule: sql_do_cases [of ?s w])
      (auto simp: pg_set_def run_rules sql_error_of_def pg_view_row entry simp del: server.simps
        dest!: statement_rows(4) step)
qed

lemma pg_wf_claim: "pg_wf w \<Longrightarrow> pg_wf (after (pg_Claim i s d) w)"
proof (cases rule: claim_commits [of i s d w])
  case (committed res w2)
  assume "pg_wf w"
  obtain disp rec where res: "res = (disp, rec)" by (cases res)
  have "table_ok (rows w2)"
    using claim_tx [OF committed(1) [unfolded res]] \<open>pg_wf w\<close>
    by (auto simp: pg_wf_def table_ok_update row_ok_def split: option.splits if_splits
        intro!: table_ok_update dest: table_okD)
  then show ?thesis using committed(2) by (simp add: pg_wf_def)
qed (simp add: pg_wf_def)

lemma pg_wf_op: "pg_wf w \<Longrightarrow> pg_wf (after (run_op PostgresStageLedger p) w)"
proof -
  have clock: "pg_wf w \<Longrightarrow> pg_wf (w\<lparr>hist := h\<rparr>)" for w h by (simp add: pg_wf_def)
  show "pg_wf w \<Longrightarrow> pg_wf (after (run_op PostgresStageLedger p) w)"
    by (cases p) (simp_all add: run_op.simps postgres_fields pg_defs after_bind after_pg_RecordRetry
        sql_do_wf clock pg_wf_claim)
qed

interpretation pg: stage_ledger PostgresStageLedger pg_view pg_wf jsonb timestamptz tx_clock first_clock
proof unfold_locales
  show "pg_view (after (run_op PostgresStageLedger p) w) j = pg_view w j" if "j \<noteq> op_id p" for p w j
    using that by (rule pg_others)
  show "pg_wf (after (run_op PostgresStageLedger p) w)" if "pg_wf w" for p w
    using that by (rule pg_wf_op)
next
  fix i d w disp rec sp
  assume c: "value_of (Claim PostgresStageLedger i build_stage d) w = Inr (disp, rec)"
    and sp: "sp = claim_spec (tx_clock w) (timestamptz (env w) (tx_clock w + d)) (pg_view w i)"
  show "disp = fst sp \<and> pg_view (after (Claim PostgresStageLedger i build_stage d) w) i = Some (snd sp)
      \<and> (terminal (e_status (snd sp)) \<longrightarrow> r_ResultJSON rec = result_text (e_status (snd sp)))"
  proof (cases rule: claim_commits [of i build_stage d w])
    case kept
    then show ?thesis using c by (auto simp: postgres_fields)
  next
    case (committed res w2)
    then have "res = (disp, rec)" using c by (auto simp: postgres_fields)
    with committed show ?thesis
      using claim_tx_entry [of i d "w\<lparr>hist := hist w @ [Sql BeginTx]\<rparr>" disp rec w2 sp] sp
      by (simp add: postgres_fields pg_view_row tx_clock_def)
  qed
next
  fix i d w
  show "pg_view (after (Claim PostgresStageLedger i build_stage d) w) i \<in> {pg_view w i,
      Some (snd (claim_spec (tx_clock w) (timestamptz (env w) (tx_clock w + d)) (pg_view w i)))}"
  proof (cases rule: claim_commits [of i build_stage d w])
    case kept
    then show ?thesis by (simp add: postgres_fields pg_view_row)
  next
    case (committed res w2)
    then show ?thesis
      using claim_tx_entry [of i d "w\<lparr>hist := hist w @ [Sql BeginTx]\<rparr>" "fst res" "snd res" w2, OF _ refl]
      by (simp add: postgres_fields pg_view_row tx_clock_def)
  qed
next
  fix w i e d
  assume "pg_wf w" and v: "pg_view w i = Some e"
  then obtain r where r: "rows w (i, build_stage) = Some r" "e = row_entry r" "row_ok r"
    by (auto simp: pg_view_row pg_wf_def dest: table_okD)
  let ?w1 = "w\<lparr>hist := hist w @ [ReadClock]\<rparr>" and ?u = "timestamptz (env w) (first_clock w + d)"
  let ?s = "UpdateRenew i build_stage (first_clock w + d)"
  have spec: "renew_spec ?u e = row_entry (the (renew_row ?u r))"
    using r by (auto simp: renew_spec_def row_updates row_ok_def)
  note u = update_statement [of ?w1 ?s i "renew_row ?u" r]
  have up: "server (env ?w1) ?s tab = Some (tab', row) \<Longrightarrow>
      update_row i build_stage (renew_row ?u) tab = Some (tab', row)" for tab tab' row
    using statement_rows(1) by simp
  have run: "after (Renew PostgresStageLedger i build_stage d) w = after (sql_do ?s) ?w1"
    "value_of (Renew PostgresStageLedger i build_stage d) w = sql_error_of (value_of (sql_do ?s) ?w1)"
    by (simp_all add: postgres_fields pg_Renew_def run_steps first_clock_def)
  show "pg_view (after (Renew PostgresStageLedger i build_stage d) w) i \<in> {pg_view w i, Some (renew_spec ?u e)}"
    using u(2) [OF up] r v unfolding run spec pg_view_row by (auto simp: renew_row_def)
  show "pg_view (after (Renew PostgresStageLedger i build_stage d) w) i = Some (renew_spec ?u e)"
    if "value_of (Renew PostgresStageLedger i build_stage d) w = None"
    using u(1) [OF up] r v that unfolding run spec pg_view_row sql_error_of_None
    by (auto simp: renew_row_def)
next
  fix w i e b
  assume "pg_view w i = Some e"
  then obtain r where r: "rows w (i, build_stage) = Some r" "e = row_entry r"
    by (auto simp: pg_view_row)
  note completed = sql_set [OF r(1), of StateCompleted Done b] and broken = sql_set [OF r(1), of StateFailed Broken b]
  show "value_of (Complete PostgresStageLedger i build_stage b) w = None \<Longrightarrow>
      \<exists>doc. jsonb (env w) (print_json (bundle_json b)) = Some doc
        \<and> pg_view (after (Complete PostgresStageLedger i build_stage b) w) i = Some (e\<lparr>e_status := Done (Some doc)\<rparr>)"
    using completed(1) r by (simp add: postgres_fields pg_defs)
  show "pg_view (after (Complete PostgresStageLedger i build_stage b) w) i
      \<in> {Some e} \<union> {Some (e\<lparr>e_status := Done (Some doc)\<rparr>) |doc. jsonb (env w) (print_json (bundle_json b)) = Some doc}"
    using completed(2) r by (simp add: postgres_fields pg_defs)
  show "value_of (Fail PostgresStageLedger i build_stage b) w = None \<Longrightarrow>
      \<exists>doc. jsonb (env w) (print_json (bundle_json b)) = Some doc
        \<and> pg_view (after (Fail PostgresStageLedger i build_stage b) w) i = Some (e\<lparr>e_status := Broken (Some doc)\<rparr>)"
    using broken(1) r by (simp add: postgres_fields pg_defs)
  show "pg_view (after (Fail PostgresStageLedger i build_stage b) w) i
      \<in> {Some e} \<union> {Some (e\<lparr>e_status := Broken (Some doc)\<rparr>) |doc. jsonb (env w) (print_json (bundle_json b)) = Some doc}"
    using broken(2) r by (simp add: postgres_fields pg_defs)
next
  fix w i e
  assume "pg_view w i = Some e"
  then obtain r where r: "rows w (i, build_stage) = Some r" "e = row_entry r"
    by (auto simp: pg_view_row)
  let ?s = "UpdateRelease i build_stage"
  note u = update_statement [of w ?s i release_row r, OF statement_rows(2) r(1)]
  have entry: "row_entry (r\<lparr>g_state := StateInProgress, g_lease := None\<rparr>) = e\<lparr>e_status := Running None\<rparr>"
    by (simp add: r(2) row_updates)
  have run: "after (Release PostgresStageLedger i build_stage) w = after (sql_do ?s) w"
    "value_of (Release PostgresStageLedger i build_stage) w = sql_error_of (value_of (sql_do ?s) w)"
    by (simp_all add: postgres_fields pg_defs run_steps)
  show "value_of (Release PostgresStageLedger i build_stage) w = None \<Longrightarrow>
      pg_view (after (Release PostgresStageLedger i build_stage) w) i = Some (e\<lparr>e_status := Running None\<rparr>)"
    using u(1) entry unfolding run pg_view_row sql_error_of_None by (auto simp: release_row_def)
  show "pg_view (after (Release PostgresStageLedger i build_stage) w) i
      \<in> {Some e, Some (e\<lparr>e_status := Running None\<rparr>)}"
    using u(2) entry r unfolding run pg_view_row by (auto simp: release_row_def)
next
  fix w i e reason
  assume "pg_view w i = Some e"
  then obtain r where r: "rows w (i, build_stage) = Some r" "e = row_entry r"
    by (auto simp: pg_view_row)
  let ?s = "UpdateRetry i build_stage reason"
  have "server (env w) ?s tab = Some (tab', row) \<Longrightarrow>
      update_row i build_stage (retry_row reason) tab = Some (tab', row)" for tab tab' row
    by (rule statement_rows(3))
  note u = update_statement [of w ?s i "retry_row reason" r, OF this r(1)]
  have entry: "row_entry (r\<lparr>g_retry_count := g_retry_count r + 1, g_last_error := Some reason\<rparr>)
      = e\<lparr>e_retries := e_retries e + 1\<rparr>" and n: "e_retries e = g_retry_count r"
    by (simp_all add: r(2) row_updates)
  show "n = e_retries e + 1 \<and> pg_view (after (RecordRetry PostgresStageLedger i build_stage reason) w) i
      = Some (e\<lparr>e_retries := e_retries e + 1\<rparr>)"
    if got: "value_of (RecordRetry PostgresStageLedger i build_stage reason) w = Inr n" for n
  proof -
    obtain row where row: "value_of (sql_do ?s) w = Inr (Some row)" "n = g_retry_count row"
      using got unfolding postgres_fields value_pg_RecordRetry by blast
    then obtain r' where "retry_row reason r = Some r'" "Some row = Some r'"
        "rows (after (sql_do ?s) w) (i, build_stage) = Some r'"
      using u(1) by blast
    with row show ?thesis
      using entry \<open>e_retries e = g_retry_count r\<close>
      by (auto simp: postgres_fields after_pg_RecordRetry pg_view_row retry_row_def split: if_splits)
  qed
  show "pg_view (after (RecordRetry PostgresStageLedger i build_stage reason) w) i
      \<in> {Some e, Some (e\<lparr>e_retries := e_retries e + 1\<rparr>)}"
    using u(2) entry r
    by (auto simp: postgres_fields after_pg_RecordRetry pg_view_row retry_row_def split: if_splits)
qed

end
