(* ===== verification/LedgerProps.thy ===== *)
theory LedgerProps
  imports LedgerPg Samples
begin

text \<open>
  What the ledger guarantees, stated for the code's ledgers: the facts of the contract at the
  interpretations for PostgreSQL and for memory, and that without faults a first claim succeeds.
\<close>

section \<open>Claims\<close>

text \<open>
  C9: A claim on the PostgreSQL ledger implements the abstract claim, whatever faults the database
  connection has: when it reports success its disposition and the deployment's new entry are those
  of the specification, a recorded result is handed back, and when it reports an error the entry
  is unchanged or as if the claim had succeeded. Other deployments are never affected.
\<close>

theorem pg_claim_refines:
  "let sp = claim_spec (tx_clock w) (timestamptz (env w) (tx_clock w + d)) (pg_view w i);
       w' = after (pg_Claim i build_stage d) w
   in (case value_of (pg_Claim i build_stage d) w of
         Inr (disp, rec) \<Rightarrow> disp = fst sp \<and> pg_view w' i = Some (snd sp)
           \<and> (if terminal (e_status (snd sp)) then r_ResultJSON rec = result_text (e_status (snd sp)) else True)
       | Inl e \<Rightarrow> pg_view w' i \<in> {pg_view w i, Some (snd sp)})
      \<and> pg_view w' = (pg_view w)(i := pg_view w' i)"
proof -
  have others: "pg_view (after (pg_Claim i build_stage d) w) = (pg_view w)(i := pg_view (after (pg_Claim i build_stage d) w) i)"
    using pg.others [of _ "OpClaim i d" w] by (auto simp: fun_eq_iff pg.after_run_op postgres_fields)
  show ?thesis
    using pg.claim_ok [of i d w, OF _ refl] pg.claim_any [of i d w] others
    by (auto simp: Let_def postgres_fields split: sum.splits)
qed


text \<open>A stage in progress, and one that has been completed, in the calm world.\<close>

definition running_row :: pg_row where
  "running_row = \<lparr> g_state = StateInProgress, g_attempt = 1, g_lease = Some 50, g_result = None,
     g_retry_count = 0, g_last_error = None \<rparr>"

definition running_world :: world where
  "running_world = calm_world\<lparr>rows := [(''d1'', ''build'') \<mapsto> running_row]\<rparr>"

lemma pg_text_d1 [simp]: "pg_text ''d1''" "pg_text ''d2''" "pg_text ''build''"
  by (simp_all add: pg_text_def valid_utf8_ascii is_ascii_def byte_def)

lemma running_world_simps [simp]:
  "env running_world = calm" "hist running_world = []"
  "rows running_world = [(''d1'', ''build'') \<mapsto> running_row]"
  by (simp_all add: running_world_def)

lemma running_wf: "pg_wf running_world"
  by (simp add: pg_wf_def table_ok_def row_ok_def running_row_def)

lemma run_sql_calm:
  "env w = calm \<Longrightarrow> run_state (sql_do s) w =
     (case server calm s (rows w) of
        None \<Rightarrow> (Inl (ErrText ''refused''), w\<lparr>hist := hist w @ [Sql s]\<rparr>)
      | Some (tab, row) \<Rightarrow> (Inr row, w\<lparr>hist := hist w @ [Sql s], rows := tab\<rparr>))"
  by (auto simp: sql_do_def split: option.splits)

lemmas calm_runs = run_sql_calm pg_defs pg_Claim_def pg_claim_tx_def sql_error_of_def build_stage_def
  update_row_def Let_def




text \<open>
  C35: No operation on any deployment, failing or not, ever lowers the retry counter or the attempt
  counter of a deployment, or makes its row disappear; so the limit on attempts cannot be escaped
  by releasing and claiming the stage again.
\<close>

theorem pg_counters_monotone:
  assumes "pg_wf w" and "pg_view w i = Some e"
  shows "case pg_view (run_ops PostgresStageLedger ps w) i of
      None \<Rightarrow> False
    | Some e' \<Rightarrow> e_retries e \<le> e_retries e' \<and> e_attempt e \<le> e_attempt e'"
  using pg.counters_monotone [OF assms, of ps] by auto

theorem pg_counters_monotone_witness:
  "case pg_view (run_ops PostgresStageLedger [OpRetry ''d1'' ''r'', OpRelease ''d1'', OpClaim ''d1'' 9] running_world) ''d1'' of
      None \<Rightarrow> False
    | Some e' \<Rightarrow> e_retries (row_entry running_row) \<le> e_retries e' \<and> e_attempt (row_entry running_row) \<le> e_attempt e'"
proof (rule pg_counters_monotone [OF running_wf])
  show "pg_view running_world ''d1'' = Some (row_entry running_row)"
    by (simp add: pg_view_row build_stage_def)
qed

text \<open>
  A retry record that succeeds returns the old counter plus one and stores exactly that, and
  a release that succeeds keeps both counters and makes the stage claimable at once.
\<close>

lemma pg_retry_then_release:
  assumes "pg_view w i = Some e"
    and "value_of (pg_RecordRetry i build_stage reason) w = Inr n"
    and "value_of (pg_Release i build_stage) (after (pg_RecordRetry i build_stage reason) w) = None"
  shows "n = e_retries e + 1
    \<and> pg_view (after (pg_Release i build_stage) (after (pg_RecordRetry i build_stage reason) w)) i
        = Some (e\<lparr>e_retries := n, e_status := Running None\<rparr>)
    \<and> claim_status now (Running None) = ClaimAcquired"
proof -
  have r: "n = e_retries e + 1"
    "pg_view (after (pg_RecordRetry i build_stage reason) w) i = Some (e\<lparr>e_retries := e_retries e + 1\<rparr>)"
    using pg.retry_ok [OF assms(1)] assms(2) by (simp_all add: postgres_fields)
  show ?thesis
    using pg.release_ok [OF r(2)] assms(3) r(1) by (simp add: postgres_fields lease_live_def)
qed

lemma pg_retry_then_release_instance:
  "(1::int) = e_retries (row_entry running_row) + 1
    \<and> pg_view (after (pg_Release ''d1'' build_stage) (after (pg_RecordRetry ''d1'' build_stage ''r'') running_world)) ''d1''
        = Some ((row_entry running_row)\<lparr>e_retries := 1, e_status := Running None\<rparr>)
    \<and> claim_status 0 (Running None) = ClaimAcquired"
proof (rule pg_retry_then_release)
  have t: "pg_text ''r''" by (simp add: pg_text_def valid_utf8_ascii is_ascii_def byte_def)
  show "pg_view running_world ''d1'' = Some (row_entry running_row)"
    by (simp add: pg_view_row build_stage_def)
  show "value_of (pg_RecordRetry ''d1'' build_stage ''r'') running_world = Inr 1"
    using t by (simp add: calm_runs pg_RecordRetry_def value_of_def running_row_def int4_def)
  show "value_of (pg_Release ''d1'' build_stage) (after (pg_RecordRetry ''d1'' build_stage ''r'') running_world) = None"
    using t by (simp add: calm_runs pg_RecordRetry_def value_of_def after_def running_row_def int4_def)
qed

text \<open>
  A stage a claim gets: one that is not known yet, or one in progress whose lease has run out or was
  given up. On a database that answers, and for a deployment id the database can store, the claim
  then returns and gets it.
\<close>

definition claimable :: "gotime \<Rightarrow> pg_row option \<Rightarrow> bool" where
  "claimable now found \<longleftrightarrow>
     (case found of
        None \<Rightarrow> True
      | Some row \<Rightarrow> g_state row = StateInProgress \<and> \<not> lease_live (g_lease row) now
          \<and> 0 < g_attempt row \<and> int4 (g_attempt row + 1))"

lemma run_sql_answering:
  assumes "sql_fault (env w) = (\<lambda>h s. None)"
  shows "run_state (sql_do s) w = (case server (env w) s (rows w) of
        None \<Rightarrow> (Inl (ErrText (sql_error (env w) s)), w\<lparr>hist := hist w @ [Sql s]\<rparr>)
      | Some (tab, row) \<Rightarrow> (Inr row, w\<lparr>hist := hist w @ [Sql s], rows := tab\<rparr>))"
  using assms by (auto simp: sql_do_def split: option.splits)

lemma pg_claim_succeeds:
  assumes "sql_fault (env w) = (\<lambda>h s. None)" and "pg_text i" and "claimable (tx_clock w) (rows w (i, build_stage))"
  shows "\<exists>rec. value_of (pg_Claim i build_stage d) w = Inr (ClaimAcquired, rec)"
  using assms
  by (cases "rows w (i, build_stage)")
    (auto simp: pg_Claim_def pg_claim_tx_def value_of_def Let_def tx_clock_def run_sql_answering record_of_row_def
      stage_states claimable_def update_row_def build_stage_def)

lemma pg_first_claim_succeeds:
  assumes "sql_fault (env w) = (\<lambda>h s. None)" and "pg_text i" and "rows w (i, build_stage) = None"
  shows "value_of (pg_Claim i build_stage d) w =
      Inr (ClaimAcquired, \<lparr> r_DeploymentID = i, r_Stage = build_stage, r_State = StateInProgress,
        r_Attempt = 1, r_RetryCount = 0, r_LeaseExpiresAt = Some (tx_clock w + d), r_ResultJSON = None \<rparr>)"
  using assms
  by (simp add: pg_Claim_def pg_claim_tx_def value_of_def Let_def tx_clock_def run_sql_answering build_stage_def)

lemma pg_first_claim_succeeds_instance:
  "value_of (pg_Claim ''d1'' build_stage 5) calm_world =
      Inr (ClaimAcquired, \<lparr> r_DeploymentID = ''d1'', r_Stage = build_stage, r_State = StateInProgress,
        r_Attempt = 1, r_RetryCount = 0, r_LeaseExpiresAt = Some (tx_clock calm_world + 5), r_ResultJSON = None \<rparr>)"
  by (rule pg_first_claim_succeeds) (simp_all add: calm_def)

text \<open>
  The ledger in memory is equivalent to the specification of a claim as well: it always
  succeeds, and answers and stores what the specification says.
\<close>

lemma mem_claim_refines:
  "let sp = claim_spec (first_clock w) (first_clock w + d) (mem_view w i)
   in case value_of (mem_Claim i build_stage d) w of
        Inl e \<Rightarrow> False
      | Inr (disp, rec) \<Rightarrow> disp = fst sp
          \<and> mem_view (after (mem_Claim i build_stage d) w) = (mem_view w)(i \<mapsto> snd sp)"
proof -
  have "mem_view (after (mem_Claim i build_stage d) w) = (mem_view w)(i := mem_view (after (mem_Claim i build_stage d) w) i)"
    using mem.others [of _ "OpClaim i d" w] by (auto simp: fun_eq_iff mem.after_run_op memory_fields)
  then show ?thesis
    using mem_claim [of _ w d i, OF refl] by (auto simp: Let_def value_of_def)
qed

end
