(* ===== verification/JsonRoundtrip.thy ===== *)
theory JsonRoundtrip
  imports Json
begin

text \<open>
  Reading back what was written: for every document whose strings are well-formed UTF-8, whose
  numbers are integers and whose nesting stays within the decoder's limit, the parser returns
  exactly the document the printer wrote.
\<close>

section \<open>Strings\<close>

lemma byte_consts [simp]: "byte dquote = 0x22" "byte backslash = 0x5C" "byte (CHR ''u'') = 117"
  by (simp_all add: byte_def dquote_def backslash_def)

lemma dquote_neq_backslash [simp]: "dquote \<noteq> backslash" "backslash \<noteq> dquote"
  by (simp_all add: dquote_def backslash_def)

lemma hex_val_hex_digit [simp]: "n < 16 \<Longrightarrow> hex_val (hex_digit n) = Some n"
  by (auto simp: hex_val_def hex_digit_def is_digit_def)

definition hex_string :: "nat \<Rightarrow> string" where
  "hex_string r = [hex_digit (r div 4096 mod 16), hex_digit (r div 256 mod 16),
     hex_digit (r div 16 mod 16), hex_digit (r mod 16)]"

lemma unicode_escape_hex: "unicode_escape r = backslash # CHR ''u'' # hex_string r"
  by (simp add: unicode_escape_def hex_string_def)

lemma hex4_hex_digits:
  "a < 16 \<Longrightarrow> b < 16 \<Longrightarrow> c < 16 \<Longrightarrow> d < 16 \<Longrightarrow>
     hex4 (hex_digit a # hex_digit b # hex_digit c # hex_digit d # t)
       = Some (((a * 16 + b) * 16 + c) * 16 + d, t)"
  by simp

lemma hex4_hex_string:
  assumes "r < 65536"
  shows "hex4 (hex_string r @ t) = Some (r, t)"
proof -
  have e: "r div 4096 = r div 16 div 16 div (16::nat)" "r div 256 = r div 16 div (16::nat)"
    by (simp_all flip: div_mult2_eq)
  have "r div 4096 < 16" using assms by (simp add: less_mult_imp_div_less)
  then have m: "r div 4096 mod 16 = r div 4096" by simp
  have "((r div 4096 * 16 + r div 256 mod 16) * 16 + r div 16 mod 16) * 16 + r mod 16 = r"
    unfolding e by (simp only: div_mult_mod_eq)
  moreover have "hex4 (hex_string r @ t) =
      Some (((r div 4096 mod 16 * 16 + r div 256 mod 16) * 16 + r div 16 mod 16) * 16 + r mod 16, t)"
    unfolding hex_string_def append_Cons append_Nil by (rule hex4_hex_digits) simp_all
  ultimately show ?thesis unfolding m by (simp only:)
qed

lemma string_body_dquote [simp]: "string_body (dquote # t) = Some ([], t)"
  by (simp add: string_body.simps)

lemma string_body_simple:
  "simple_escape e = Some b \<Longrightarrow>
     string_body (backslash # e # t) = map_option (apfst ((@) [b])) (string_body t)"
  by (simp add: string_body.simps(2) [of backslash])

lemma simple_escape_u: "simple_escape (CHR ''u'') = None"
  by (simp add: simple_escape_def dquote_def backslash_def)

lemma string_body_unicode:
  assumes "r < 65536" "scalar r"
  shows "string_body (unicode_escape r @ t) = map_option (apfst ((@) (encode_rune r))) (string_body t)"
proof -
  have "surrogate_rune r t = (r, t)"
    using assms(2) by (auto simp: surrogate_rune_def scalar_def)
  then show ?thesis
    using assms(1)
    by (simp add: unicode_escape_hex string_body.simps(2) [of backslash] simple_escape_u hex4_hex_string)
qed

lemma string_body_rune:
  assumes "scalar r" "0x20 \<le> r" "r \<noteq> 0x22" "r \<noteq> 0x5C"
  shows "string_body (encode_rune r @ t) = map_option (apfst ((@) (encode_rune r))) (string_body t)"
proof -
  obtain c cs where e: "encode_rune r = c # cs" by (cases "encode_rune r") auto
  have c: "c \<in> set (encode_rune r)" by (simp add: e)
  have ne: "c \<noteq> dquote" "c \<noteq> backslash"
    using c ascii_in_encode_rune [OF assms(1), of c] assms(3,4) by auto
  have lo: "\<not> byte c < 0x20"
    using c ascii_in_encode_rune [OF assms(1), of c] assms(2) by auto
  have "DecodeRune (c # cs @ t) = (r, length (encode_rune r))"
    using DecodeRune_encode_rune [OF assms(1), of t] by (simp add: e)
  then show ?thesis
    using ne lo by (simp add: e string_body.simps(2) [of c "cs @ t"])
qed

lemma escape_chars:
  "simple_escape (char_of (0x22::nat)) = Some (char_of (0x22::nat))"
  "simple_escape (char_of (0x5C::nat)) = Some (char_of (0x5C::nat))"
  "simple_escape (CHR ''b'') = Some (char_of (8::nat))"
  "simple_escape (CHR ''f'') = Some (char_of (12::nat))"
  "simple_escape (CHR ''n'') = Some (char_of (10::nat))"
  "simple_escape (CHR ''r'') = Some (char_of (13::nat))"
  "simple_escape (CHR ''t'') = Some (char_of (9::nat))"
proof -
  have d: "char_of (0x22::nat) = dquote" "char_of (0x5C::nat) = backslash"
    by (metis byte_consts char_of_byte)+
  show "simple_escape (char_of (0x22::nat)) = Some (char_of (0x22::nat))"
    "simple_escape (char_of (0x5C::nat)) = Some (char_of (0x5C::nat))"
    unfolding d by (simp_all add: simple_escape_def)
qed (simp_all add: simple_escape_def dquote_def backslash_def)

lemma string_body_quote_piece:
  assumes "scalar r"
  shows "string_body (quote_piece (r, encode_rune r) @ t)
    = map_option (apfst ((@) (encode_rune r))) (string_body t)"
proof -
  have ok: "ok_piece (r, encode_rune r)" using assms by (rule encode_rune_ok_piece)
  consider (esc) "r \<in> {0x22, 0x5C, 8, 12, 10, 13, 9}"
    | (uni) "r \<notin> {0x22, 0x5C, 8, 12, 10, 13, 9}" "r < 0x20 \<or> r \<in> {0x26, 0x3C, 0x3E, 0x2028, 0x2029}"
    | (raw) "r \<notin> {0x22, 0x5C}" "\<not> (r < 0x20 \<or> r \<in> {0x26, 0x3C, 0x3E, 0x2028, 0x2029})"
    by blast
  then show ?thesis
  proof cases
    case esc
    then have "encode_rune r = [char_of r]" by (auto simp: encode_rune_def)
    then show ?thesis
      using esc ok by (auto simp: quote_piece_def string_body_simple escape_chars)
  next
    case uni
    then have "quote_piece (r, encode_rune r) = unicode_escape r" and "r < 65536"
      using ok by (auto simp: quote_piece_def)
    then show ?thesis using string_body_unicode assms by simp
  next
    case raw
    then have "quote_piece (r, encode_rune r) = encode_rune r"
      using ok by (auto simp: quote_piece_def)
    then show ?thesis using string_body_rune assms raw by simp
  qed
qed

lemma string_body_runes:
  "list_all scalar rs \<Longrightarrow>
     string_body (concat (map quote_piece (map (\<lambda>r. (r, encode_rune r)) rs)) @ dquote # t)
       = Some (string_of_runes rs, t)"
  by (induction rs) (simp_all add: string_body_quote_piece)

lemma string_body_quoted:
  assumes "valid_utf8 s"
  shows "string_body (concat (map quote_piece (pieces s)) @ dquote # t) = Some (s, t)"
  using string_body_runes [OF valid_utf8_runes(1) [OF assms], of t]
    pieces_string_of_runes [OF valid_utf8_runes(1) [OF assms], of "[]"]
  by (simp add: valid_utf8_runes(2) [OF assms])

section \<open>Numbers\<close>

definition delim :: "string \<Rightarrow> bool" where
  "delim t \<longleftrightarrow> t = [] \<or> hd t \<in> {CHR '','', CHR '']'', CHR ''}''}"

lemma digit_span:
  "list_all is_digit ds \<Longrightarrow> t = [] \<or> \<not> is_digit (hd t) \<Longrightarrow>
     takeWhile is_digit (ds @ t) = ds \<and> dropWhile is_digit (ds @ t) = t"
  by (cases t) (auto simp: list_all_iff takeWhile_append2 dropWhile_append2)

lemma leading_zero: "hd (digits_of_nat n) = CHR ''0'' \<Longrightarrow> length (digits_of_nat n) = 1"
proof (induction n rule: digits_of_nat.induct)
  case (1 n)
  show ?case
  proof (cases "n < 10")
    case True
    then show ?thesis by (simp add: digits_of_nat.simps [of n])
  next
    case False
    then have "hd (digits_of_nat (n div 10)) = CHR ''0''"
      using "1.prems" by (simp add: digits_of_nat.simps [of n])
    then have "length (digits_of_nat (n div 10)) = 1" using "1.IH" False by blast
    then have "n div 10 < 10" "hd (digits_of_nat (n div 10)) = char_of (48 + n div 10)"
      by (auto simp: digits_of_nat.simps [of "n div 10"] split: if_splits)
    then have "char_of (48 + n div 10) = CHR ''0''"
      using \<open>hd (digits_of_nat (n div 10)) = CHR ''0''\<close> by simp
    then have "48 + n div 10 = byte (CHR ''0'')"
      using \<open>n div 10 < 10\<close> byte_char_of [of "48 + n div 10"] by simp
    then show ?thesis using False by (simp add: byte_def)
  qed
qed

lemma delim_no_tail: "delim t \<Longrightarrow> json_frac t = [] \<and> json_exp t = []"
  by (auto simp: delim_def json_frac_def json_exp_def)

lemma json_number_digits:
  assumes "delim t" and ds: "list_all is_digit ds" "ds \<noteq> []" "\<not> (hd ds = CHR ''0'' \<and> 1 < length ds)"
    and sg: "sg = ''-'' \<or> sg = [] \<and> hd ds \<noteq> CHR ''-''"
  shows "json_number (sg @ ds @ t) = Some (sg @ ds, t)"
proof -
  have "t = [] \<or> \<not> is_digit (hd t)"
    using assms(1) by (auto simp: delim_def is_digit_def byte_def)
  note span = digit_span [OF ds(1) this]
  have "(if sg @ ds @ t \<noteq> [] \<and> hd (sg @ ds @ t) = CHR ''-'' then ''-'' else []) = sg"
    using sg ds(2) by auto
  then show ?thesis
    using ds(2,3) span delim_no_tail [OF assms(1)] by (auto simp: json_number_def)
qed

lemma json_number_Itoa:
  assumes "delim t"
  shows "json_number (Itoa i @ t) = Some (Itoa i, t)"
proof -
  let ?ds = "digits_of_nat (nat \<bar>i\<bar>)"
  let ?sg = "if i < 0 then ''-'' else []"
  have I: "Itoa i = ?sg @ ?ds" by (simp add: Itoa_def)
  have h: "hd ?ds \<noteq> CHR ''-''"
    using minus_not_digit [of "nat \<bar>i\<bar>"] by (metis digits_of_nat_neq_Nil hd_in_set)
  have "json_number (?sg @ ?ds @ t) = Some (?sg @ ?ds, t)"
  proof (rule json_number_digits [OF assms])
    show "list_all is_digit ?ds" using digits_of_nat_digits by (auto simp: list_all_iff)
    show "\<not> (hd ?ds = CHR ''0'' \<and> 1 < length ?ds)" using leading_zero by auto
    show "?sg = ''-'' \<or> ?sg = [] \<and> hd ?ds \<noteq> CHR ''-''" using h by auto
  qed simp
  then show ?thesis unfolding I by simp
qed

section \<open>Documents\<close>

text \<open>The documents that round-trip; the argument is the nesting still allowed.\<close>

definition int_literal :: "string \<Rightarrow> bool" where
  "int_literal lit \<longleftrightarrow> (case Atoi lit of None \<Rightarrow> False | Some i \<Rightarrow> lit = Itoa i)"

fun json_ok :: "nat \<Rightarrow> json \<Rightarrow> bool" where
  "json_ok n JNull = True"
| "json_ok n (JBool b) = True"
| "json_ok n (JNum lit) = int_literal lit"
| "json_ok n (JStr s) = valid_utf8 s"
| "json_ok n (JArr vs) = (0 < n \<and> list_all (json_ok (n - 1)) vs)"
| "json_ok n (JObj kvs) =
     (0 < n \<and> list_all (\<lambda>kv. valid_utf8 (fst kv) \<and> json_ok (n - 1) (snd kv)) kvs)"

lemma skip_ws_Cons: "\<not> json_space c \<Longrightarrow> skip_ws (c # s) = c # s"
  by (simp add: skip_ws_def)

lemma not_space [simp]:
  "\<not> json_space (CHR ''{'')" "\<not> json_space (CHR ''}'')" "\<not> json_space (CHR ''['')"
  "\<not> json_space (CHR '']'')" "\<not> json_space (CHR '','')" "\<not> json_space (CHR '':'')"
  "\<not> json_space (CHR ''n'')" "\<not> json_space (CHR ''t'')" "\<not> json_space (CHR ''f'')"
  "\<not> json_space dquote"
  by (simp_all add: json_space_def byte_def dquote_def)

text \<open>The first character of a printed document decides how the reader goes on.\<close>

lemma Itoa_hd: "\<exists>c s. Itoa i = c # s \<and> \<not> json_space c \<and> (c = CHR ''-'' \<or> is_digit c)"
proof -
  have "\<exists>c s. digits_of_nat n = c # s \<and> is_digit c" for n
    using digits_of_nat_digits [of _ n] by (cases "digits_of_nat n") auto
  moreover have "is_digit c \<Longrightarrow> \<not> json_space c" for c
    by (auto simp: is_digit_def json_space_def)
  moreover have "\<not> json_space (CHR ''-'')" by (simp add: json_space_def byte_def)
  ultimately show ?thesis
    by (cases "i < 0") (simp_all add: Itoa_def, metis)
qed

definition print_head :: "json \<Rightarrow> char \<Rightarrow> bool" where
  "print_head j c \<longleftrightarrow> \<not> json_space c \<and> c \<noteq> CHR '']'' \<and> c \<noteq> CHR ''}''"

lemma print_json_hd: "json_ok n j \<Longrightarrow> \<exists>c s. print_json j = c # s \<and> print_head j c"
proof (cases j)
  case (JNum lit)
  assume "json_ok n j"
  with JNum obtain i where "lit = Itoa i" by (auto simp: int_literal_def split: option.splits)
  then show ?thesis using Itoa_hd [of i] JNum
    by (auto simp: print_head_def is_digit_def byte_def)
qed (auto simp: print_head_def quote_def dquote_def json_space_def byte_def)

lemma skip_ws_print: "json_ok n j \<Longrightarrow> skip_ws (print_json j @ t) = print_json j @ t"
  using print_json_hd [of n j] by (auto simp: print_head_def skip_ws_Cons)

lemma delim_simps [simp]:
  "delim []" "delim (CHR '','' # t)" "delim (CHR '']'' # t)" "delim (CHR ''}'' # t)"
  by (simp_all add: delim_def)

lemma jelems_print:
  assumes "\<And>v n t. v \<in> set vs \<Longrightarrow> 2 * length (print_json v) \<le> n \<Longrightarrow> delim t \<Longrightarrow>
      jvalue n d (print_json v @ t) = Some (v, t)"
    and "vs \<noteq> []" and "2 * length (Join (map print_json vs) '','') + 1 \<le> n"
  shows "jelems n d (Join (map print_json vs) '','' @ CHR '']'' # t) = Some (vs, t)"
  using assms
proof (induction vs arbitrary: n)
  case (Cons v vs)
  then obtain m where n: "n = Suc m" by (cases n) auto
  show ?case
  proof (cases "vs = []")
    case True
    then show ?thesis
      using Cons.prems(1) [of v m "CHR '']'' # t"] Cons.prems(3) by (simp add: n skip_ws_Cons)
  next
    case False
    have J: "Join (map print_json (v # vs)) '',''
        = print_json v @ CHR '','' # Join (map print_json vs) '',''"
      using False by (simp add: Join_Cons)
    have "jvalue m d (print_json v @ CHR '','' # Join (map print_json vs) '','' @ CHR '']'' # t)
        = Some (v, CHR '','' # Join (map print_json vs) '','' @ CHR '']'' # t)"
      using Cons.prems(1) [of v m] Cons.prems(3) unfolding J n by simp
    moreover have "jelems m d (Join (map print_json vs) '','' @ CHR '']'' # t) = Some (vs, t)"
    proof (rule Cons.IH)
      show "2 * length (Join (map print_json vs) '','') + 1 \<le> m"
        using Cons.prems(3) unfolding J n by simp
    qed (use Cons.prems(1) False in simp_all)
    ultimately show ?thesis unfolding J n by (simp add: skip_ws_Cons)
  qed
qed simp

definition print_member :: "string \<times> json \<Rightarrow> string" where
  "print_member kv = quote (fst kv) @ '':'' @ print_json (snd kv)"

lemma print_json_JObj: "print_json (JObj kvs) = ''{'' @ Join (map print_member kvs) '','' @ ''}''"
  by (simp add: print_member_def cong: map_cong)

lemma jmember_print:
  assumes "valid_utf8 (fst kv)"
    and "jvalue m d (print_json (snd kv) @ t) = Some (snd kv, t)"
    and "t = CHR '','' # u \<or> t = CHR ''}'' # u"
    and "\<And>r. skip_ws (print_json (snd kv) @ r) = print_json (snd kv) @ r"
  shows "jmembers (Suc m) d (print_member kv @ t) =
    (if hd t = CHR '','' then map_option (apfst ((#) kv)) (jmembers m d u) else Some ([kv], u))"
proof -
  have s: "string_body (concat (map quote_piece (pieces (fst kv))) @ dquote # r) = Some (fst kv, r)" for r
    using assms(1) by (rule string_body_quoted)
  show ?thesis
    using assms(2,3) by (auto simp: print_member_def quote_def skip_ws_Cons s)
qed

lemma jmembers_print:
  assumes "\<And>kv n t. kv \<in> set kvs \<Longrightarrow> 2 * length (print_json (snd kv)) \<le> n \<Longrightarrow> delim t \<Longrightarrow>
      jvalue n d (print_json (snd kv) @ t) = Some (snd kv, t)"
    and "\<And>kv. kv \<in> set kvs \<Longrightarrow> valid_utf8 (fst kv) \<and> json_ok k (snd kv)"
    and "kvs \<noteq> []" and "2 * length (Join (map print_member kvs) '','') + 1 \<le> n"
  shows "jmembers n d (Join (map print_member kvs) '','' @ CHR ''}'' # t) = Some (kvs, t)"
  using assms
proof (induction kvs arbitrary: n)
  case (Cons kv kvs)
  then obtain m where n: "n = Suc m" by (cases n) auto
  have ok: "valid_utf8 (fst kv)" and sp: "skip_ws (print_json (snd kv) @ r) = print_json (snd kv) @ r" for r
    using Cons.prems(2) [of kv] skip_ws_print by auto
  show ?case
  proof (cases "kvs = []")
    case True
    then have "2 * length (print_json (snd kv)) \<le> m"
      using Cons.prems(4) by (simp add: n print_member_def quote_def)
    then have "jvalue m d (print_json (snd kv) @ CHR ''}'' # t) = Some (snd kv, CHR ''}'' # t)"
      using Cons.prems(1) by simp
    from jmember_print [OF ok this _ sp] show ?thesis using True by (simp add: n)
  next
    case False
    have J: "Join (map print_member (kv # kvs)) '',''
        = print_member kv @ CHR '','' # Join (map print_member kvs) '',''"
      using False by (simp add: Join_Cons)
    let ?t = "CHR '','' # Join (map print_member kvs) '','' @ CHR ''}'' # t"
    have m: "2 * length (print_member kv) + 2 * length (Join (map print_member kvs) '','') + 2 \<le> m"
      using Cons.prems(4) unfolding J n by simp
    then have "jvalue m d (print_json (snd kv) @ ?t) = Some (snd kv, ?t)"
      using Cons.prems(1) [of kv m ?t] by (simp add: print_member_def)
    note step = jmember_print [OF ok this _ sp]
    have "jmembers m d (Join (map print_member kvs) '','' @ CHR ''}'' # t) = Some (kvs, t)"
      by (rule Cons.IH) (use Cons.prems(1,2) False m in simp_all)
    then show ?thesis unfolding J n using step by simp
  qed
qed simp

lemma jvalue_Itoa:
  assumes "delim t"
  shows "jvalue (Suc n) d (Itoa i @ t) = Some (JNum (Itoa i), t)"
proof -
  obtain c s where c: "Itoa i = c # s" "\<not> json_space c" "c = CHR ''-'' \<or> is_digit c"
    using Itoa_hd [of i] by blast
  then have "c \<notin> {CHR ''{'', CHR ''['', dquote, CHR ''n'', CHR ''t'', CHR ''f''}"
    by (auto simp: is_digit_def byte_def dquote_def)
  then show ?thesis using c json_number_Itoa [OF assms, of i] by (simp add: skip_ws_Cons)
qed

lemma no_close:
  assumes "c \<noteq> x" "\<not> json_space c"
  shows "\<not> prefix [x] (skip_ws (c # s))"
  using assms by (simp add: skip_ws_Cons)

lemma jvalue_print:
  "json_ok k j \<Longrightarrow> k + d = maxNestingDepth \<Longrightarrow> 2 * length (print_json j) \<le> n \<Longrightarrow> delim t \<Longrightarrow>
     jvalue n d (print_json j @ t) = Some (j, t)"
proof (induction j arbitrary: k d n t)
  case JNull
  then show ?case by (cases n) (auto simp: skip_ws_Cons literal_def dquote_def)
next
  case (JBool b)
  then show ?case by (cases n; cases b) (auto simp: skip_ws_Cons literal_def dquote_def)
next
  case (JNum lit)
  then obtain i where i: "lit = Itoa i" by (auto simp: int_literal_def split: option.splits)
  obtain m where "n = Suc m" using JNum.prems(3) Itoa_hd [of i] i by (cases n) auto
  then show ?case using jvalue_Itoa [OF JNum.prems(4)] i by simp
next
  case (JStr s)
  then obtain m where "n = Suc m" by (cases n) (auto simp: quote_def)
  then show ?case
    using JStr.prems(1) by (simp add: quote_def skip_ws_Cons string_body_quoted) (simp add: dquote_def)
next
  case (JArr vs)
  then obtain m where n: "n = Suc m" and m: "2 * length (Join (map print_json vs) '','') + 3 \<le> m"
    by (cases n) auto
  obtain k' where k: "k = Suc k'" using JArr.prems(1) by (cases k) auto
  have elems: "jelems m (Suc d) (Join (map print_json vs) '','' @ CHR '']'' # t) = Some (vs, t)"
    if "vs \<noteq> []"
    by (rule jelems_print) (use JArr.IH JArr.prems that m k in \<open>auto simp: list_all_iff\<close>)
  show ?case
  proof (cases vs)
    case Nil
    then show ?thesis using JArr.prems(2) k by (simp add: n skip_ws_Cons)
  next
    case (Cons v vs')
    then obtain c s where c: "print_json v = c # s" "print_head v c"
      using print_json_hd [of k' v] JArr.prems(1) k by auto
    then have "\<exists>s. Join (map print_json vs) '','' = c # s" using Cons by (cases vs') auto
    then have "\<not> prefix '']'' (skip_ws (Join (map print_json vs) '','' @ CHR '']'' # t))"
      using c(2) no_close by (auto simp: print_head_def)
    then show ?thesis using elems Cons JArr.prems(2) k by (simp add: n skip_ws_Cons)
  qed
next
  case (JObj kvs)
  obtain m where n: "n = Suc m" and m: "2 * length (Join (map print_member kvs) '','') + 3 \<le> m"
    using JObj.prems(3) unfolding print_json_JObj by (cases n) auto
  obtain k' where k: "k = Suc k'" using JObj.prems(1) by (cases k) auto
  have members: "jmembers m (Suc d) (Join (map print_member kvs) '','' @ CHR ''}'' # t) = Some (kvs, t)"
    if "kvs \<noteq> []"
  proof (rule jmembers_print [where k = k'])
    fix kv n t
    assume kv: "kv \<in> set kvs" and "2 * length (print_json (snd kv)) \<le> n" "delim t"
    then show "jvalue n (Suc d) (print_json (snd kv) @ t) = Some (snd kv, t)"
      using JObj.IH [of kv "snd kv" k' "Suc d" n t] JObj.prems(1,2) k
      by (auto simp: list_all_iff snds.simps)
  qed (use JObj.prems(1) that m k in \<open>auto simp: list_all_iff\<close>)
  show ?case
  proof (cases kvs)
    case Nil
    then show ?thesis using JObj.prems(2) k by (simp add: n skip_ws_Cons)
  next
    case (Cons kv kvs')
    then have "\<exists>s. Join (map print_member kvs) '','' = dquote # s"
      by (cases kvs') (auto simp: print_member_def quote_def)
    then have "\<not> prefix ''}'' (skip_ws (Join (map print_member kvs) '','' @ CHR ''}'' # t))"
      using no_close [of dquote "CHR ''}''"] by (auto simp: dquote_def json_space_def byte_def)
    then show ?thesis
      unfolding print_json_JObj using members Cons JObj.prems(2) k by (simp add: n skip_ws_Cons)
  qed
qed

lemma parse_print_json: "json_ok maxNestingDepth j \<Longrightarrow> parse_json (print_json j) = Some j"
  using jvalue_print [of maxNestingDepth j 0 "2 * length (print_json j) + 2" "[]"]
  by (simp add: parse_json_def skip_ws_def)

end
