(* ===== verification/EventFacts.thy ===== *)
theory EventFacts
  imports Events JsonRoundtrip
begin

text \<open>
  Facts about events: the identity of an event, and the round trip of a stored result through its
  JSON text.
\<close>

section \<open>Event ids\<close>

definition lower_letter :: "char \<Rightarrow> bool" where
  "lower_letter c \<longleftrightarrow> 97 \<le> byte c \<and> byte c \<le> 122"

text \<open>The status part of an identity: what the constructors put after the stage.\<close>

definition status_text :: "string \<Rightarrow> bool" where
  "status_text s \<longleftrightarrow> s \<in> {buildingStatus, buildSucceededStatus, buildFailedStatus}
     \<or> (\<exists>n. s = buildRetryingStatus @ '':'' @ Itoa n)"

lemma Itoa_no_letter: "c \<in> set (Itoa n) \<Longrightarrow> \<not> lower_letter c"
  by (auto simp: Itoa_def lower_letter_def is_digit_def byte_minus split: if_splits
      dest!: digits_of_nat_digits)

lemma status_no_letter: "status_text s \<Longrightarrow> c \<in> set s \<Longrightarrow> \<not> lower_letter c"
  by (auto simp: status_text_def buildingStatus_def buildSucceededStatus_def buildFailedStatus_def
      buildRetryingStatus_def lower_letter_def byte_def dest!: Itoa_no_letter)

text \<open>The status is what follows the last lower-case letter and a colon.\<close>

definition after_last_letter :: "string \<Rightarrow> string" where
  "after_last_letter x = rev (takeWhile (\<lambda>c. \<not> lower_letter c) (rev x))"

definition identity_text :: "string \<Rightarrow> string \<Rightarrow> string" where
  "identity_text d s = d @ '':'' @ ''build'' @ '':'' @ s"

lemma status_recovered:
  assumes "status_text s"
  shows "after_last_letter (identity_text d s) = '':'' @ s"
proof -
  have "takeWhile (\<lambda>c. \<not> lower_letter c) (rev ('':'' @ s) @ CHR ''d'' # x) = rev ('':'' @ s)" for x
    using status_no_letter [OF assms]
    by (subst takeWhile_append2) (auto simp: lower_letter_def byte_def)
  from this [of "rev (d @ '':'' @ ''buil'')"] show ?thesis
    by (simp add: after_last_letter_def identity_text_def)
qed

lemma identity_inject:
  assumes "status_text s" "status_text s'" and "identity_text d s = identity_text d' s'"
  shows "d = d' \<and> s = s'"
proof -
  have "'':'' @ s = '':'' @ s'"
    using status_recovered [OF assms(1), of d] status_recovered [OF assms(2), of d'] assms(3) by metis
  then show ?thesis using assms(3) by (simp add: identity_text_def)
qed


section \<open>The stored result\<close>

lemma field_is_refl [simp]: "field_is k k"
  by (simp add: field_is_def)

lemma field_is_length: "is_ascii a \<Longrightarrow> is_ascii b \<Longrightarrow> length a \<noteq> length b \<Longrightarrow> \<not> field_is a b"
  unfolding field_is_def fold_name_def by (metis length_map runes_of_ascii)

lemma bundle_keys_ascii:
  "is_ascii ''serviceRoutingKey''" "is_ascii ''serviceEvent''" "is_ascii ''progressRoutingKey''"
  "is_ascii ''progressEvent''"
  by (simp_all add: byte_def)

lemma field_names:
  "\<not> field_is ''serviceRoutingKey'' ''serviceEvent''"
  "\<not> field_is ''serviceRoutingKey'' ''progressRoutingKey''" "\<not> field_is ''serviceEvent'' ''progressRoutingKey''"
  "\<not> field_is ''serviceRoutingKey'' ''progressEvent''" "\<not> field_is ''serviceEvent'' ''progressEvent''"
  "\<not> field_is ''progressRoutingKey'' ''progressEvent''"
  by (rule field_is_length [OF bundle_keys_ascii(1,2)] field_is_length [OF bundle_keys_ascii(1,3)]
      field_is_length [OF bundle_keys_ascii(2,3)] field_is_length [OF bundle_keys_ascii(1,4)]
      field_is_length [OF bundle_keys_ascii(2,4)] field_is_length [OF bundle_keys_ascii(3,4)]; simp)+

lemma decode_bundle_json:
  "decode_struct bundle_field
     (bundle_json \<lparr>b_ServiceRoutingKey = sk, b_ServiceEvent = Some s, b_ProgressRoutingKey = pk, b_ProgressEvent = Some p\<rparr>)
     zero_bundle
   = Some \<lparr>b_ServiceRoutingKey = sk, b_ServiceEvent = Some s, b_ProgressRoutingKey = pk, b_ProgressEvent = Some p\<rparr>"
  by (simp add: bundle_json_def decode_struct_def bundle_field_def field_names as_string_def req_def
      raw_json_def zero_bundle_def)

text \<open>The events this program makes, in a form that survives being stored.\<close>

definition sendable :: "outbound \<Rightarrow> bool" where
  "sendable x \<longleftrightarrow> (case outbound_json x of Inl e \<Rightarrow> False | Inr j \<Rightarrow> json_ok 9999 j)"

text \<open>The text stored for two events decodes to the keys and the documents it was made from.\<close>

lemma stored_result_roundtrip:
  assumes "makeBuildResultEvents sk x pk y = Inr b" and "sendable x" and "sendable y"
    and "valid_utf8 sk" and "valid_utf8 pk"
  shows "decode_bundle (print_json (bundle_json b)) = Some b
    \<and> outbound_json x = Inr (raw_json (b_ServiceEvent b))
    \<and> outbound_json y = Inr (raw_json (b_ProgressEvent b))"
proof -
  obtain s p where j: "outbound_json x = Inr s" "outbound_json y = Inr p"
    and b: "b = \<lparr>b_ServiceRoutingKey = sk, b_ServiceEvent = Some s, b_ProgressRoutingKey = pk, b_ProgressEvent = Some p\<rparr>"
    using assms(1) by (auto simp: makeBuildResultEvents_def split: sum.splits)
  have key: "valid_utf8 ''serviceRoutingKey''" "valid_utf8 ''serviceEvent''"
    "valid_utf8 ''progressRoutingKey''" "valid_utf8 ''progressEvent''"
    using bundle_keys_ascii by (blast intro: valid_utf8_ascii)+
  have "json_ok maxNestingDepth (bundle_json b)"
    using assms(2-5) j key
    by (simp add: b bundle_json_def req_def raw_json_def sendable_def maxNestingDepth_def)
  then have "parse_json (print_json (bundle_json b)) = Some (bundle_json b)"
    by (rule parse_print_json)
  then show ?thesis
    using j decode_bundle_json unfolding decode_bundle_def b by (simp add: raw_json_def)
qed

section \<open>What decoding guarantees\<close>

lemma valid_utf8_append: "valid_utf8 s \<Longrightarrow> valid_utf8 t \<Longrightarrow> valid_utf8 (s @ t)"
  using valid_utf8_runes [of s] valid_utf8_runes [of t] valid_utf8_string_of_runes [of "runes s @ runes t"]
  by simp

lemma valid_encode_rune: "scalar r \<Longrightarrow> valid_utf8 (encode_rune r)"
  using valid_utf8_string_of_runes [of "[r]"] by simp

lemma scalar_DecodeRune: "s \<noteq> [] \<Longrightarrow> scalar (fst (DecodeRune s))"
  using DecodeRune_ok [of s] by (cases "fst (DecodeRune s) = RuneError") (auto simp: scalar_def RuneError_def)

lemma hex_val_less: "hex_val c = Some v \<Longrightarrow> v < 16"
  by (auto simp: hex_val_def is_digit_def split: if_splits)

lemma hex4_less: "hex4 s = Some (u, t) \<Longrightarrow> u < 65536"
  by (cases s rule: hex4.cases) (auto split: option.splits dest!: hex_val_less)

lemma scalar_surrogate_rune: "u < 65536 \<Longrightarrow> scalar (fst (surrogate_rune u s))"
  by (auto simp: surrogate_rune_def scalar_def RuneError_def split: option.splits)

lemma simple_escape_ascii: "simple_escape e = Some c \<Longrightarrow> byte c < 0x80"
  by (auto simp: simple_escape_def byte_def dquote_def backslash_def split: if_splits)

lemma string_body_valid: "string_body s = Some (x, t) \<Longrightarrow> valid_utf8 x"
proof (induction s arbitrary: x t rule: string_body.induct)
  case (2 c s)
  have nil: "valid_utf8 []" by (simp add: valid_utf8_def)
  show ?case
  proof (cases "c = dquote")
    case True
    then show ?thesis using 2 nil by (simp add: string_body.simps(2) [of c])
  next
    case nq: False
    show ?thesis
    proof (cases "c = backslash")
      case True
      then have y: "s \<noteq> []"
        using 2(4) nq by (auto simp: string_body.simps(2) [of backslash] split: if_splits)
      show ?thesis
      proof (cases "simple_escape (hd s)")
        case (Some b)
        then obtain z where "string_body (tl s) = Some (z, t)" "x = b # z"
          using 2(4) nq True y by (auto simp: string_body.simps(2) [of backslash])
        moreover have "valid_utf8 [b]"
          using simple_escape_ascii [OF Some] by (simp add: valid_utf8_ascii)
        ultimately show ?thesis
          using 2(2) [OF nq True y Some] valid_utf8_append [of "[b]" z] by simp
      next
        case None
        then obtain u v where uv: "hex4 (tl s) = Some (u, v)" "hd s = CHR ''u''"
          using 2(4) nq True y
          by (auto simp: string_body.simps(2) [of backslash] split: if_splits option.splits)
        then obtain z where "string_body (snd (surrogate_rune u v)) = Some (z, t)"
            "x = encode_rune (fst (surrogate_rune u v)) @ z"
          using 2(4) nq True y None by (auto simp: string_body.simps(2) [of backslash])
        then show ?thesis
          using 2(1) [OF nq True y None _ uv(1)] uv(2)
            valid_encode_rune [OF scalar_surrogate_rune [OF hex4_less [OF uv(1)]]]
          by (auto intro: valid_utf8_append)
      qed
    next
      case nb: False
      then have "\<not> byte c < 32"
        using 2(4) nq by (auto simp: string_body.simps(2) [of c] split: if_splits)
      moreover then obtain z where "string_body (drop (snd (DecodeRune (c # s))) (c # s)) = Some (z, t)"
          "x = encode_rune (fst (DecodeRune (c # s))) @ z"
        using 2(4) nq nb by (auto simp: string_body.simps(2) [of c])
      ultimately show ?thesis
        using 2(3) [OF nq nb] valid_encode_rune [OF scalar_DecodeRune [of "c # s"]]
        by (auto intro: valid_utf8_append)
    qed
  qed
qed simp

fun json_strings :: "json \<Rightarrow> bool" where
  "json_strings (JStr s) \<longleftrightarrow> valid_utf8 s"
| "json_strings (JArr vs) \<longleftrightarrow> list_all json_strings vs"
| "json_strings (JObj kvs) \<longleftrightarrow> list_all (\<lambda>kv. json_strings (snd kv)) kvs"
| "json_strings _ \<longleftrightarrow> True"

lemma jvalue_strings:
  "jvalue n d s = Some (v, t) \<Longrightarrow> json_strings v"
  "jelems n d s = Some (vs, t) \<Longrightarrow> list_all json_strings vs"
  "jmembers n d s = Some (kvs, t) \<Longrightarrow> list_all (\<lambda>kv. json_strings (snd kv)) kvs"
proof (induction n d s and n d s and n d s arbitrary: v t and vs t and kvs t
    rule: jvalue_jelems_jmembers.induct)
  case (2 n d s)
  then show ?case
    by (auto simp: literal_def split: list.splits if_splits dest: string_body_valid)
next
  case (4 n d s)
  then show ?case by (fastforce split: option.splits if_splits)
next
  case (6 n d s)
  then show ?case by (fastforce split: option.splits if_splits)
qed simp_all

lemma parse_json_strings: "parse_json s = Some j \<Longrightarrow> json_strings j"
  by (auto simp: parse_json_def simp del: jvalue.simps split: option.splits if_splits
      dest: jvalue_strings(1))

text \<open>A field's new value is good when its old one was; the record update then stays good.\<close>

definition keeps_good :: "('v \<Rightarrow> bool) \<Rightarrow> 'v option \<Rightarrow> bool" where
  "keeps_good P x \<longleftrightarrow> (case x of None \<Rightarrow> True | Some y \<Rightarrow> P y)"

lemma keeps_good_map: "keeps_good P x \<Longrightarrow> (\<And>y. P y \<Longrightarrow> Q (f y)) \<Longrightarrow> keeps_good Q (map_option f x)"
  by (cases x) (simp_all add: keeps_good_def)

lemma keeps_good_if: "(b \<Longrightarrow> keeps_good P x) \<Longrightarrow> (\<not> b \<Longrightarrow> keeps_good P y) \<Longrightarrow> keeps_good P (if b then x else y)"
  by simp

lemma keeps_good_Some: "P y \<Longrightarrow> keeps_good P (Some y)"
  by (simp add: keeps_good_def)

lemma as_string_valid: "json_strings v \<Longrightarrow> valid_utf8 old \<Longrightarrow> keeps_good valid_utf8 (as_string v old)"
  by (cases v) (simp_all add: as_string_def keeps_good_def)

definition int32_ok :: "int \<Rightarrow> bool" where
  "int32_ok i \<longleftrightarrow> - (2 ^ 31) \<le> i \<and> i < 2 ^ 31"

lemma int32_value_ok: "int32 i = i \<Longrightarrow> int32_ok i"
  using int32_range [of i] by (simp add: int32_ok_def)

lemma as_int32_range: "int32_ok old \<Longrightarrow> keeps_good int32_ok (as_int32 v old)"
  by (cases v) (simp_all add: as_int32_def keeps_good_def int32_value_ok split: option.split)

lemma keeps_good_any: "keeps_good (\<lambda>_. True) x"
  by (simp add: keeps_good_def split: option.split)

text \<open>
  The fields of a decoded request: well-formed texts, a port of 32 bits and ids of 64 bits.
\<close>

definition payload_ok :: "ApplicationBuildRequestedPayload \<Rightarrow> bool" where
  "payload_ok p \<longleftrightarrow>
     list_all valid_utf8 [p_RepositoryURL p, p_Branch p, p_LinkedDatabaseService p, p_ServiceAlias p,
       p_ProjectSlug p, p_ServiceSlug p, p_RepositoryProvider p, p_RepositoryOwner p, p_RepositoryName p,
       p_CloneURL p]
     \<and> int32_ok (p_ContainerPort p)"

definition request_ok :: "build_request \<Rightarrow> bool" where
  "request_ok ev \<longleftrightarrow>
     list_all valid_utf8 [se_EventID ev, se_EventType ev, se_DeploymentID ev, se_ProjectID ev,
       se_ServiceID ev, se_ServiceName ev, se_UserID ev]
     \<and> payload_ok (se_Payload ev)"

lemma decode_members_invariant:
  assumes field: "\<And>k v r. json_strings v \<Longrightarrow> Q r \<Longrightarrow> keeps_good Q (field k v r)"
  shows "list_all (\<lambda>kv. json_strings (snd kv)) kvs \<Longrightarrow> Q r \<Longrightarrow> keeps_good Q (decode_members field kvs r)"
proof (induction kvs arbitrary: r)
  case (Cons kv kvs)
  obtain k v where kv: "kv = (k, v)" by (cases kv)
  show ?case
  proof (cases "field k v r")
    case (Some r1)
    then have "Q r1" using field [of v r k] Cons.prems by (simp add: kv keeps_good_def)
    then show ?thesis using Cons.IH [of r1] Cons.prems(1) Some by (simp add: kv)
  qed (simp add: kv keeps_good_def)
qed (simp add: keeps_good_def)

lemma decode_struct_invariant:
  assumes "\<And>k v r. json_strings v \<Longrightarrow> Q r \<Longrightarrow> keeps_good Q (field k v r)" and "json_strings j" and "Q r"
  shows "keeps_good Q (decode_struct field j r)"
  using assms(2,3) decode_members_invariant [of Q field, OF assms(1)]
  by (cases j) (simp_all add: decode_struct_def keeps_good_def)

lemma payload_field_ok:
  assumes "json_strings v" and "payload_ok p"
  shows "keeps_good payload_ok (payload_field k v p)"
proof -
  note str = as_string_valid [OF assms(1)]
  have old: "valid_utf8 (p_RepositoryURL p)" "valid_utf8 (p_Branch p)" "valid_utf8 (p_LinkedDatabaseService p)"
    "valid_utf8 (p_ServiceAlias p)" "valid_utf8 (p_ProjectSlug p)" "valid_utf8 (p_ServiceSlug p)"
    "valid_utf8 (p_RepositoryProvider p)" "valid_utf8 (p_RepositoryOwner p)" "valid_utf8 (p_RepositoryName p)"
    "valid_utf8 (p_CloneURL p)" "int32_ok (p_ContainerPort p)"
    using assms(2) by (simp_all add: payload_ok_def)
  show ?thesis
    unfolding payload_field_def
    by (intro keeps_good_if keeps_good_map [OF str] keeps_good_map [OF as_int32_range]
        keeps_good_map [OF keeps_good_any [of "as_int64_pointer v"]] keeps_good_map [OF keeps_good_any [of "as_bool v b" for b]]
        keeps_good_Some assms(2) old) (simp_all add: payload_ok_def old)
qed

lemma event_field_ok:
  assumes "json_strings v" and "request_ok ev"
  shows "keeps_good request_ok (event_field k v ev)"
proof -
  note str = as_string_valid [OF assms(1)]
  have old: "valid_utf8 (se_EventID ev)" "valid_utf8 (se_EventType ev)" "valid_utf8 (se_DeploymentID ev)"
    "valid_utf8 (se_ProjectID ev)" "valid_utf8 (se_ServiceID ev)" "valid_utf8 (se_ServiceName ev)"
    "valid_utf8 (se_UserID ev)" "payload_ok (se_Payload ev)"
    using assms(2) by (simp_all add: request_ok_def)
  have payload: "keeps_good payload_ok (decode_struct payload_field v (se_Payload ev))"
    by (rule decode_struct_invariant [OF payload_field_ok assms(1) old(8)])
  show ?thesis
    unfolding event_field_def
    by (intro keeps_good_if keeps_good_map [OF str] keeps_good_map [OF payload] keeps_good_Some
        assms(2) old) (simp_all add: request_ok_def old)
qed

lemma zero_request_ok: "request_ok zero_request"
  by (simp add: request_ok_def payload_ok_def zero_request_def zero_payload_def valid_utf8_def int32_ok_def)

lemma decoding_ok:
  "case decode_request body of None \<Rightarrow> True | Some ev \<Rightarrow> request_ok ev"
proof (cases "parse_json body")
  case (Some j)
  then show ?thesis
    using decode_struct_invariant [OF event_field_ok parse_json_strings [OF Some] zero_request_ok]
    by (simp add: decode_request_def keeps_good_def)
qed (simp add: decode_request_def)

text \<open>
  C37: Whatever bytes a delivery carries, a request decoded from them has well-formed UTF-8 in every
  text field and a container port of 32 bits.
\<close>

theorem decoded_request_ok:
  "case decode_request body of None \<Rightarrow> True | Some ev \<Rightarrow> request_ok ev"
  by (rule decoding_ok)

lemma field_is_ascii:
  "is_ascii a \<Longrightarrow> is_ascii b \<Longrightarrow> field_is a b \<longleftrightarrow> map (fold_rune \<circ> byte) b = map (fold_rune \<circ> byte) a"
  by (simp add: field_is_def fold_name_def runes_of_ascii)

definition sample_body :: string where
  "sample_body = print_json (JObj [(''deploymentId'', JStr ''d1''), (''payload'', JObj [(''cloneUrl'', JStr ''u'')])])"

definition sample_event :: build_request where
  "sample_event = zero_request\<lparr>se_DeploymentID := ''d1'', se_Payload := zero_payload\<lparr>p_CloneURL := ''u''\<rparr>\<rparr>"

lemma ascii_literals: "is_ascii [] " "is_ascii (c # s) \<longleftrightarrow> byte c < 128 \<and> is_ascii s"
  by (auto simp: is_ascii_def)

lemma sample_keys:
  "\<not> field_is ''eventId'' ''deploymentId''" "\<not> field_is ''eventType'' ''deploymentId''"
  "\<not> field_is ''timestamp'' ''deploymentId''"
  "\<not> field_is ''eventId'' ''payload''" "\<not> field_is ''eventType'' ''payload''"
  "\<not> field_is ''timestamp'' ''payload''" "\<not> field_is ''deploymentId'' ''payload''"
  "\<not> field_is ''projectId'' ''payload''" "\<not> field_is ''serviceId'' ''payload''"
  "\<not> field_is ''serviceName'' ''payload''" "\<not> field_is ''userId'' ''payload''"
  "\<not> field_is ''repositoryUrl'' ''cloneUrl''" "\<not> field_is ''branch'' ''cloneUrl''"
  "\<not> field_is ''linkedDatabaseServiceId'' ''cloneUrl''" "\<not> field_is ''serviceAlias'' ''cloneUrl''"
  "\<not> field_is ''projectSlug'' ''cloneUrl''" "\<not> field_is ''serviceSlug'' ''cloneUrl''"
  "\<not> field_is ''containerPort'' ''cloneUrl''" "\<not> field_is ''repositoryProvider'' ''cloneUrl''"
  "\<not> field_is ''githubInstallationId'' ''cloneUrl''" "\<not> field_is ''githubRepositoryId'' ''cloneUrl''"
  "\<not> field_is ''repositoryOwner'' ''cloneUrl''" "\<not> field_is ''repositoryName'' ''cloneUrl''"
  by (simp_all add: field_is_ascii ascii_literals byte_def fold_rune_def)

lemma decode_sample: "decode_request sample_body = Some sample_event"
proof -
  let ?j = "JObj [(''deploymentId'', JStr ''d1''), (''payload'', JObj [(''cloneUrl'', JStr ''u'')])]"
  have "parse_json (print_json ?j) = Some ?j"
    by (rule parse_print_json) (simp add: maxNestingDepth_def valid_utf8_ascii ascii_literals byte_def)
  then show ?thesis
    by (simp add: decode_request_def sample_body_def decode_struct_def event_field_def payload_field_def
        sample_keys as_string_def zero_request_def zero_payload_def sample_event_def)
qed


section \<open>Every failure can be recorded and read back\<close>

lemma valid_hex: "valid_utf8 (EncodeToString bs)"
  by (rule valid_utf8_ascii)
    (auto simp: is_ascii_def is_lower_hex_def is_digit_def byte_def dest!: EncodeToString_hex)

lemma int_literal_Itoa: "int32_ok n \<Longrightarrow> int_literal (Itoa n)"
  by (simp add: int_literal_def Atoi_Itoa int32_ok_def int64_max_def)

lemma firstNonEmpty_valid: "list_all valid_utf8 xs \<Longrightarrow> valid_utf8 (firstNonEmpty xs)"
  by (induction xs) (simp_all add: valid_utf8_def)

lemma service_name_valid: "request_ok ev \<Longrightarrow> valid_utf8 (service_name ev)"
  by (simp add: service_name_def request_ok_def payload_ok_def firstNonEmpty_valid del: firstNonEmpty.simps)

lemma json_ok_marshalTimestamp: "json_ok n (raw_json (marshalTimestamp t))"
  by (simp add: marshalTimestamp_def json_time_def raw_json_def rfc3339_ascii)

lemma json_ok_sort_keys:
  "list_all (\<lambda>kv. valid_utf8 (fst kv) \<and> json_ok n (snd kv)) kvs
     \<Longrightarrow> list_all (\<lambda>kv. valid_utf8 (fst kv) \<and> json_ok n (snd kv)) (sort_keys kvs)"
  by (simp add: sort_keys_def list_all_iff)

lemma valid_ascii_literal: "is_ascii s \<Longrightarrow> valid_utf8 s"
  by (rule valid_utf8_ascii)

lemma json_ok_req: "is_ascii k \<Longrightarrow> valid_utf8 v \<Longrightarrow> list_all (\<lambda>kv. valid_utf8 (fst kv) \<and> json_ok n (snd kv)) (req k v)"
  and json_ok_opt: "is_ascii k \<Longrightarrow> valid_utf8 v \<Longrightarrow> list_all (\<lambda>kv. valid_utf8 (fst kv) \<and> json_ok n (snd kv)) (opt k v)"
  by (simp_all add: req_def opt_def valid_utf8_ascii)

definition result_ok :: "BuildResult \<Rightarrow> bool" where
  "result_ok r \<longleftrightarrow> valid_utf8 (br_ImageTag r) \<and> valid_utf8 (br_CommitSHA r) \<and> valid_utf8 (br_Builder r)"

lemma failed_json_ok:
  assumes "request_ok ev" and "result_ok res"
  shows "json_ok 9999 (service_event_json failed_json (newBuildFailedEvent t ev res err))"
  using assms service_name_valid [OF assms(1)] json_ok_marshalTimestamp
  by (simp add: service_event_json_def failed_json_def newBuildFailedEvent_def json_ok_req json_ok_opt
      request_ok_def result_ok_def deploymentEventID_def valid_hex ascii_literals byte_def valid_ascii_literal
      buildFailedEventType_def storable_sanitizeStoredText)

lemma succeeded_json_ok:
  assumes "request_ok ev" and "result_ok res"
  shows "json_ok 9999 (service_event_json succeeded_json (newBuildSucceededEvent t ev res))"
  using assms service_name_valid [OF assms(1)] json_ok_marshalTimestamp
  by (simp add: service_event_json_def succeeded_json_def newBuildSucceededEvent_def json_ok_req json_ok_opt
      request_ok_def payload_ok_def result_ok_def deploymentEventID_def valid_hex ascii_literals byte_def
      valid_ascii_literal buildSucceededEventType_def int_literal_Itoa)

text \<open>The texts of a progress event, its metadata apart.\<close>

lemma deployment_json_ok:
  assumes "deployment_event_json ev = Some j"
    and "list_all valid_utf8 [de_EventID ev, de_DeploymentID ev, de_ProjectID ev, de_ServiceName ev,
      de_EventType ev, de_Status ev]"
    and "list_all (\<lambda>kv. valid_utf8 (fst kv) \<and> json_ok 9997 (snd kv)) (de_Metadata ev)"
  shows "json_ok 9999 j"
  using assms json_ok_sort_keys [OF assms(3)]
  by (auto simp: deployment_event_json_def json_time_def json_ok_req ascii_literals byte_def
      valid_ascii_literal rfc3339_ascii split: if_splits)

lemma failed_progress_ok:
  assumes "request_ok ev" and "result_ok res"
    and "deployment_event_json (newBuildFailedDeploymentEvent t ev res err) = Some j"
  shows "json_ok 9999 j"
  using assms(1,2) service_name_valid [OF assms(1)]
  by (intro deployment_json_ok [OF assms(3)])
    (simp_all add: newBuildFailedDeploymentEvent_def request_ok_def payload_ok_def result_ok_def
      deploymentEventID_def valid_hex ascii_literals byte_def valid_ascii_literal int_literal_Itoa
      deploymentBuildFailedEventType_def buildFailedStatus_def storable_sanitizeStoredText)

lemma succeeded_progress_ok:
  assumes "request_ok ev" and "result_ok res"
    and "deployment_event_json (newBuildSucceededDeploymentEvent t ev res) = Some j"
  shows "json_ok 9999 j"
  using assms(1,2) service_name_valid [OF assms(1)]
  by (intro deployment_json_ok [OF assms(3)])
    (simp_all add: newBuildSucceededDeploymentEvent_def request_ok_def payload_ok_def result_ok_def
      deploymentEventID_def valid_hex ascii_literals byte_def valid_ascii_literal int_literal_Itoa
      deploymentBuildSucceededEventType_def buildSucceededStatus_def)


text \<open>
  C15: The record of a terminal result can be read back. Whatever bytes the request came in, and
  whatever the text of the failure, the text stored for a failure or a success of a decoded request
  decodes to exactly the routing keys and the two documents it was made from, so a replay publishes
  what the first attempt did.
\<close>

theorem terminal_record_roundtrip:
  assumes "decode_request body = Some ev" and "result_ok res" and "valid_utf8 sk" and "valid_utf8 pk"
    and "x = Failed (newBuildFailedEvent t1 ev res err) \<and> y = Deployment (newBuildFailedDeploymentEvent t2 ev res err)
      \<or> x = Succeeded (newBuildSucceededEvent t1 ev res) \<and> y = Deployment (newBuildSucceededDeploymentEvent t2 ev res)"
    and "makeBuildResultEvents sk x pk y = Inr b"
  shows "decode_bundle (print_json (bundle_json b)) = Some b
    \<and> b_ServiceRoutingKey b = sk \<and> outbound_json x = Inr (raw_json (b_ServiceEvent b))
    \<and> b_ProgressRoutingKey b = pk \<and> outbound_json y = Inr (raw_json (b_ProgressEvent b))"
proof -
  have ok: "request_ok ev"
    using decoding_ok [of body] assms(1) by simp
  obtain p where p: "outbound_json y = Inr p"
    using assms(6) by (auto simp: makeBuildResultEvents_def split: sum.splits)
  have "sendable x"
    using assms(5) failed_json_ok [OF ok assms(2)] succeeded_json_ok [OF ok assms(2)]
    by (auto simp: sendable_def outbound_json_def)
  moreover have "sendable y"
    using assms(5) p failed_progress_ok [OF ok assms(2)] succeeded_progress_ok [OF ok assms(2)]
    by (auto simp: sendable_def outbound_json_def split: option.splits)
  moreover have "b_ServiceRoutingKey b = sk \<and> b_ProgressRoutingKey b = pk"
    using assms(6) by (auto simp: makeBuildResultEvents_def split: sum.splits)
  ultimately show ?thesis
    using stored_result_roundtrip [OF assms(6) _ _ assms(3,4)] by blast
qed

theorem terminal_record_roundtrip_witness:
  "case makeBuildResultEvents ''s'' (Failed (newBuildFailedEvent 0 sample_event no_result ErrLeaseBusy))
      ''p'' (Deployment (newBuildFailedDeploymentEvent 0 sample_event no_result ErrLeaseBusy)) of
     Inl e \<Rightarrow> False
   | Inr b \<Rightarrow> decode_bundle (print_json (bundle_json b)) = Some b"
proof -
  have t: "json_time 0 = Some (JStr (rfc3339 0))"
  proof -
    have "year_of 0 = 1970" by code_simp
    then show ?thesis by (simp add: json_time_def)
  qed
  have r: "result_ok no_result" by (simp add: result_ok_def no_result_def valid_utf8_def)
  have k: "valid_utf8 ''s''" "valid_utf8 ''p''"
    by (simp_all add: valid_utf8_ascii ascii_literals byte_def)
  let ?x = "Failed (newBuildFailedEvent 0 sample_event no_result ErrLeaseBusy)"
    and ?ev = "newBuildFailedDeploymentEvent 0 sample_event no_result ErrLeaseBusy"
  obtain s where s: "outbound_json ?x = Inr s" by (simp add: outbound_json_def)
  obtain p where p: "outbound_json (Deployment ?ev) = Inr p"
    using t by (simp add: outbound_json_def deployment_event_json_def newBuildFailedDeploymentEvent_def)
  obtain b where b: "makeBuildResultEvents ''s'' ?x ''p'' (Deployment ?ev) = Inr b"
    by (simp add: makeBuildResultEvents_def s p)
  show ?thesis
    using terminal_record_roundtrip [OF decode_sample r k disjI1 [OF conjI [OF refl refl]] b] b by simp
qed

end
