(* ===== verification/Acceptance.thy ===== *)
theory Acceptance
  imports Settlement LedgerProps EventFacts
begin

text \<open>
  What accepting a delivery does, case by case: a request that cannot be built, a deployment with
  a recorded result, and one whose lease is held.
\<close>

section \<open>Requests that cannot be built\<close>

definition invalid_request :: "string \<Rightarrow> bool" where
  "invalid_request body \<longleftrightarrow>
     (case decode_request body of
        None \<Rightarrow> True
      | Some event \<Rightarrow> TrimSpace (se_DeploymentID event) = [] \<or> validateBuildPayload (se_Payload event) \<noteq> None)"

lemma sample_valid: "\<not> invalid_request sample_body"
proof -
  have "TrimSpace ''d1'' = ''d1''" "TrimSpace ''u'' = ''u''"
    by (rule TrimSpace_idle; simp add: ascii_literals byte_def ascii_space_def)+
  then show ?thesis
    by (simp add: invalid_request_def decode_sample sample_event_def validateBuildPayload_def)
qed

definition dead_letter :: "Delivery \<Rightarrow> goerr option \<Rightarrow> int \<Rightarrow> Publishing" where
  "dead_letter msg cause attempt = \<lparr>
     m_ContentType = d_ContentType msg, m_DeliveryMode = Persistent,
     m_Headers = (cloneHeaders (d_Headers msg))(''x-shiply-dead-letter-reason'' \<mapsto> HString (safeReason cause),
                ''x-shiply-attempt'' \<mapsto> HInt32 (int32 attempt)),
     m_Timestamp = None, m_MessageId = [], m_Body = d_Body msg \<rparr>"

lemma run_copyToDLQ:
  "run_state (copyToDLQWithAttempt c msg cause n) w =
     (if pub_set w then
        (let p = dead_letter msg cause n; a = broker (env w) (hist w) [] (DLQ (c_cfg c)) False p
         in (outcome_error False a, w\<lparr>hist := hist w @ [Publish [] (DLQ (c_cfg c)) False p a]\<rparr>))
      else (Some no_publisher, w))"
  by (simp add: copyToDLQWithAttempt_def PublishRaw_def run_publish dead_letter_def Let_def)

lemma accept_invalid:
  assumes "invalid_request (d_Body msg)"
  shows "\<exists>e. run_state (acceptDelivery c msg) w = run_state (settle c msg actionNackDrop (Some e)) w"
  using assms
  by (auto simp: acceptDelivery_def processDelivery_def handleMessage_def handleBuildEvent_def
      invalid_request_def split: option.splits)

lemma run_settle_drop:
  assumes "d_tag msg = Some t"
  shows "run_state (settle c msg actionNackDrop (Some e)) w =
    (let p = dead_letter msg (Some e) (headerAttempt (d_Headers msg));
         a = broker (env w) (hist w) [] (DLQ (c_cfg c)) False p;
         h = hist w @ [Publish [] (DLQ (c_cfg c)) False p a]
     in if ch_set w \<and> pub_set w then
          ((), w\<lparr>hist := h @ [if accepted a then Ack t (acknowledge (env w) h t = None) else Nack t False]\<rparr>)
        else ((), w\<lparr>hist := hist w @ [Nack t False]\<rparr>))"
  using assms
  by (auto simp: settle_def copyToDLQ_def run_copyToDLQ run_ack run_nack Let_def
      dest: outcome_error_SomeD split: option.splits)

text \<open>
  C14: A delivery that cannot be decoded, or lacks a deployment id or a repository, touches neither
  the ledger nor the job queue and starts nothing. It is acknowledged only after a copy with its
  body and the reason has been confirmed for the dead-letter queue, and otherwise rejected without
  requeueing, so it cannot circulate.
\<close>

theorem accept_rejects_invalid:
  assumes "invalid_request (d_Body msg)" and "d_tag msg = Some t"
  shows "\<exists>e b. let n = headerAttempt (d_Headers msg); p = dead_letter msg (Some e) n;
        es = calls (acceptDelivery (wired cfg) msg) w; w' = after (acceptDelivery (wired cfg) msg) w
      in (if ch_set w \<and> pub_set w
          then (let a = broker (env w) (hist w) [] (DLQ cfg) False p
                in es = [Publish [] (DLQ cfg) False p a, if accepted a then Ack t b else Nack t False])
          else es = [Nack t False])
         \<and> rows w' = rows w \<and> jobs w' = jobs w \<and> parked w' = parked w \<and> m_Body p = d_Body msg"
proof -
  obtain e where e: "run_state (acceptDelivery (wired cfg) msg) w
      = run_state (settle (wired cfg) msg actionNackDrop (Some e)) w"
    using accept_invalid [OF assms(1)] by blast
  let ?p = "dead_letter msg (Some e) (headerAttempt (d_Headers msg))"
  let ?a = "broker (env w) (hist w) [] (DLQ cfg) False ?p"
  let ?b = "acknowledge (env w) (hist w @ [Publish [] (DLQ cfg) False ?p ?a]) t = None"
  show ?thesis
    by (rule exI [of _ e], rule exI [of _ ?b])
      (simp add: after_def calls_def e run_settle_drop [OF assms(2)] dead_letter_def Let_def)
qed

theorem accept_rejects_invalid_witness:
  "\<exists>e b. let n = headerAttempt Map.empty; p = dead_letter (sample_delivery ''{'') (Some e) n;
        es = calls (acceptDelivery (wired (loadConfig (\<lambda>_. []))) (sample_delivery ''{'')) calm_world;
        w' = after (acceptDelivery (wired (loadConfig (\<lambda>_. []))) (sample_delivery ''{'')) calm_world
      in es = [Publish [] ''shiply.app.build.dlq'' False p (Confirmed None), Ack 7 b]
         \<and> jobs w' = [] \<and> m_Body p = ''{''"
proof -
  have inv: "parse_json ''{'' = None"
    by (simp add: parse_json_def skip_ws_def json_space_def byte_def numeral_eq_Suc)
  then have "invalid_request (d_Body (sample_delivery ''{''))"
    by (simp add: invalid_request_def decode_request_def sample_delivery_def)
  moreover have "DLQ (loadConfig (\<lambda>_. [])) = ''shiply.app.build.dlq''"
    by (simp add: loadConfig_def envOrDefault_def)
  ultimately show ?thesis
    using accept_rejects_invalid [of "sample_delivery ''{''" 7 "loadConfig (\<lambda>_. [])" calm_world]
    by (simp add: sample_delivery_def Let_def) blast
qed

section \<open>Requests for a deployment the ledger knows\<close>

text \<open>What follows the claim made for a well-formed request.\<close>

definition on_claim ::
    "Config \<Rightarrow> Delivery \<Rightarrow> build_request \<Rightarrow> goerr + ClaimDisposition \<times> StageRecord \<Rightarrow> unit M" where
  "on_claim cfg msg event claimed =
     (case claimed of
       Inl _ \<Rightarrow> do { _ \<leftarrow> nack msg True; ret () }
     | Inr (disposition, record) \<Rightarrow>
         (case disposition of
            ClaimBusy \<Rightarrow> do { _ \<leftarrow> nack msg True; ret () }
          | ClaimCompleted \<Rightarrow> replay (wired cfg) msg (r_ResultJSON record)
          | ClaimFailed \<Rightarrow> replay (wired cfg) msg (r_ResultJSON record)
          | ClaimAcquired \<Rightarrow> early_ack (wired cfg) msg event))"

lemma on_claim_simps [simp]:
  "on_claim cfg msg event (Inl e) = do { _ \<leftarrow> nack msg True; ret () }"
  "on_claim cfg msg event (Inr (ClaimBusy, r)) = do { _ \<leftarrow> nack msg True; ret () }"
  "on_claim cfg msg event (Inr (ClaimCompleted, r)) = replay (wired cfg) msg (r_ResultJSON r)"
  "on_claim cfg msg event (Inr (ClaimFailed, r)) = replay (wired cfg) msg (r_ResultJSON r)"
  "on_claim cfg msg event (Inr (ClaimAcquired, r)) = early_ack (wired cfg) msg event"
  by (simp_all add: on_claim_def)

abbreviation claim_for :: "Config \<Rightarrow> build_request \<Rightarrow> (goerr + ClaimDisposition \<times> StageRecord) M" where
  "claim_for cfg event \<equiv> pg_Claim (se_DeploymentID event) build_stage (LeaseDuration cfg)"

lemma accept_claims:
  assumes "decode_request (d_Body msg) = Some event" and "\<not> invalid_request (d_Body msg)"
  shows "acceptDelivery (wired cfg) msg = State_Monad.bind (claim_for cfg event) (on_claim cfg msg event)"
proof -
  have "on_claim cfg msg event = (\<lambda>claimed. on_claim cfg msg event claimed)" by simp
  then show ?thesis
    using assms unfolding on_claim_def by (simp add: acceptDelivery_def invalid_request_def postgres_fields)
qed

lemma pg_Claim_frame: "framed ledger_call (pg_Claim i s d)"
  by (rule framed_postgres)

text \<open>Calls that neither build nor clone anything.\<close>

definition starts_nothing :: "call \<Rightarrow> bool" where
  "starts_nothing e \<longleftrightarrow> (\<forall>p. e \<noteq> Exec p) \<and> (\<forall>s. e \<noteq> MkdirTemp s)"

lemma idle_ack: "framed starts_nothing (ack msg)" and idle_nack: "framed starts_nothing (nack msg r)"
  unfolding ack_def nack_def
  by (auto intro!: framed_intros framed_emit simp: starts_nothing_def split: option.splits)

lemma idle_kinds: "ledger_call e \<Longrightarrow> starts_nothing e" "publish_call e \<Longrightarrow> starts_nothing e"
  by (auto simp: starts_nothing_def call_kinds)

lemma idle_replay: "framed starts_nothing (replay (wired cfg) msg raw)"
  unfolding replay_def
  by (intro framed_intros idle_ack idle_nack framed_weaken [OF wired.publishStored_framed idle_kinds(2)])

lemma idle_claim: "framed starts_nothing (pg_Claim i s d)"
  by (rule framed_weaken [OF pg_Claim_frame]) (rule idle_kinds)

lemma framed_run: "framed P m \<Longrightarrow> frame P w (after m w)"
  by (rule abidesD)


definition finished_world :: world where
  "finished_world = calm_world\<lparr>rows := [(''d1'', ''build'') \<mapsto> running_row\<lparr>g_state := StateFailed, g_lease := None,
     g_result := Some ''{}''\<rparr>]\<rparr>"


text \<open>
  C13: A deployment whose lease is still held is left to its holder: if the claim made for the
  delivery does not get the stage and finds no result, the delivery is rejected with requeueing
  right after the claim, nothing is published and no job is queued.
\<close>

theorem accept_busy_requeues:
  assumes "decode_request (d_Body msg) = Some event" and "\<not> invalid_request (d_Body msg)"
    and "d_tag msg = Some t"
    and "pg_view w (se_DeploymentID event) = Some e" and "e_status e = Running (Some until)"
    and "tx_clock w < until"
  shows "calls (acceptDelivery (wired cfg) msg) w
      = calls (pg_Claim (se_DeploymentID event) build_stage (LeaseDuration cfg)) w @ [Nack t True]
    \<and> jobs (after (acceptDelivery (wired cfg) msg) w) = jobs w
    \<and> parked (after (acceptDelivery (wired cfg) msg) w) = parked w
    \<and> pg_view (after (acceptDelivery (wired cfg) msg) w) (se_DeploymentID event) = Some e"
proof -
  let ?i = "se_DeploymentID event"
  let ?claim = "pg_Claim ?i build_stage (LeaseDuration cfg)"
  let ?w1 = "after ?claim w"
  note fr = framedD [where w = w, OF pg_Claim_frame [of ?i build_stage "LeaseDuration cfg"]]
  have busy: "value_of ?claim w = Inr (disp, rec) \<Longrightarrow> disp = ClaimBusy" for disp rec
    using pg.claim_busy(2) [OF assms(4,5,6)] by (simp add: postgres_fields)
  have kept: "pg_view ?w1 ?i = Some e"
    using pg.claim_busy(1) [OF assms(4,5,6)] by (simp add: postgres_fields)
  have "after (acceptDelivery (wired cfg) msg) w = ?w1\<lparr>hist := hist ?w1 @ [Nack t True]\<rparr>"
  proof (cases "value_of ?claim w")
    case (Inl x)
    then show ?thesis
      unfolding accept_claims [OF assms(1,2)] after_bind by (simp add: after_def run_nack [OF assms(3)])
  next
    case (Inr res)
    then show ?thesis
      using busy [of "fst res" "snd res"] unfolding accept_claims [OF assms(1,2)] after_bind
      by (cases res) (simp add: after_def run_nack [OF assms(3)])
  qed
  then show ?thesis
    using fr kept by (simp add: calls_def [of "acceptDelivery (wired cfg) msg"] same_consumer_def pg_view_row)
qed

theorem accept_busy_requeues_witness:
  "calls (acceptDelivery (wired (loadConfig (\<lambda>_. []))) (sample_delivery sample_body)) running_world
      = calls (pg_Claim ''d1'' build_stage (LeaseDuration (loadConfig (\<lambda>_. [])))) running_world @ [Nack 7 True]"
proof -
  have d: "decode_request (d_Body (sample_delivery sample_body)) = Some sample_event"
    "\<not> invalid_request (d_Body (sample_delivery sample_body))" "d_tag (sample_delivery sample_body) = Some 7"
    by (simp_all add: sample_delivery_def decode_sample sample_valid)
  have i: "se_DeploymentID sample_event = ''d1''" by (simp add: sample_event_def zero_request_def)
  have v: "pg_view running_world (se_DeploymentID sample_event) = Some (row_entry running_row)"
    by (simp add: pg_view_row build_stage_def i)
  have t: "e_status (row_entry running_row) = Running (Some 50)" "tx_clock running_world < 50"
    by (simp_all add: row_entry_def entry_of_def running_row_def tx_clock_def)
  show ?thesis
    using accept_busy_requeues [OF d v t, of "loadConfig (\<lambda>_. [])"] i by simp
qed

section \<open>Replaying a stored result\<close>

lemma run_publishJSONEvent:
  "run_state (publishJSONEvent ex k x) w =
     (if \<not> pub_set w then (Some no_publisher, w) else run_state (publishJSON True ex k x False) w)"
  by (simp add: publishJSONEvent_def PublishJSON_def)

lemma publishing_wired [simp]:
  "publishEvent (wired cfg) ex k x = publishJSONEvent ex k x"
  "publishProgressEvent (wired cfg) ex k x = publishJSONEvent ex k x"
  by (simp_all add: publishEvent_def publishProgressEvent_def)

text \<open>
  What a replay publishes: the service event, and after the broker confirmed it the progress event,
  each re-encoded, with the stored routing keys. The result is an acknowledgement exactly when both
  were confirmed, and otherwise a requeue with an error.
\<close>

lemma run_publishBundle:
  assumes "decode_any (float_text (env w)) (b_ServiceEvent b) = Some s"
    and "decode_any (float_text (env w)) (b_ProgressEvent b) = Some p" and "pub_set w"
  shows "\<exists>m1 a1 m2 a2.
      m_Body m1 = print_json s \<and> m_Body m2 = print_json p
      \<and> calls (publishBundle (wired cfg) b) w =
          [ReadClock, ReadClock, Publish (RabbitMQExchange cfg) (b_ServiceRoutingKey b) False m1 a1]
          @ (if accepted a1 then
               [ReadClock, ReadClock, Publish (DeploymentExchange cfg) (b_ProgressRoutingKey b) False m2 a2]
             else [])
      \<and> (if accepted a1 \<and> accepted a2 then value_of (publishBundle (wired cfg) b) w = (actionAck, None)
          else fst (value_of (publishBundle (wired cfg) b) w) = actionNackRequeue
            \<and> snd (value_of (publishBundle (wired cfg) b) w) \<noteq> None)"
proof -
  define m1 where "m1 = json_message s (clock (env w) (hist w)) (clock (env w) (hist w @ [ReadClock]))"
  define h1 where "h1 = hist w @ [ReadClock, ReadClock]"
  define a1 where "a1 = broker (env w) h1 (RabbitMQExchange cfg) (b_ServiceRoutingKey b) False m1"
  define h2 where "h2 = h1 @ [Publish (RabbitMQExchange cfg) (b_ServiceRoutingKey b) False m1 a1]"
  define m2 where "m2 = json_message p (clock (env w) h2) (clock (env w) (h2 @ [ReadClock]))"
  define a2 where "a2 = broker (env w) (h2 @ [ReadClock, ReadClock]) (DeploymentExchange cfg)
    (b_ProgressRoutingKey b) False m2"
  note ds = m1_def h1_def a1_def h2_def m2_def a2_def
  have r: "run_state (publishBundle (wired cfg) b) w =
    (if \<not> accepted a1 then
       ((actionNackRequeue, Some (Wrapped ''publish stored service event: '' (the (outcome_error False a1)))),
        w\<lparr>hist := h2\<rparr>)
     else ((if accepted a2 then (actionAck, None)
            else (actionNackRequeue, Some (Wrapped ''publish stored progress event: '' (the (outcome_error False a2))))),
           w\<lparr>hist := h2 @ [ReadClock, ReadClock, Publish (DeploymentExchange cfg) (b_ProgressRoutingKey b) False m2 a2]\<rparr>))"
    using assms
    by (auto simp: publishBundle_def run_publishJSONEvent run_publishJSON outcome_error_plain outbound_json_def
        ds Let_def dest: outcome_error_SomeD split: option.splits)
  show ?thesis
    by (rule exI [of _ m1], rule exI [of _ a1], rule exI [of _ m2], rule exI [of _ a2])
      (auto simp: calls_def value_of_def after_def r m1_def [symmetric], simp_all add: ds)
qed

lemma publishStored_decoded:
  assumes "decode_bundle raw = Some b"
  shows "calls (publishStored c (Some raw)) w = calls (publishBundle c b) w"
    "value_of (publishStored c (Some raw)) w = value_of (publishBundle c b) w"
  using assms by (simp_all add: publishStored_def stored_text_def calls_def run_steps)

lemma extending_accept: "extending (ack msg)" "extending (nack msg r)"
  using idle_ack idle_nack framed_extending by blast+

lemma calls_ack: "d_tag msg = Some t \<Longrightarrow> calls (ack msg) w = [Ack t (acknowledge (env w) (hist w) t = None)]"
  and calls_nack: "d_tag msg = Some t \<Longrightarrow> calls (nack msg r) w = [Nack t r]"
  by (simp_all add: calls_def after_def run_ack run_nack)

text \<open>What follows the replay: the delivery is acknowledged or rejected.\<close>

definition settle_replay :: "Delivery \<Rightarrow> deliveryAction \<times> goerr option \<Rightarrow> unit M" where
  "settle_replay msg = (\<lambda>(action, err).
     case err of
       Some _ \<Rightarrow> do { _ \<leftarrow> nack msg True; ret () }
     | None \<Rightarrow>
         if a_ack action then do { _ \<leftarrow> ack msg; ret () }
         else do { _ \<leftarrow> nack msg (a_requeue action); ret () })"

lemma calls_settle_replay:
  assumes "d_tag msg = Some t"
  shows "calls (settle_replay msg (action, err)) w =
    [if err = None \<and> a_ack action then Ack t (acknowledge (env w) (hist w) t = None)
     else Nack t (err \<noteq> None \<or> a_requeue action)]"
  using assms
  by (cases err) (simp_all add: settle_replay_def calls_bind extending_accept extending_ret calls_ack calls_nack)

lemma extending_settle_replay: "extending (settle_replay msg r)"
  unfolding settle_replay_def
  by (cases r) (auto intro!: extending_bind extending_accept extending_ret split: option.splits)

lemma calls_replay:
  assumes "d_tag msg = Some t" and "decode_bundle raw = Some b"
    and "value_of (publishBundle (wired cfg) b) w = (action, err)"
  shows "\<exists>ok. calls (replay (wired cfg) msg (Some raw)) w = calls (publishBundle (wired cfg) b) w
     @ [if err = None \<and> a_ack action then Ack t ok else Nack t (err \<noteq> None \<or> a_requeue action)]"
proof -
  have "replay (wired cfg) msg (Some raw)
      = State_Monad.bind (publishStored (wired cfg) (Some raw)) (settle_replay msg)"
    by (simp add: replay_def settle_replay_def)
  then show ?thesis
    using calls_bind [OF framed_extending [OF wired.publishStored_framed] extending_settle_replay,
        where w = w]
      publishStored_decoded [OF assms(2), of "wired cfg" w] assms(3) calls_settle_replay [OF assms(1), of action err]
    by auto
qed

text \<open>
  C11: A recorded result is announced again, and nothing else happens. When the claim answers with a
  stored result, the delivery leads to the service event with the stored key and document, and,
  once the broker confirmed it, to the progress event; it is acknowledged exactly when both were
  confirmed and rejected with requeueing otherwise.
\<close>

theorem accept_replays_result:
  assumes "decode_request (d_Body msg) = Some event" and "\<not> invalid_request (d_Body msg)"
    and "d_tag msg = Some t"
    and "value_of (pg_Claim (se_DeploymentID event) build_stage (LeaseDuration cfg)) w = Inr (disp, rec)"
    and "disp = ClaimCompleted \<or> disp = ClaimFailed" and "r_ResultJSON rec = Some raw"
    and "decode_bundle raw = Some b" and "decode_any (float_text (env w)) (b_ServiceEvent b) = Some s"
    and "decode_any (float_text (env w)) (b_ProgressEvent b) = Some p" and "pub_set w"
  shows "\<exists>m1 a1 m2 a2 ok.
      m_Body m1 = print_json s \<and> m_Body m2 = print_json p
      \<and> calls (acceptDelivery (wired cfg) msg) w =
          calls (pg_Claim (se_DeploymentID event) build_stage (LeaseDuration cfg)) w
          @ [ReadClock, ReadClock, Publish (RabbitMQExchange cfg) (b_ServiceRoutingKey b) False m1 a1]
          @ (if accepted a1 then
               [ReadClock, ReadClock, Publish (DeploymentExchange cfg) (b_ProgressRoutingKey b) False m2 a2]
             else [])
          @ [if accepted a1 \<and> accepted a2 then Ack t ok else Nack t True]"
proof -
  let ?claim = "claim_for cfg event"
  let ?w1 = "after ?claim w"
  have same: "env ?w1 = env w" "pub_set ?w1"
    using framedD(3) [OF pg_Claim_frame] assms(10) by (auto simp: same_consumer_def)
  have f: "on_claim cfg msg event (Inr (disp, rec)) = replay (wired cfg) msg (Some raw)"
    using assms(5,6) by auto
  have step: "calls (acceptDelivery (wired cfg) msg) w = calls ?claim w @ calls (replay (wired cfg) msg (Some raw)) ?w1"
    unfolding accept_claims [OF assms(1,2)]
    using calls_bind [OF framed_extending [OF pg_Claim_frame], where f = "on_claim cfg msg event" and w = w] f
      framed_extending [OF idle_replay, of cfg msg "Some raw"] assms(4) by simp
  obtain m1 a1 m2 a2 where pb: "m_Body m1 = print_json s" "m_Body m2 = print_json p"
    "calls (publishBundle (wired cfg) b) ?w1 =
          [ReadClock, ReadClock, Publish (RabbitMQExchange cfg) (b_ServiceRoutingKey b) False m1 a1]
          @ (if accepted a1 then
               [ReadClock, ReadClock, Publish (DeploymentExchange cfg) (b_ProgressRoutingKey b) False m2 a2]
             else [])"
    "if accepted a1 \<and> accepted a2 then value_of (publishBundle (wired cfg) b) ?w1 = (actionAck, None)
          else fst (value_of (publishBundle (wired cfg) b) ?w1) = actionNackRequeue
            \<and> snd (value_of (publishBundle (wired cfg) b) ?w1) \<noteq> None"
    using run_publishBundle [of ?w1 b s p cfg] assms(8,9) same by auto
  obtain action err where v: "value_of (publishBundle (wired cfg) b) ?w1 = (action, err)" by fastforce
  obtain ok where "calls (replay (wired cfg) msg (Some raw)) ?w1 = calls (publishBundle (wired cfg) b) ?w1
     @ [if err = None \<and> a_ack action then Ack t ok else Nack t (err \<noteq> None \<or> a_requeue action)]"
    using calls_replay [OF assms(3,7) v] by blast
  moreover have "(if err = None \<and> a_ack action then Ack t ok else Nack t (err \<noteq> None \<or> a_requeue action))
      = (if accepted a1 \<and> accepted a2 then Ack t ok else Nack t True)"
    using pb(4) v by (auto split: if_splits)
  ultimately show ?thesis
    using pb(1-3) step
    by (intro exI [of _ m1] exI [of _ a1] exI [of _ m2] exI [of _ a2] exI [of _ ok]) simp
qed
definition sample_bundle :: buildResultEvents where
  "sample_bundle = \<lparr>b_ServiceRoutingKey = ''build.succeeded'', b_ServiceEvent = Some (JStr ''service''),
     b_ProgressRoutingKey = ''deployment.build'', b_ProgressEvent = Some (JStr ''progress'')\<rparr>"

definition completed_world :: world where
  "completed_world = calm_world\<lparr>rows := [(''d1'', ''build'') \<mapsto> running_row\<lparr>g_state := StateCompleted, g_lease := None,
     g_result := Some (print_json (bundle_json sample_bundle))\<rparr>]\<rparr>"

theorem accept_replays_result_witness:
  "\<exists>m1 a1 m2 a2 ok.
      m_Body m1 = print_json (JStr ''service'') \<and> m_Body m2 = print_json (JStr ''progress'')
      \<and> calls (acceptDelivery (wired (loadConfig (\<lambda>_. []))) (sample_delivery sample_body)) completed_world =
          calls (claim_for (loadConfig (\<lambda>_. [])) sample_event) completed_world
          @ [ReadClock, ReadClock, Publish (RabbitMQExchange (loadConfig (\<lambda>_. []))) ''build.succeeded'' False m1 a1]
          @ (if accepted a1 then
               [ReadClock, ReadClock, Publish (DeploymentExchange (loadConfig (\<lambda>_. []))) ''deployment.build'' False m2 a2]
             else [])
          @ [if accepted a1 \<and> accepted a2 then Ack 7 ok else Nack 7 True]"
proof -
  let ?cfg = "loadConfig (\<lambda>_. [])"
  have d: "decode_request (d_Body (sample_delivery sample_body)) = Some sample_event"
    "\<not> invalid_request (d_Body (sample_delivery sample_body))" "d_tag (sample_delivery sample_body) = Some 7"
    by (simp_all add: sample_delivery_def decode_sample sample_valid)
  have i: "se_DeploymentID sample_event = ''d1''" by (simp add: sample_event_def zero_request_def)
  have "json_ok maxNestingDepth (bundle_json sample_bundle)"
    by (simp add: sample_bundle_def bundle_json_def req_def raw_json_def maxNestingDepth_def valid_utf8_ascii
        ascii_literals byte_def)
  then have b: "decode_bundle (print_json (bundle_json sample_bundle)) = Some sample_bundle"
    using decode_bundle_json by (simp add: decode_bundle_def parse_print_json sample_bundle_def)
  have c: "value_of (claim_for ?cfg sample_event) completed_world = Inr (ClaimCompleted,
      record_of_row ''d1'' ''build'' (running_row\<lparr>g_state := StateCompleted, g_lease := None,
        g_result := Some (print_json (bundle_json sample_bundle))\<rparr>))"
    by (simp add: i completed_world_def value_of_def calm_runs record_of_row_def)
  have r: "r_ResultJSON (record_of_row ''d1'' ''build'' (running_row\<lparr>g_state := StateCompleted, g_lease := None,
        g_result := Some (print_json (bundle_json sample_bundle))\<rparr>))
      = Some (print_json (bundle_json sample_bundle))"
    by (simp add: record_of_row_def)
  have k: "b_ServiceRoutingKey sample_bundle = ''build.succeeded''"
    "b_ProgressRoutingKey sample_bundle = ''deployment.build''"
    by (simp_all add: sample_bundle_def)
  have j: "decode_any (float_text (env completed_world)) (b_ServiceEvent sample_bundle) = Some (JStr ''service'')"
    "decode_any (float_text (env completed_world)) (b_ProgressEvent sample_bundle) = Some (JStr ''progress'')"
    by (simp_all add: sample_bundle_def decode_any_def)
  have u: "pub_set completed_world" by (simp add: completed_world_def)
  show ?thesis
    by (rule accept_replays_result [OF d c disjI1 [OF refl] r b j u, unfolded k])
qed
end
