(* ===== verification/NoLoss.thy ===== *)
theory NoLoss
  imports Acceptance
begin

text \<open>
  An acknowledged delivery is never lost: it became a job, a confirmed dead letter, or the confirmed
  replay of a stored result.
\<close>

section \<open>No delivery is lost\<close>

lemma publishStored_acks:
  assumes "value_of (publishStored (wired cfg) raw) w = (action, None)"
  shows "\<exists>k1 m1 a1 k2 m2 a2. calls (publishStored (wired cfg) raw) w =
      [ReadClock, ReadClock, Publish (RabbitMQExchange cfg) k1 False m1 a1,
       ReadClock, ReadClock, Publish (DeploymentExchange cfg) k2 False m2 a2] \<and> accepted a1 \<and> accepted a2
      \<and> action = actionAck"
proof (cases "decode_bundle (stored_text raw)")
  case None
  then show ?thesis using assms by (simp add: publishStored_def run_steps)
next
  case (Some b)
  then have e: "value_of (publishStored (wired cfg) raw) w = value_of (publishBundle (wired cfg) b) w"
    "calls (publishStored (wired cfg) raw) w = calls (publishBundle (wired cfg) b) w"
    by (simp_all add: publishStored_def run_steps calls_def)
  let ?ft = "float_text (env w)"
  obtain s p where sp: "decode_any ?ft (b_ServiceEvent b) = Some s" "decode_any ?ft (b_ProgressEvent b) = Some p"
    using assms e(1) by (auto simp: publishBundle_def run_steps split: option.splits)
  have pub: "pub_set w"
    using assms e(1) sp by (auto simp: publishBundle_def value_of_def run_publishJSONEvent split: if_splits)
  show ?thesis
    using run_publishBundle [OF sp pub, of cfg] assms unfolding e
    by (auto split: if_splits)
qed

text \<open>One more job, in the channel or waiting to get there.\<close>

definition one_more_job :: "buildJob \<Rightarrow> world \<Rightarrow> world \<Rightarrow> bool" where
  "one_more_job job w w' \<longleftrightarrow>
     jobs w' = jobs w @ [job] \<and> parked w' = parked w \<or> jobs w' = jobs w \<and> parked w' = parked w @ [job]"

lemma run_early_ack:
  assumes "d_tag msg = Some t"
  shows "calls (early_ack c msg event) w = [Ack t (acknowledge (env w) (hist w) t = None)]"
    "acknowledge (env w) (hist w) t = None \<Longrightarrow> one_more_job (job_of msg event) w (after (early_ack c msg event) w)"
    "acknowledge (env w) (hist w) t \<noteq> None \<Longrightarrow> jobs (after (early_ack c msg event) w) = jobs w
      \<and> parked (after (early_ack c msg event) w) = parked w"
  using assms
  by (auto simp: early_ack_def calls_def after_def run_ack enqueue_def one_more_job_def split: option.splits)

lemma extending_modify: "(\<And>w. hist (f w) = hist w) \<Longrightarrow> extending (modify f)"
  by (simp add: extending_def)

lemma extending_early_ack: "extending (early_ack c msg event)"
  unfolding early_ack_def enqueue_def
  by (auto intro!: extending_bind extending_accept extending_ret extending_modify split: option.splits)

lemma replay_acks:
  assumes "d_tag msg = Some t" and "Ack t True \<in> set (calls (replay (wired cfg) msg raw) w)"
  shows "\<exists>k1 m1 a1 k2 m2 a2. calls (replay (wired cfg) msg raw) w =
      [ReadClock, ReadClock, Publish (RabbitMQExchange cfg) k1 False m1 a1,
       ReadClock, ReadClock, Publish (DeploymentExchange cfg) k2 False m2 a2, Ack t True]
      \<and> accepted a1 \<and> accepted a2"
proof -
  let ?m = "publishStored (wired cfg) raw"
  obtain action err where v: "value_of ?m w = (action, err)" by fastforce
  have r: "replay (wired cfg) msg raw = State_Monad.bind ?m (settle_replay msg)"
    by (simp add: replay_def settle_replay_def)
  have c: "calls (replay (wired cfg) msg raw) w = calls ?m w @ calls (settle_replay msg (action, err)) (after ?m w)"
    unfolding r
    using calls_bind [OF framed_extending [OF wired.publishStored_framed] extending_settle_replay, where w = w]
    by (simp add: v)
  have "list_all publish_call (calls ?m w)"
    using framedD(2) [OF wired.publishStored_framed] .
  then have "Ack t True \<notin> set (calls ?m w)"
    by (auto simp: list_all_iff call_kinds)
  then have a: "Ack t True \<in> set (calls (settle_replay msg (action, err)) (after ?m w))"
    using assms(2) c by simp
  then have "err = None" "calls (settle_replay msg (action, err)) (after ?m w) = [Ack t True]"
    by (auto simp: calls_settle_replay [OF assms(1)] split: if_splits)
  then show ?thesis
    using publishStored_acks [of cfg raw w action] v c by auto
qed



end
