(* ===== verification/StageProps.thy ===== *)
theory StageProps
  imports NoLoss
begin

text \<open>
  The stage body: a result is recorded in the ledger before it is announced, what is announced is
  what was recorded, the work directory is removed whatever happens, and an unacknowledged result
  always comes with an error.
\<close>

section \<open>Announcing\<close>

lemma publishJSONEvent_rows [simp]: "rows (after (publishJSONEvent ex k x) w) = rows w"
  by (auto simp: after_def run_publishJSONEvent run_publishJSON Let_def split: sum.splits)

lemma extending_publish: "extending (publishJSONEvent ex k x)"
  by (rule framed_extending [OF framed_publishJSONEvent])

lemma is_publish_simps [simp]:
  "\<not> is_publish ReadClock" "\<not> is_publish (Sql s)" "\<not> is_publish (RenewalTicks t)"
  "\<not> is_publish (MkdirTemp t)" "\<not> is_publish (Fs f)"
  by (simp_all add: is_publish_def)

lemma publish_event:
  assumes "outbound_json x = Inr j"
  shows "(\<exists>m a. m_Body m = print_json j
        \<and> filter is_publish (calls (publishJSONEvent ex k x) w) = [Publish ex k False m a]
        \<and> (value_of (publishJSONEvent ex k x) w = None \<longleftrightarrow> accepted a))
    \<or> filter is_publish (calls (publishJSONEvent ex k x) w) = [] \<and> value_of (publishJSONEvent ex k x) w \<noteq> None"
proof (cases "pub_set w")
  case True
  let ?m = "json_message j (clock (env w) (hist w)) (clock (env w) (hist w @ [ReadClock]))"
  let ?a = "broker (env w) (hist w @ [ReadClock, ReadClock]) ex k False ?m"
  have v: "value_of (publishJSONEvent ex k x) w = outcome_error False ?a"
    using True assms by (simp add: value_of_def run_publishJSONEvent run_publishJSON Let_def)
  have c: "filter is_publish (calls (publishJSONEvent ex k x) w) = [Publish ex k False ?m ?a]"
    using True assms
    by (simp add: calls_def after_def run_publishJSONEvent run_publishJSON Let_def)
  show ?thesis
    unfolding v c outcome_error_plain
    by (intro disjI1 exI [of _ ?m] exI [of _ ?a]) simp
qed (simp add: calls_def value_of_def after_def run_publishJSONEvent)

text \<open>What two events sent one after the other look like from outside.\<close>

definition announced :: "string \<times> string \<times> json \<Rightarrow> string \<times> string \<times> json \<Rightarrow> call list \<Rightarrow> bool \<Rightarrow> bool" where
  "announced e1 e2 es both \<longleftrightarrow>
     (case (e1, e2) of ((ex1, k1, j1), (ex2, k2, j2)) \<Rightarrow>
       es = [] \<and> \<not> both
       \<or> (\<exists>m1 a1. m_Body m1 = print_json j1 \<and> \<not> both \<and> es = [Publish ex1 k1 False m1 a1])
       \<or> (\<exists>m1 a1 m2 a2. m_Body m1 = print_json j1 \<and> m_Body m2 = print_json j2 \<and> accepted a1
           \<and> both = accepted a2 \<and> es = [Publish ex1 k1 False m1 a1, Publish ex2 k2 False m2 a2]))"

lemma announceFailure_announced:
  assumes "outbound_json x = Inr s" and "outbound_json y = Inr p"
  shows "announced (RabbitMQExchange cfg, BuildFailedRoutingKey cfg, s)
      (DeploymentExchange cfg, DeploymentBuildFailedRoutingKey cfg, p)
      (filter is_publish (calls (announceFailure (wired cfg) x y e) w))
      (a_ack (fst (value_of (announceFailure (wired cfg) x y e) w)))
    \<and> rows (after (announceFailure (wired cfg) x y e) w) = rows w"
proof -
  let ?P1 = "publishJSONEvent (RabbitMQExchange cfg) (BuildFailedRoutingKey cfg) x"
    and ?P2 = "publishJSONEvent (DeploymentExchange cfg) (DeploymentBuildFailedRoutingKey cfg) y"
  let ?w1 = "after ?P1 w"
  have k2: "extending (case r2 of
        Some e' \<Rightarrow> ret (actionNackRequeue, Some (Wrapped (error_text e @ ''; publish deployment build failed event: '') e'))
      | None \<Rightarrow> ret (actionAck, Some e))" for r2
    by (auto intro: extending_ret split: option.splits)
  have k1: "extending (case r1 of
        Some e' \<Rightarrow> ret (actionNackRequeue, Some (Wrapped (error_text e @ ''; publish build failed event: '') e'))
      | None \<Rightarrow> State_Monad.bind ?P2 (\<lambda>r2. case r2 of
        Some e' \<Rightarrow> ret (actionNackRequeue, Some (Wrapped (error_text e @ ''; publish deployment build failed event: '') e'))
      | None \<Rightarrow> ret (actionAck, Some e)))" for r1
    by (auto intro!: extending_ret extending_bind extending_publish k2 split: option.splits)
  have c: "calls (announceFailure (wired cfg) x y e) w = calls ?P1 w @
      (if value_of ?P1 w = None then calls ?P2 ?w1 else [])"
    unfolding announceFailure_def publishing_wired wired_fields
    by (subst calls_bind [OF extending_publish k1])
      (auto simp: calls_bind [OF extending_publish k2] split: option.splits)
  have v: "a_ack (fst (value_of (announceFailure (wired cfg) x y e) w))
      \<longleftrightarrow> value_of ?P1 w = None \<and> value_of ?P2 ?w1 = None"
    by (auto simp: announceFailure_def run_steps split: option.splits)
  have r: "rows (after (announceFailure (wired cfg) x y e) w) = rows w"
    by (auto simp: announceFailure_def run_steps split: option.splits)
  show ?thesis
    using publish_event [OF assms(1), of "RabbitMQExchange cfg" "BuildFailedRoutingKey cfg" w]
      publish_event [OF assms(2), of "DeploymentExchange cfg" "DeploymentBuildFailedRoutingKey cfg" ?w1]
    unfolding c v r announced_def by auto
qed


section \<open>Failures\<close>

text \<open>The record of a failure, made from the two instants read first.\<close>

definition failure_record :: "Config \<Rightarrow> world \<Rightarrow> build_request \<Rightarrow> BuildResult \<Rightarrow> goerr \<Rightarrow> goerr + buildResultEvents" where
  "failure_record cfg w event res err =
     makeBuildResultEvents (BuildFailedRoutingKey cfg)
       (Failed (newBuildFailedEvent (clock (env w) (hist w)) event res err))
       (DeploymentBuildFailedRoutingKey cfg)
       (Deployment (newBuildFailedDeploymentEvent (clock (env w) (hist w @ [ReadClock])) event res err))"

lemma calls_sql: "calls (sql_do s) w = [Sql s]"
  by (auto simp: sql_do_def calls_def after_def split: option.splits sql_fault.splits)

lemma pg_Fail_steps:
  "calls (pg_Fail i s b) w = [Sql (UpdateResult i s StateFailed (print_json (bundle_json b)))]"
  "calls (pg_Complete i s b) w = [Sql (UpdateResult i s StateCompleted (print_json (bundle_json b)))]"
  by (simp_all add: pg_Fail_def pg_Complete_def pg_set_def calls_sql
      calls_bind [OF framed_extending [OF framed_sql_do] extending_ret])

lemma record_documents:
  assumes "makeBuildResultEvents sk x pk y = Inr b"
  shows "outbound_json x = Inr (raw_json (b_ServiceEvent b)) \<and> outbound_json y = Inr (raw_json (b_ProgressEvent b))
    \<and> b_ServiceRoutingKey b = sk \<and> b_ProgressRoutingKey b = pk"
  using assms by (auto simp: makeBuildResultEvents_def raw_json_def split: sum.splits)

lemma failure_recorded:
  assumes "pg_view w (se_DeploymentID event) = Some old"
  shows "let m = completeFailure (wired cfg) event res err;
      sent = filter is_publish (calls m w); acked = a_ack (fst (value_of m w))
    in sent = [] \<and> \<not> acked
       \<or> (\<exists>b doc. failure_record cfg w event res err = Inr b
           \<and> jsonb (env w) (print_json (bundle_json b)) = Some doc
           \<and> pg_view (after m w) (se_DeploymentID event) = Some (old\<lparr>e_status := Broken (Some doc)\<rparr>)
           \<and> announced (RabbitMQExchange cfg, BuildFailedRoutingKey cfg, raw_json (b_ServiceEvent b))
               (DeploymentExchange cfg, DeploymentBuildFailedRoutingKey cfg, raw_json (b_ProgressEvent b)) sent acked)"
proof -
  let ?i = "se_DeploymentID event" and ?m = "completeFailure (wired cfg) event res err"
  define w2 where "w2 = w\<lparr>hist := hist w @ [ReadClock, ReadClock]\<rparr>"
  let ?x = "Failed (newBuildFailedEvent (clock (env w) (hist w)) event res err)"
  let ?y = "Deployment (newBuildFailedDeploymentEvent (clock (env w) (hist w @ [ReadClock])) event res err)"
  have v2: "pg_view w2 ?i = Some old" "env w2 = env w"
    using assms by (simp_all add: w2_def pg_view_row)
  show ?thesis
  proof (cases "failure_record cfg w event res err")
    case (Inl e)
    then have "run_state ?m w = ((actionNackRequeue, Some e), w2)"
      by (simp add: completeFailure_def failure_record_def Let_def w2_def)
    then show ?thesis by (simp add: Let_def calls_def value_of_def after_def w2_def)
  next
    case (Inr b)
    let ?f = "pg_Fail ?i build_stage b" and ?w3 = "after (pg_Fail ?i build_stage b) w2"
    let ?a = "announceFailure (wired cfg) ?x ?y err"
    have run: "run_state ?m w = (case value_of ?f w2 of
        Some e \<Rightarrow> ((actionNackRequeue, Some (Wrapped ''persist build failure: '' e)), ?w3)
      | None \<Rightarrow> run_state ?a ?w3)"
      using Inr
      by (simp add: completeFailure_def failure_record_def Let_def w2_def run_state_value_after [of ?f]
          postgres_fields split: option.split)
    have h3: "hist ?w3 = hist w @ [ReadClock, ReadClock, Sql (UpdateResult ?i build_stage StateFailed (print_json (bundle_json b)))]"
      using extending_hist [OF framed_extending [OF framed_postgres(4)], of ?i build_stage b w2]
      by (simp add: pg_Fail_steps w2_def)
    show ?thesis
    proof (cases "value_of ?f w2")
      case (Some e)
      then show ?thesis
        using run h3 by (simp add: Let_def calls_def value_of_def after_def)
    next
      case None
      obtain doc where doc: "jsonb (env w) (print_json (bundle_json b)) = Some doc"
        "pg_view ?w3 ?i = Some (old\<lparr>e_status := Broken (Some doc)\<rparr>)"
        using pg.fail_ok [OF v2(1), of b] None v2(2) by (auto simp: postgres_fields)
      have "extending ?a"
        by (rule framed_extending [OF wired.announceFailure_framed])
      then have "hist (after ?a ?w3) = hist ?w3 @ calls ?a ?w3" by (rule extending_hist)
      then have c: "filter is_publish (calls ?m w) = filter is_publish (calls ?a ?w3)"
        "value_of ?m w = value_of ?a ?w3" "after ?m w = after ?a ?w3"
        using run None h3 by (simp_all add: calls_def [of ?m] value_of_def after_def)
      have r: "outbound_json ?x = Inr (raw_json (b_ServiceEvent b))" "outbound_json ?y = Inr (raw_json (b_ProgressEvent b))"
        using record_documents [OF Inr [unfolded failure_record_def]] by simp_all
      show ?thesis
        using announceFailure_announced [OF r, of cfg err ?w3] Inr doc
        by (simp add: Let_def c pg_view_def)
    qed
  qed
qed

text \<open>
  C16: A failure is recorded before it is announced, and what is announced is what was recorded. For
  a claimed deployment, completing a failure either publishes nothing and is not acknowledged, or
  the ledger holds the record of the failure, the service event published is the recorded one, the
  recorded progress event follows once it was confirmed, and the result is an acknowledgement
  exactly when both were confirmed.
\<close>

theorem failure_recorded_then_announced:
  assumes "pg_view w (se_DeploymentID event) = Some old"
  shows "let m = completeFailure (wired cfg) event res err;
      sent = filter is_publish (calls m w); acked = a_ack (fst (value_of m w))
    in sent = [] \<and> \<not> acked
       \<or> (\<exists>b doc. failure_record cfg w event res err = Inr b
           \<and> jsonb (env w) (print_json (bundle_json b)) = Some doc
           \<and> pg_view (after m w) (se_DeploymentID event) = Some (old\<lparr>e_status := Broken (Some doc)\<rparr>)
           \<and> announced (RabbitMQExchange cfg, BuildFailedRoutingKey cfg, raw_json (b_ServiceEvent b))
               (DeploymentExchange cfg, DeploymentBuildFailedRoutingKey cfg, raw_json (b_ProgressEvent b)) sent acked)"
  using assms by (rule failure_recorded)

section \<open>Successes\<close>

text \<open>Renewals after the result was recorded find the stage finished and change nothing.\<close>

lemma renewals_keep_result:
  assumes "pg_wf w" and "pg_view w i = Some e" and "terminal (e_status e)"
  shows "pg_wf (after (renew_times PostgresStageLedger i d n) w)
    \<and> pg_view (after (renew_times PostgresStageLedger i d n) w) i = Some e"
  using assms
proof (induction n arbitrary: w)
  case (Suc n)
  have "renew_spec u e = e" for u
    using Suc.prems(3) by (cases "e_status e") (simp_all add: renew_spec_def terminal_def)
  then have "pg_view (after (Renew PostgresStageLedger i build_stage d) w) i = Some e"
    using pg.renew_any [OF Suc.prems(1,2), of d] Suc.prems(2) by auto
  moreover have "pg_wf (after (Renew PostgresStageLedger i build_stage d) w)"
    using pg.wf_op [OF Suc.prems(1), of "OpRenew i d"] by (simp add: pg.after_run_op)
  ultimately show ?case using Suc by (simp add: run_steps)
qed simp

lemma ticks_keep_result:
  assumes "pg_wf w" and "pg_view w i = Some e" and "terminal (e_status e)"
  shows "pg_wf (after (lease_ticks (wired cfg) i) w) \<and> pg_view (after (lease_ticks (wired cfg) i) w) i = Some e"
proof -
  let ?w1 = "w\<lparr>hist := hist w @ [RenewalTicks i]\<rparr>"
  have "pg_wf ?w1" "pg_view ?w1 i = Some e"
    using assms by (simp_all add: pg_wf_def pg_view_row)
  moreover have "after (lease_ticks (wired cfg) i) w
      = after (renew_times PostgresStageLedger i (LeaseDuration cfg) (renewal_ticks (env w) (hist w))) ?w1"
    by (simp add: lease_ticks_def run_steps) (simp add: after_def value_of_def)
  ultimately show ?thesis using renewals_keep_result assms(3) by simp
qed

lemma ticks_publish_nothing: "filter is_publish (calls (lease_ticks (wired cfg) i) w) = []"
proof -
  have "framed renewal_call (renew_times PostgresStageLedger j d n)" for j d n
    by (induction n)
      (auto intro!: framed_intros framed_weaken [OF framed_postgres(2)] simp: postgres_fields renewal_call_def)
  then have "framed renewal_call (lease_ticks (wired cfg) i)"
    unfolding lease_ticks_def wired_fields
    by (auto intro!: framed_intros framed_emit simp: renewal_call_def)
  then have "list_all renewal_call (calls (lease_ticks (wired cfg) i) w)" by (rule framedD(2))
  then show ?thesis
    by (auto simp: filter_empty_conv list_all_iff call_kinds)
qed

definition event_document :: "outbound \<Rightarrow> json" where
  "event_document x = (case outbound_json x of Inl _ \<Rightarrow> JNull | Inr j \<Rightarrow> j)"

text \<open>The record of a success, made from the two instants read first.\<close>

definition success_record :: "Config \<Rightarrow> world \<Rightarrow> build_request \<Rightarrow> BuildResult \<Rightarrow> goerr + buildResultEvents" where
  "success_record cfg w event res =
     makeBuildResultEvents (BuildSucceededRoutingKey cfg)
       (Succeeded (newBuildSucceededEvent (clock (env w) (hist w)) event res))
       (DeploymentBuildSucceededRoutingKey cfg)
       (Deployment (newBuildSucceededDeploymentEvent (clock (env w) (hist w @ [ReadClock])) event res))"

lemma publish_any_event:
  "(\<exists>m a. m_Body m = print_json (event_document x)
        \<and> filter is_publish (calls (publishJSONEvent ex k x) w) = [Publish ex k False m a]
        \<and> (value_of (publishJSONEvent ex k x) w = None \<longleftrightarrow> accepted a))
    \<or> filter is_publish (calls (publishJSONEvent ex k x) w) = [] \<and> value_of (publishJSONEvent ex k x) w \<noteq> None"
proof (cases "outbound_json x")
  case (Inr j)
  then show ?thesis using publish_event [OF Inr, of ex k w] by (simp add: event_document_def)
qed (auto simp: calls_def value_of_def after_def run_publishJSONEvent run_publishJSON)

lemma extending_ticks: "extending (lease_ticks (wired cfg) i)"
  by (rule framed_extending [OF wired.lease_ticks_framed])

lemma publishJSONEvent_view:
  "pg_view (after (publishJSONEvent ex k x) w) = pg_view w" "pg_wf (after (publishJSONEvent ex k x) w) = pg_wf w"
  by (simp_all add: pg_view_def pg_wf_def)

lemma announceSuccess_announced:
  assumes "pg_wf w" and "pg_view w (se_DeploymentID event) = Some e" and "terminal (e_status e)"
  shows "\<exists>t. announced (RabbitMQExchange cfg, BuildSucceededRoutingKey cfg, event_document x)
      (DeploymentExchange cfg, DeploymentBuildSucceededRoutingKey cfg,
        event_document (Deployment (newBuildSucceededDeploymentEvent t event res)))
      (filter is_publish (calls (announceSuccess (wired cfg) event res x) w))
      (a_ack (fst (value_of (announceSuccess (wired cfg) event res x) w)))
    \<and> pg_view (after (announceSuccess (wired cfg) event res x) w) (se_DeploymentID event) = Some e"
proof -
  let ?i = "se_DeploymentID event"
  let ?P1 = "publishJSONEvent (RabbitMQExchange cfg) (BuildSucceededRoutingKey cfg) x"
    and ?L = "lease_ticks (wired cfg) ?i"
  define w1 where "w1 = after ?P1 w"
  define w2 where "w2 = after ?L w1"
  define t where "t = clock (env w2) (hist w2)"
  define w3 where "w3 = after time_now w2"
  let ?y = "Deployment (newBuildSucceededDeploymentEvent t event res)"
  let ?P2 = "publishJSONEvent (DeploymentExchange cfg) (DeploymentBuildSucceededRoutingKey cfg) ?y"
  define w4 where "w4 = after ?P2 w3"
  define w5 where "w5 = after ?L w4"
  have v1: "pg_wf w1" "pg_view w1 ?i = Some e"
    using assms by (simp_all add: w1_def publishJSONEvent_view)
  have v2: "pg_wf w2" "pg_view w2 ?i = Some e"
    using ticks_keep_result [OF v1 assms(3)] by (simp_all add: w2_def)
  have v3: "pg_wf w3" "pg_view w3 ?i = Some e"
    using v2 by (simp_all add: w3_def pg_view_row pg_wf_def)
  have v4: "pg_wf w4" "pg_view w4 ?i = Some e"
    using v3 by (simp_all add: w4_def publishJSONEvent_view)
  have v5: "pg_view w5 ?i = Some e"
    using ticks_keep_result [OF v4 assms(3)] by (simp add: w5_def)
  let ?m = "announceSuccess (wired cfg) event res x"
  have v: "value_of ?m w = (case value_of ?P1 w of
      Some e' \<Rightarrow> (actionNackRequeue, Some (Wrapped ''publish build succeeded event: '' e'))
    | None \<Rightarrow> (case value_of ?P2 w3 of
        Some e' \<Rightarrow> (actionNackRequeue, Some (Wrapped ''publish deployment build succeeded event: '' e'))
      | None \<Rightarrow> (actionAck, None)))"
    by (simp add: announceSuccess_def run_steps w1_def w2_def w3_def t_def split: option.split)
  have f: "after ?m w = (if value_of ?P1 w = None then w5 else w2)"
    by (auto simp: announceSuccess_def run_steps w1_def w2_def w3_def w4_def w5_def t_def split: option.split)
  have h: "hist w2 = hist w @ calls ?P1 w @ calls ?L w1"
    "hist w5 = hist w @ calls ?P1 w @ calls ?L w1 @ [ReadClock] @ calls ?P2 w3 @ calls ?L w4"
    using extending_hist [OF extending_publish] extending_hist [OF extending_ticks]
    by (simp_all add: w1_def w2_def w3_def w4_def w5_def)
  have c: "filter is_publish (calls ?m w) = filter is_publish (calls ?P1 w)
      @ (if value_of ?P1 w = None then filter is_publish (calls ?P2 w3) else [])"
    using h by (auto simp: calls_def [of ?m] f ticks_publish_nothing)
  have a: "a_ack (fst (value_of ?m w)) \<longleftrightarrow> value_of ?P1 w = None \<and> value_of ?P2 w3 = None"
    by (auto simp: v split: option.split)
  have "pg_view (after ?m w) ?i = Some e"
    using v2 v5 by (auto simp: f)
  then show ?thesis
    using publish_any_event [of x "RabbitMQExchange cfg" "BuildSucceededRoutingKey cfg" w]
      publish_any_event [of ?y "DeploymentExchange cfg" "DeploymentBuildSucceededRoutingKey cfg" w3]
    unfolding c a announced_def by (intro exI [of _ t]) auto
qed


lemma success_recorded:
  assumes "pg_wf w" and "pg_view w (se_DeploymentID event) = Some old"
  shows "let m = completeSuccess (wired cfg) event res;
      sent = filter is_publish (calls m w); acked = a_ack (fst (value_of m w))
    in sent = [] \<and> \<not> acked
       \<or> (\<exists>b doc t. success_record cfg w event res = Inr b
           \<and> jsonb (env w) (print_json (bundle_json b)) = Some doc
           \<and> pg_view (after m w) (se_DeploymentID event) = Some (old\<lparr>e_status := Done (Some doc)\<rparr>)
           \<and> announced (RabbitMQExchange cfg, BuildSucceededRoutingKey cfg, raw_json (b_ServiceEvent b))
               (DeploymentExchange cfg, DeploymentBuildSucceededRoutingKey cfg,
                event_document (Deployment (newBuildSucceededDeploymentEvent t event res))) sent acked)"
proof -
  let ?i = "se_DeploymentID event" and ?m = "completeSuccess (wired cfg) event res"
  define w2 where "w2 = w\<lparr>hist := hist w @ [ReadClock, ReadClock]\<rparr>"
  let ?x = "Succeeded (newBuildSucceededEvent (clock (env w) (hist w)) event res)"
  have v2: "pg_wf w2" "pg_view w2 ?i = Some old" "env w2 = env w"
    using assms by (simp_all add: w2_def pg_view_row pg_wf_def)
  show ?thesis
  proof (cases "success_record cfg w event res")
    case (Inl e)
    then have "run_state ?m w = ((actionNackRequeue, Some e), w2)"
      by (simp add: completeSuccess_def success_record_def Let_def w2_def)
    then show ?thesis by (simp add: Let_def calls_def value_of_def after_def w2_def)
  next
    case (Inr b)
    let ?f = "pg_Complete ?i build_stage b" and ?L = "lease_ticks (wired cfg) ?i"
    define w3 where "w3 = after ?f w2"
    define w4 where "w4 = after ?L w3"
    let ?a = "announceSuccess (wired cfg) event res ?x"
    have v: "value_of ?m w = (case value_of ?f w2 of
        Some e \<Rightarrow> (actionNackRequeue, Some (Wrapped ''persist build result: '' e)) | None \<Rightarrow> value_of ?a w4)"
      and f: "after ?m w = (if value_of ?f w2 = None then after ?a w4 else w4)"
      using Inr
      by (auto simp: completeSuccess_def success_record_def Let_def w2_def w3_def w4_def run_steps
          postgres_fields split: option.split)
    have h4: "hist w4 = hist w @ [ReadClock, ReadClock,
        Sql (UpdateResult ?i build_stage StateCompleted (print_json (bundle_json b)))] @ calls ?L w3"
      using extending_hist [OF framed_extending [OF framed_postgres(3)], of ?i build_stage b w2]
        extending_hist [OF extending_ticks, of cfg ?i w3]
      by (simp add: pg_Fail_steps w2_def w3_def w4_def)
    show ?thesis
    proof (cases "value_of ?f w2")
      case (Some e)
      then have "filter is_publish (calls ?m w) = []" "\<not> a_ack (fst (value_of ?m w))"
        using h4 by (simp_all add: calls_def [of ?m] f v ticks_publish_nothing)
      then show ?thesis by (simp add: Let_def)
    next
      case None
      obtain doc where doc: "jsonb (env w) (print_json (bundle_json b)) = Some doc"
        "pg_view w3 ?i = Some (old\<lparr>e_status := Done (Some doc)\<rparr>)"
        using pg.complete_ok [OF v2(2), of b] None v2(3) by (auto simp: postgres_fields w3_def)
      have t: "terminal (e_status (old\<lparr>e_status := Done (Some doc)\<rparr>))" by (simp add: terminal_def)
      have "pg_wf w3"
        using pg.wf_op [OF v2(1), of "OpComplete ?i b"] by (simp add: w3_def pg.after_run_op postgres_fields)
      then have v4: "pg_wf w4" "pg_view w4 ?i = Some (old\<lparr>e_status := Done (Some doc)\<rparr>)"
        using ticks_keep_result [OF _ doc(2) t] by (simp_all add: w4_def)
      have "extending ?a"
        by (rule framed_extending [OF wired.announceSuccess_framed])
      then have "hist (after ?a w4) = hist w4 @ calls ?a w4" by (rule extending_hist)
      then have c: "filter is_publish (calls ?m w) = filter is_publish (calls ?a w4)"
        "value_of ?m w = value_of ?a w4" "after ?m w = after ?a w4"
        using None h4 by (simp_all add: calls_def [of ?m] f v ticks_publish_nothing)
      have "event_document ?x = raw_json (b_ServiceEvent b)"
        using record_documents [OF Inr [unfolded success_record_def]] by (simp add: event_document_def)
      then show ?thesis
        using announceSuccess_announced [OF v4 t, where cfg = cfg and x = ?x and res = res] Inr doc
        by (auto simp: Let_def c)
    qed
  qed
qed

text \<open>
  C17: A success is recorded before it is announced. For a claimed deployment, completing a build
  either publishes nothing and is not acknowledged, or the ledger holds the record of the success,
  which the renewals that still happen leave alone, the service event published is the recorded
  one, and the progress event that follows it has the recorded content but for its time stamp; the
  result is an acknowledgement exactly when both were confirmed.
\<close>

theorem success_recorded_then_announced:
  assumes "pg_wf w" and "pg_view w (se_DeploymentID event) = Some old"
  shows "let m = completeSuccess (wired cfg) event res;
      sent = filter is_publish (calls m w); acked = a_ack (fst (value_of m w))
    in sent = [] \<and> \<not> acked
       \<or> (\<exists>b doc t. success_record cfg w event res = Inr b
           \<and> jsonb (env w) (print_json (bundle_json b)) = Some doc
           \<and> pg_view (after m w) (se_DeploymentID event) = Some (old\<lparr>e_status := Done (Some doc)\<rparr>)
           \<and> announced (RabbitMQExchange cfg, BuildSucceededRoutingKey cfg, raw_json (b_ServiceEvent b))
               (DeploymentExchange cfg, DeploymentBuildSucceededRoutingKey cfg,
                event_document (Deployment (newBuildSucceededDeploymentEvent t event res))) sent acked)"
  using assms by (rule success_recorded)

section \<open>Errors are reported\<close>

text \<open>A computation whose result is acknowledged or comes with an error.\<close>

definition reporting :: "(deliveryAction \<times> goerr option) M \<Rightarrow> bool" where
  "reporting m \<longleftrightarrow> (\<forall>w. a_ack (fst (value_of m w)) \<or> snd (value_of m w) \<noteq> None)"

lemma reporting_ret: "a_ack a \<or> e \<noteq> None \<Longrightarrow> reporting (ret (a, e))"
  by (simp add: reporting_def)

lemma reporting_bind: "(\<And>x. reporting (f x)) \<Longrightarrow> reporting (State_Monad.bind m f)"
  by (simp add: reporting_def value_of_bind)

lemma reporting_option: "(y = None \<Longrightarrow> reporting n) \<Longrightarrow> (\<And>x. y = Some x \<Longrightarrow> reporting (f x))
    \<Longrightarrow> reporting (case y of None \<Rightarrow> n | Some x \<Rightarrow> f x)"
  by (cases y) simp_all

lemma reporting_sum: "(\<And>x. z = Inl x \<Longrightarrow> reporting (g x)) \<Longrightarrow> (\<And>x. z = Inr x \<Longrightarrow> reporting (h x))
    \<Longrightarrow> reporting (case z of Inl x \<Rightarrow> g x | Inr x \<Rightarrow> h x)"
  by (cases z) simp_all

lemma reporting_prod: "(\<And>u v. p = (u, v) \<Longrightarrow> reporting (q u v)) \<Longrightarrow> reporting (case p of (u, v) \<Rightarrow> q u v)"
  by (cases p) simp

lemma reporting_if: "(b \<Longrightarrow> reporting k) \<Longrightarrow> (\<not> b \<Longrightarrow> reporting l) \<Longrightarrow> reporting (if b then k else l)"
  by simp

lemma reporting_let: "reporting (r e) \<Longrightarrow> reporting (Let e r)"
  by simp

lemmas reporting_cases = reporting_option reporting_sum reporting_prod reporting_if reporting_let

lemmas reporting_intros = reporting_bind reporting_cases

lemma reporting_failure: "reporting (completeFailure c event res e)"
  unfolding completeFailure_def announceFailure_def
  by (intro reporting_intros; intro reporting_ret; simp)

lemma reporting_stored: "reporting (publishStored c raw)"
  unfolding publishStored_def publishBundle_def
  by (intro reporting_intros; intro reporting_ret; simp)

lemma reporting_success: "reporting (completeSuccess c event res)"
  unfolding completeSuccess_def announceSuccess_def
  by (intro reporting_intros; intro reporting_ret; simp)

lemma reporting_build: "reporting (build_in c event d)"
  unfolding build_in_def
  by (intro reporting_let reporting_bind reporting_option reporting_failure reporting_success;
      (intro reporting_bind reporting_ret)?; simp)

lemma reporting_handler: "reporting (handleClaimedBuildEvent c event)"
proof -
  have keep: "reporting m \<Longrightarrow> reporting (do { r \<leftarrow> m; _ \<leftarrow> fs_do f; ret r })" for m f
    by (simp add: reporting_def run_steps)
  show ?thesis
    unfolding handleClaimedBuildEvent_def
    by (intro reporting_bind [where m = time_now] reporting_bind [where m = "publishProgressEvent c a b d" for a b d]
        reporting_bind [where m = "mkdir_temp_do s" for s] reporting_cases reporting_failure
        keep [OF reporting_build] reporting_ret) simp
qed

text \<open>
  C23: A result that is not acknowledged always comes with an error, for any consumer: the handler
  of a message asks for a retry or a dead letter only with a reason, so scheduling one always has a
  cause to report and the error is never nil.
\<close>

theorem unacknowledged_has_error:
  "let r = value_of (handleMessage c body) w in if snd r = None then a_ack (fst r) else True"
proof -
  have "reporting (handleBuildEvent c event)" for event
    unfolding handleBuildEvent_def
    by (auto intro!: reporting_intros reporting_stored reporting_handler reporting_ret split: ClaimDisposition.splits)
  then have "reporting (handleMessage c body)"
    unfolding handleMessage_def by (auto intro!: reporting_intros reporting_ret)
  then show ?thesis by (auto simp: reporting_def Let_def)
qed

section \<open>The work directory\<close>

lemma publish_confirmed:
  assumes "value_of (publishJSONEvent ex k x) w = None"
  shows "\<exists>m a. calls (publishJSONEvent ex k x) w = [ReadClock, ReadClock, Publish ex k False m a] \<and> accepted a"
  using assms
  by (auto simp: value_of_def calls_def after_def run_publishJSONEvent run_publishJSON Let_def
      split: if_splits sum.splits)

lemma idle_completeFailure: "framed starts_nothing (completeFailure (wired cfg) event res e)"
proof -
  have "framed starts_nothing time_now" by (rule framed_time_now) (simp add: starts_nothing_def)
  moreover have "framed starts_nothing (Fail PostgresStageLedger i s b)" for i s b
    unfolding postgres_fields by (rule framed_weaken [OF framed_postgres(4) idle_kinds(1)])
  ultimately show ?thesis
    unfolding completeFailure_def wired_fields
    by (auto intro!: framed_intros framed_weaken [OF wired.announceFailure_framed idle_kinds(2)]
        split: option.splits sum.splits)
qed

text \<open>
  C22: The work directory never outlives the build. Handling a claimed build either stops after the
  started event could not be announced, or announces it, creates the directory, and, if that
  worked, ends by removing exactly that directory, whatever happened in between; if it failed,
  nothing is cloned or built.
\<close>

theorem work_dir_removed:
  "let es = calls (handleClaimedBuildEvent (wired cfg) event) w in
    list_all publish_call es
    \<or> (\<exists>pre m a rest. es = pre @ [Publish (DeploymentExchange cfg) (DeploymentBuildStartedRoutingKey cfg) False m a]
          @ MkdirTemp ''shiply-build-*'' # rest
        \<and> pre = [ReadClock, ReadClock, ReadClock] \<and> accepted a
        \<and> (case mkdir_temp (env w) (hist w @ pre @ [Publish (DeploymentExchange cfg)
                  (DeploymentBuildStartedRoutingKey cfg) False m a]) ''shiply-build-*'' of
             Inl t \<Rightarrow> list_all starts_nothing rest
           | Inr d \<Rightarrow> rest \<noteq> [] \<and> last rest = Fs (RemoveAll d)))"
proof -
  let ?m = "handleClaimedBuildEvent (wired cfg) event"
  let ?x = "Deployment (newBuildStartedDeploymentEvent (clock (env w) (hist w)) event)"
  let ?S = "publishJSONEvent (DeploymentExchange cfg) (DeploymentBuildStartedRoutingKey cfg) ?x"
  define w1 where "w1 = w\<lparr>hist := hist w @ [ReadClock]\<rparr>"
  define w2 where "w2 = after ?S w1"
  define w3 where "w3 = w2\<lparr>hist := hist w2 @ [MkdirTemp ''shiply-build-*'']\<rparr>"
  let ?dir = "mkdir_temp (env w2) (hist w2) ''shiply-build-*''"
  have h2: "hist w2 = hist w @ ReadClock # calls ?S w1"
    using extending_hist [OF extending_publish] by (simp add: w1_def w2_def)
  have f: "after ?m w = (if value_of ?S w1 \<noteq> None then w2 else case ?dir of
      Inl t \<Rightarrow> after (completeFailure (wired cfg) event no_result (Wrapped ''create workdir: '' (ErrText t))) w3
    | Inr d \<Rightarrow> (after (build_in (wired cfg) event d) w3)
        \<lparr>hist := hist (after (build_in (wired cfg) event d) w3) @ [Fs (RemoveAll d)]\<rparr>)"
    by (auto simp: handleClaimedBuildEvent_def run_steps w1_def w2_def w3_def after_def [of "mkdir_temp_do s" for s]
        value_of_def [of "mkdir_temp_do s" for s] after_def [of "fs_do g" for g] split: option.split sum.split)
  show ?thesis
  proof (cases "value_of ?S w1")
    case (Some e)
    then have "calls ?m w = ReadClock # calls ?S w1" by (simp add: calls_def [of ?m] f h2)
    then show ?thesis
      using framedD(2) [OF framed_publishJSONEvent, where w = w1] by (simp add: Let_def publish_call_def)
  next
    case None
    obtain m a where s: "calls ?S w1 = [ReadClock, ReadClock, Publish (DeploymentExchange cfg)
        (DeploymentBuildStartedRoutingKey cfg) False m a]" "accepted a"
      using publish_confirmed [OF None] by blast
    have e2: "env w2 = env w"
      using framedD(3) [OF framed_publishJSONEvent, where w = w1] by (simp add: same_consumer_def w2_def w1_def)
    show ?thesis
    proof (cases ?dir)
      case (Inl t)
      let ?c = "completeFailure (wired cfg) event no_result (Wrapped ''create workdir: '' (ErrText t))"
      have "hist (after ?m w) = hist w3 @ calls ?c w3"
        using extending_hist [OF framed_extending [OF wired.completeFailure_framed]] None Inl by (simp add: f)
      then have c: "calls ?m w = ReadClock # calls ?S w1 @ MkdirTemp ''shiply-build-*'' # calls ?c w3"
        by (simp add: calls_def [of ?m] w3_def h2)
      have "framed starts_nothing ?c"
        by (rule idle_completeFailure)
      then have "list_all starts_nothing (calls ?c w3)" by (rule framedD(2))
      then show ?thesis
        using s Inl e2 by (simp add: Let_def c h2)
    next
      case (Inr d)
      let ?b = "build_in (wired cfg) event d"
      have "hist (after ?m w) = hist w3 @ calls ?b w3 @ [Fs (RemoveAll d)]"
        using extending_hist [OF framed_extending [OF wired.build_in_framed]] None Inr by (simp add: f)
      then have c: "calls ?m w = ReadClock # calls ?S w1 @ MkdirTemp ''shiply-build-*'' # calls ?b w3 @ [Fs (RemoveAll d)]"
        by (simp add: calls_def [of ?m] w3_def h2)
      show ?thesis
        using s Inr e2 by (simp add: Let_def c h2)
    qed
  qed
qed


section \<open>Concrete instances\<close>

lemma sample_running:
  "pg_view running_world (se_DeploymentID sample_event) = Some (row_entry running_row)"
  by (simp add: pg_view_row build_stage_def sample_event_def zero_request_def)

theorem failure_recorded_then_announced_witness:
  "let m = completeFailure (wired (loadConfig (\<lambda>_. []))) sample_event no_result ErrLeaseBusy;
      sent = filter is_publish (calls m running_world); acked = a_ack (fst (value_of m running_world))
    in sent = [] \<and> \<not> acked
       \<or> (\<exists>b doc. failure_record (loadConfig (\<lambda>_. [])) running_world sample_event no_result ErrLeaseBusy = Inr b
           \<and> jsonb (env running_world) (print_json (bundle_json b)) = Some doc
           \<and> pg_view (after m running_world) (se_DeploymentID sample_event)
               = Some ((row_entry running_row)\<lparr>e_status := Broken (Some doc)\<rparr>)
           \<and> announced (RabbitMQExchange (loadConfig (\<lambda>_. [])), BuildFailedRoutingKey (loadConfig (\<lambda>_. [])),
                 raw_json (b_ServiceEvent b))
               (DeploymentExchange (loadConfig (\<lambda>_. [])), DeploymentBuildFailedRoutingKey (loadConfig (\<lambda>_. [])),
                 raw_json (b_ProgressEvent b)) sent acked)"
  by (rule failure_recorded_then_announced [OF sample_running])

theorem success_recorded_then_announced_witness:
  "let m = completeSuccess (wired (loadConfig (\<lambda>_. []))) sample_event no_result;
      sent = filter is_publish (calls m running_world); acked = a_ack (fst (value_of m running_world))
    in sent = [] \<and> \<not> acked
       \<or> (\<exists>b doc t. success_record (loadConfig (\<lambda>_. [])) running_world sample_event no_result = Inr b
           \<and> jsonb (env running_world) (print_json (bundle_json b)) = Some doc
           \<and> pg_view (after m running_world) (se_DeploymentID sample_event)
               = Some ((row_entry running_row)\<lparr>e_status := Done (Some doc)\<rparr>)
           \<and> announced (RabbitMQExchange (loadConfig (\<lambda>_. [])), BuildSucceededRoutingKey (loadConfig (\<lambda>_. [])),
                 raw_json (b_ServiceEvent b))
               (DeploymentExchange (loadConfig (\<lambda>_. [])), DeploymentBuildSucceededRoutingKey (loadConfig (\<lambda>_. [])),
                event_document (Deployment (newBuildSucceededDeploymentEvent t sample_event no_result))) sent acked)"
  by (rule success_recorded_then_announced [OF running_wf sample_running])

end
