(* ===== verification/RetryProps.thy ===== *)
theory RetryProps
  imports NoLoss
begin

text \<open>
  Retries: the backoff in closed form, the delay queues that are declared and chosen, what
  scheduling a retry sends below and at the limit of attempts.
\<close>

section \<open>Backoff\<close>

lemma backoff_loop_closed:
  "backoff_loop n (2 ^ k * Second) = (if 2 ^ k < (30::int) then 2 ^ min (k + n) (max k 5) * Second else 2 ^ k * Second)"
proof (induction n arbitrary: k)
  case 0
  then show ?case by (simp add: min_def max_def)
next
  case (Suc n)
  show ?case
  proof (cases "2 ^ k < (30::int)")
    case True
    then have "k < 5"
    proof -
      have "\<not> 5 \<le> k" using power_increasing [of 5 k "2::int"] True by auto
      then show ?thesis by simp
    qed
    have "backoff_loop (Suc n) (2 ^ k * Second) = backoff_loop n (2 ^ Suc k * Second)"
      using True by (simp add: Second_def consumerBackoff_step_def mult.commute mult.left_commute)
    also have "\<dots> = (if 2 ^ Suc k < (30::int) then 2 ^ min (Suc k + n) (max (Suc k) 5) * Second else 2 ^ Suc k * Second)"
      by (rule Suc.IH)
    finally show ?thesis
      using True \<open>k < 5\<close> by (cases "k = 4") (auto simp: min_def max_def numeral_eq_Suc less_Suc_eq)
  next
    case False
    then show ?thesis by (simp add: Second_def)
  qed
qed

lemma backoff_closed: "consumerBackoff n = min (2 ^ nat n) 30 * Second"
proof (cases "nat n < 5")
  case True
  then show ?thesis
    using backoff_loop_closed [of "nat n" 0]
    by (auto simp: consumerBackoff_def Second_def numeral_eq_Suc less_Suc_eq)
next
  case False
  then have "2 ^ 5 \<le> (2::int) ^ nat n" by (intro power_increasing) auto
  then show ?thesis
    using backoff_loop_closed [of "nat n" 0] False by (simp add: consumerBackoff_def Second_def)
qed

text \<open>
  C34: The wait before connection attempt n is two to the n seconds, capped at thirty: it is at
  least a second, never more than thirty seconds, and never shorter than the wait before.
\<close>

theorem consumerBackoff_closed:
  "consumerBackoff n = min (2 ^ nat n) 30 * Second
   \<and> Second \<le> consumerBackoff n \<and> consumerBackoff n \<le> 30 * Second
   \<and> consumerBackoff n \<le> consumerBackoff (n + 1)"
proof -
  have "(2::int) ^ nat n \<le> 2 ^ nat (n + 1)" by (intro power_increasing) auto
  moreover have "1 \<le> (2::int) ^ nat n" by simp
  moreover have "min (2 ^ nat n) 30 \<le> min (2 ^ nat (n + 1)) (30::int)"
    using calculation(1) by (rule min.mono) simp
  ultimately show ?thesis unfolding backoff_closed Second_def by (simp add: min_def)
qed

section \<open>The delay queues\<close>

lemma calls_amqp [simp]: "calls (amqp_do c) w = [Amqp c (amqp (env w) (hist w) c = None)]"
  by (simp add: calls_def after_def)

lemma extending_amqp: "extending (amqp_do c)"
  by (simp add: extending_def after_def)

lemma value_amqp [simp]: "value_of (amqp_do c) w = amqp (env w) (hist w) c"
  by (simp add: value_of_def)

lemma extending_declare: "extending (declare_retry_queues cfg i ds)"
  by (induction ds arbitrary: i)
    (auto intro!: extending_bind extending_amqp extending_ret split: option.splits)

lemma declared_queues:
  "value_of (declare_retry_queues cfg i ds) w = None \<Longrightarrow> j < length ds \<Longrightarrow>
     Amqp (QueueDeclare (retry_queue cfg (int (i + j) + 1)) (retry_queue_args cfg (ds ! j))) True
       \<in> set (calls (declare_retry_queues cfg i ds) w)"
proof (induction ds arbitrary: i j w)
  case (Cons d ds)
  let ?q = "QueueDeclare (retry_queue cfg (int i + 1)) (retry_queue_args cfg d)"
  have ok: "amqp (env w) (hist w) ?q = None"
    using Cons.prems(1) by (auto simp: run_steps split: option.splits)
  then have v: "value_of (declare_retry_queues cfg (i + 1) ds) (after (amqp_do ?q) w) = None"
    using Cons.prems(1) by (simp add: run_steps)
  have c: "calls (declare_retry_queues cfg i (d # ds)) w
      = Amqp ?q True # calls (declare_retry_queues cfg (i + 1) ds) (after (amqp_do ?q) w)"
    using ok by (simp add: calls_bind extending_amqp extending_declare)
  show ?case
  proof (cases j)
    case (Suc k)
    then show ?thesis
      using Cons.IH [OF v, of k] Cons.prems(2) unfolding c by (simp add: add.commute add.left_commute)
  qed (unfold c, simp)
qed simp

lemma retry_index_bounds:
  "0 < n \<Longrightarrow> 0 \<le> attempt \<Longrightarrow> 0 \<le> retry_index attempt n \<and> retry_index attempt n < int n"
  by (auto simp: retry_index_def Let_def)




section \<open>What a retry sends\<close>

lemma header_of_retry [simp]: "headerAttempt (m_Headers (retry_publishing msg n cause)) = int32 n"
  and header_of_dead [simp]: "headerAttempt (m_Headers (dead_letter msg e n)) = int32 n"
  by (simp_all add: headerAttempt_def retry_publishing_def dead_letter_def)

lemma body_of_copies [simp]:
  "m_Body (retry_publishing msg n cause) = d_Body msg" "m_Body (dead_letter msg e n) = d_Body msg"
  by (simp_all add: retry_publishing_def dead_letter_def)

text \<open>The message is in the queue, by the confirming channel or by the consumer's own.\<close>

definition sent_to :: "string \<Rightarrow> Publishing \<Rightarrow> call \<Rightarrow> bool" where
  "sent_to queue p e \<longleftrightarrow>
     (\<exists>a. e = Publish [] queue False p a \<and> accepted a) \<or> e = ChannelPublish [] queue p True"

lemma send_retry_sent:
  assumes "value_of (send_retry q p b) w = None"
  shows "calls (send_retry q p b) w \<noteq> [] \<and> sent_to q p (last (calls (send_retry q p b) w))"
  using assms
  by (auto simp: send_retry_def PublishRaw_def value_of_def calls_def after_def run_publish sent_to_def Let_def
      split: if_splits option.splits dest: outcome_error_SomeD)

lemma dead_letter_sent:
  assumes "value_of (copyToDLQWithAttempt c msg cause n) w = None"
  shows "\<exists>a. calls (copyToDLQWithAttempt c msg cause n) w
      = [Publish [] (DLQ (c_cfg c)) False (dead_letter msg cause n) a] \<and> accepted a"
  using assms
  by (auto simp: run_copyToDLQ value_of_def calls_def after_def Let_def split: if_splits)

lemmas retry_framed = framed_extending [OF wired.retry_attempt_framed]
  framed_extending [OF wired.emitRetrying_framed] framed_extending [OF wired.releaseClaim_framed]
  framed_extending [OF wired.send_retry_framed] framed_extending [OF wired.emitExhausted_framed]
  framed_extending [OF wired.copyToDLQ_framed]

lemma extending_delay: "extending (delay_retry (wired cfg) msg cause count n p)"
  unfolding delay_retry_def
  by (auto intro!: extending_bind extending_ret retry_framed split: option.splits)

lemma calls_schedule:
  assumes "value_of (retry_attempt (wired cfg) msg cause) w = (n, p)"
  shows "n < MaxAttempts cfg \<Longrightarrow> calls (scheduleRetry (wired cfg) msg cause count) w
      = calls (retry_attempt (wired cfg) msg cause) w
        @ calls (delay_retry (wired cfg) msg cause count n p) (after (retry_attempt (wired cfg) msg cause) w)"
    and "n < MaxAttempts cfg \<Longrightarrow> value_of (scheduleRetry (wired cfg) msg cause count) w
      = value_of (delay_retry (wired cfg) msg cause count n p) (after (retry_attempt (wired cfg) msg cause) w)"
  using assms
  by (simp_all add: scheduleRetry_def calls_bind retry_framed extending_delay value_of_bind)

lemma delay_retry_sent:
  assumes "value_of (delay_retry (wired cfg) msg cause count n p) w = None"
  shows "calls (delay_retry (wired cfg) msg cause count n p) w \<noteq> []
    \<and> sent_to (retry_queue cfg (retry_index n (length (RetryBackoffs cfg)) + 1)) (retry_publishing msg n cause)
        (last (calls (delay_retry (wired cfg) msg cause count n p) w))"
proof -
  let ?a = "if count then emitRetrying (wired cfg) (d_Body msg) n cause else ret None"
  let ?b = "if count then releaseClaim (wired cfg) (d_Body msg) else ret None"
  let ?s = "send_retry (retry_queue cfg (retry_index n (length (RetryBackoffs cfg)) + 1))
    (retry_publishing msg n cause) p"
  have none: "value_of ?a w = None"
    using assms by (auto simp: delay_retry_def run_steps split: option.splits)
  have ext: "extending ?a" "extending ?b" "extending ?s"
    by (auto intro: retry_framed extending_ret)
  have s: "value_of ?s (after ?b (after ?a w)) = None"
    using assms none by (simp add: delay_retry_def run_steps)
  have "calls (delay_retry (wired cfg) msg cause count n p) w
      = calls ?a w @ calls ?b (after ?a w) @ calls ?s (after ?b (after ?a w))"
    using none ext by (simp add: delay_retry_def calls_bind extending_bind)
  then show ?thesis using send_retry_sent [OF s] by simp
qed

text \<open>
  C18: A scheduled retry is really delayed. When scheduling a retry below the limit of attempts
  reports success, its last act was to send a copy with the body of the delivery to the delay queue
  of that attempt, and the copy carries the attempt, so that it is read back when it returns.
\<close>

theorem retry_is_delayed:
  assumes "value_of (retry_attempt (wired cfg) msg cause) w = (n, p)" and "n < MaxAttempts cfg"
    and "value_of (scheduleRetry (wired cfg) msg cause count) w = None"
  shows "\<exists>m. sent_to (retry_queue cfg (retry_index n (length (RetryBackoffs cfg)) + 1)) m
        (last (calls (scheduleRetry (wired cfg) msg cause count) w))
      \<and> m_Body m = d_Body msg \<and> headerAttempt (m_Headers m) = int32 n"
proof -
  let ?w1 = "after (retry_attempt (wired cfg) msg cause) w"
  have "value_of (delay_retry (wired cfg) msg cause count n p) ?w1 = None"
    using assms(3) calls_schedule(2) [OF assms(1,2)] by simp
  then show ?thesis
    using delay_retry_sent calls_schedule(1) [OF assms(1,2)]
    by (intro exI [of _ "retry_publishing msg n cause"]) simp
qed

section \<open>At the limit of attempts\<close>

text \<open>The messages a computation may publish once the attempts are used up: never a delayed copy.\<close>

definition final_call :: "Config \<Rightarrow> call \<Rightarrow> bool" where
  "final_call cfg e \<longleftrightarrow>
     (\<forall>ex k m p a. e = Publish ex k m p a \<longrightarrow>
        (ex, k) \<in> {(RabbitMQExchange cfg, BuildFailedRoutingKey cfg),
          (DeploymentExchange cfg, DeploymentBuildFailedRoutingKey cfg), ([], DLQ cfg)})
     \<and> (\<forall>ex k p b. e \<noteq> ChannelPublish ex k p b)"

lemma final_publishJSONEvent:
  "(ex, k) \<in> {(RabbitMQExchange cfg, BuildFailedRoutingKey cfg),
      (DeploymentExchange cfg, DeploymentBuildFailedRoutingKey cfg)} \<Longrightarrow>
   framed (final_call cfg) (publishJSONEvent ex k x)"
  unfolding publishJSONEvent_def PublishJSON_def publishJSON_def
  by (intro framed_intros framed_publish framed_time_now) (auto simp: final_call_def)

lemma final_ledger: "framed ledger_call m \<Longrightarrow> framed (final_call cfg) m"
  by (erule framed_weaken) (auto simp: final_call_def call_kinds)

lemma final_completeFailure: "framed (final_call cfg) (completeFailure (wired cfg) event res e)"
proof -
  have "framed (final_call cfg) (announceFailure (wired cfg) x y e')" for x y e'
    unfolding announceFailure_def publishing_wired wired_fields
    by (intro framed_intros final_publishJSONEvent) simp_all
  moreover have "framed (final_call cfg) time_now"
    by (rule framed_time_now) (simp add: final_call_def)
  moreover have "framed (final_call cfg) (Fail PostgresStageLedger i s b)" for i s b
    by (simp add: postgres_fields final_ledger framed_postgres)
  ultimately show ?thesis
    unfolding completeFailure_def wired_fields
    by (auto intro!: framed_intros split: option.splits sum.splits)
qed

lemma final_dead_letter: "framed (final_call cfg) (copyToDLQWithAttempt (wired cfg) msg cause n)"
  unfolding copyToDLQWithAttempt_def PublishRaw_def
  by (intro framed_intros framed_publish) (simp add: final_call_def)

lemma final_retry_attempt: "framed (final_call cfg) (retry_attempt (wired cfg) msg cause)"
proof -
  have "framed (final_call cfg) (RecordRetry PostgresStageLedger i s r)" for i s r
    by (simp add: postgres_fields final_ledger framed_postgres)
  then show ?thesis
    unfolding retry_attempt_def wired_fields
    by (auto intro!: framed_intros split: option.splits sum.splits)
qed

lemma final_exhausted:
  "framed (final_call cfg) (emitExhausted (wired cfg) body cause)"
  unfolding emitExhausted_def by (intro framed_intros final_completeFailure)

text \<open>
  C19: Retries end. Once the attempts are used up, scheduling a retry sends nothing to any delay
  queue: the only messages it can publish are the two failure events and the dead letter. When it
  reports success, its last act was the confirmed dead letter with the body of the delivery.
\<close>

theorem exhausted_goes_to_dlq:
  assumes "value_of (retry_attempt (wired cfg) msg cause) w = (n, p)" and "MaxAttempts cfg \<le> n"
  shows "list_all (final_call cfg) (calls (scheduleRetry (wired cfg) msg cause count) w)
    \<and> (if value_of (scheduleRetry (wired cfg) msg cause count) w = None
       then \<exists>m a. last (calls (scheduleRetry (wired cfg) msg cause count) w) = Publish [] (DLQ cfg) False m a
         \<and> accepted a \<and> m_Body m = d_Body msg \<and> headerAttempt (m_Headers m) = int32 n
       else True)"
proof -
  let ?r = "retry_attempt (wired cfg) msg cause" and ?w1 = "after (retry_attempt (wired cfg) msg cause) w"
  let ?e = "if count \<and> \<not> errors_is cause ErrStoredResultPublish
    then emitExhausted (wired cfg) (d_Body msg) cause else ret None"
  let ?d = "copyToDLQWithAttempt (wired cfg) msg (Some cause) n"
  let ?k = "\<lambda>x. case x of Some e \<Rightarrow> ret (Some e) | None \<Rightarrow> ?d"
  let ?m = "State_Monad.bind ?e ?k"
  have ext: "extending ?e" "extending (?k x)" for x
    by (auto intro: retry_framed extending_ret split: option.splits)
  have c: "calls (scheduleRetry (wired cfg) msg cause count) w = calls ?r w @ calls ?m ?w1"
    "value_of (scheduleRetry (wired cfg) msg cause count) w = value_of ?m ?w1"
    using assms calls_bind [OF ext(1,2)] extending_bind [OF ext(1,2)]
    by (simp_all add: scheduleRetry_def calls_bind retry_framed value_of_bind)
  have "framed (final_call cfg) ?m"
    by (auto intro!: framed_intros final_exhausted final_dead_letter split: option.splits)
  then have all: "list_all (final_call cfg) (calls (scheduleRetry (wired cfg) msg cause count) w)"
    unfolding c using framedD(2) final_retry_attempt by (auto simp: framedD(2))
  show ?thesis
  proof (cases "value_of ?m ?w1 = None")
    case True
    then have v: "value_of ?e ?w1 = None" "value_of ?d (after ?e ?w1) = None"
      by (auto simp: run_steps split: option.splits)
    have "calls ?m ?w1 = calls ?e ?w1 @ calls ?d (after ?e ?w1)"
      using calls_bind [OF ext(1,2)] v(1) by simp
    then show ?thesis
      using all dead_letter_sent [OF v(2)] c by auto
  next
    case False
    then have "value_of (scheduleRetry (wired cfg) msg cause count) w \<noteq> None"
      unfolding c(2) .
    then have "value_of (scheduleRetry (wired cfg) msg cause count) w = None \<longleftrightarrow> False" by simp
    then show ?thesis using all by (simp only: if_False simp_thms)
  qed
qed

text \<open>A delivery that was attempted before.\<close>

definition attempted :: "int \<Rightarrow> Delivery \<Rightarrow> Delivery" where
  "attempted n msg = msg\<lparr>d_Headers := [''x-shiply-attempt'' \<mapsto> HInt32 n]\<rparr>"

lemma sample_retry_attempt:
  "value_of (retry_attempt (wired cfg) (attempted n (sample_delivery sample_body)) cause) calm_world
     = (int64 (n + 1), False)"
  by (simp add: retry_attempt_def attempted_def headerAttempt_def sample_delivery_def decode_sample
      postgres_fields pg_RecordRetry_def value_of_def run_sql_calm sample_event_def zero_request_def
      update_row_def split: option.splits)

theorem exhausted_goes_to_dlq_witness:
  "list_all (final_call (loadConfig (\<lambda>_. [])))
     (calls (scheduleRetry (wired (loadConfig (\<lambda>_. []))) (attempted 9 (sample_delivery sample_body)) ErrLeaseBusy True) calm_world)"
proof -
  have "value_of (retry_attempt (wired (loadConfig (\<lambda>_. []))) (attempted 9 (sample_delivery sample_body)) ErrLeaseBusy)
      calm_world = (10, False)"
    using sample_retry_attempt [of "loadConfig (\<lambda>_. [])" 9] by (simp add: int64_id)
  moreover have "MaxAttempts (loadConfig (\<lambda>_. [])) \<le> 10"
    by (simp add: loadConfig_def intOrDefault_def Atoi_def)
  ultimately show ?thesis by (rule exhausted_goes_to_dlq [THEN conjunct1])
qed

theorem retry_is_delayed_witness:
  "\<exists>m. sent_to (retry_queue (loadConfig (\<lambda>_. []))
          (retry_index 1 (length (RetryBackoffs (loadConfig (\<lambda>_. [])))) + 1)) m
        (last (calls (scheduleRetry (wired (loadConfig (\<lambda>_. []))) (attempted 0 (sample_delivery sample_body)) ErrLeaseBusy False) calm_world))
      \<and> m_Body m = sample_body \<and> headerAttempt (m_Headers m) = int32 1"
proof -
  let ?cfg = "loadConfig (\<lambda>_. [])" and ?msg = "attempted 0 (sample_delivery sample_body)"
  have a: "value_of (retry_attempt (wired ?cfg) ?msg ErrLeaseBusy) calm_world = (1, False)"
    using sample_retry_attempt [of ?cfg 0] by (simp add: int64_id)
  have m: "1 < MaxAttempts ?cfg"
    by (simp add: loadConfig_def intOrDefault_def Atoi_def)
  let ?w = "after (retry_attempt (wired ?cfg) ?msg ErrLeaseBusy) calm_world"
  have "env ?w = calm" "pub_set ?w"
    using framedD(3) [OF wired.retry_attempt_framed, of calm_world] by (auto simp: same_consumer_def)
  then have "value_of (delay_retry (wired ?cfg) ?msg ErrLeaseBusy False 1 False) ?w = None"
    by (simp add: delay_retry_def send_retry_def PublishRaw_def value_of_def run_publish Let_def)
  then have "value_of (scheduleRetry (wired ?cfg) ?msg ErrLeaseBusy False) calm_world = None"
    using calls_schedule(2) [OF a m] by simp
  from retry_is_delayed [OF a m this] show ?thesis
    by (simp add: attempted_def sample_delivery_def)
qed

end
