(* ===== verification/RetryChain.thy ===== *)
theory RetryChain
  imports StageProps RetryProps
begin

text \<open>
  Retries come to an end. Each retry carries its attempt in a header and counts it in the ledger,
  where either count may fail to go up; together they cannot go on for ever.
\<close>

definition retry_count :: "world \<Rightarrow> string \<Rightarrow> int" where
  "retry_count w i = (case pg_view w i of None \<Rightarrow> 0 | Some e \<Rightarrow> e_retries e)"

text \<open>
  One retry after another: a delivery is retried below the limit, and the copy that was sent for it
  is delivered in a later world, in which the counter of the deployment is no smaller.
\<close>

definition retried :: "Config \<Rightarrow> Delivery \<times> world \<Rightarrow> Delivery \<times> world \<Rightarrow> bool" where
  "retried cfg = (\<lambda>(msg, w) (msg', w').
     \<exists>cause count n p event.
       value_of (retry_attempt (wired cfg) msg cause) w = (n, p) \<and> n < MaxAttempts cfg
       \<and> decode_request (d_Body msg) = Some event
       \<and> d_Body msg' = m_Body (retry_publishing msg n cause)
       \<and> d_Headers msg' = m_Headers (retry_publishing msg n cause)
       \<and> retry_count (after (scheduleRetry (wired cfg) msg cause count) w) (se_DeploymentID event)
           \<le> retry_count w' (se_DeploymentID event))"

lemma count_retry:
  "retry_count w i \<le> retry_count (after (pg_RecordRetry i build_stage r) w) i"
  "value_of (pg_RecordRetry i build_stage r) w = Inr n \<Longrightarrow>
     n = retry_count w i + 1 \<and> retry_count (after (pg_RecordRetry i build_stage r) w) i = n"
proof -
  have none: "pg_view w i = None \<Longrightarrow> value_of (pg_RecordRetry i build_stage r) w \<noteq> Inr n
      \<and> pg_view (after (pg_RecordRetry i build_stage r) w) i = None" for n
    by (cases rule: sql_do_cases [of "UpdateRetry i build_stage r" w])
      (auto simp: value_pg_RecordRetry after_pg_RecordRetry pg_view_row value_of_def [of "sql_do s" for s]
        after_def [of "sql_do s" for s] update_row_def split: if_splits)
  show "retry_count w i \<le> retry_count (after (pg_RecordRetry i build_stage r) w) i"
    using none pg.retry_any [of w i _ r]
    by (cases "pg_view w i") (fastforce simp: retry_count_def postgres_fields)+
  show "value_of (pg_RecordRetry i build_stage r) w = Inr n \<Longrightarrow>
     n = retry_count w i + 1 \<and> retry_count (after (pg_RecordRetry i build_stage r) w) i = n"
    using none [of n] pg.retry_ok [of w i _ r n]
    by (cases "pg_view w i") (auto simp: retry_count_def postgres_fields)
qed

lemma count_release: "retry_count (after (pg_Release i build_stage) w) i = retry_count w i"
proof (cases "pg_view w i")
  case None
  then have "pg_view (after (pg_Release i build_stage) w) i = None"
    by (cases rule: sql_do_cases [of "UpdateRelease i build_stage" w])
      (auto simp: pg_Release_def pg_view_row run_steps update_row_def after_def [of "sql_do s" for s] split: if_splits)
  then show ?thesis using None by (simp add: retry_count_def)
next
  case (Some e)
  then show ?thesis using pg.release_any [OF Some] by (auto simp: retry_count_def postgres_fields)
qed

lemma retry_attempt_steps:
  assumes "decode_request (d_Body msg) = Some event"
  shows "after (retry_attempt (wired cfg) msg cause) w
      = after (pg_RecordRetry (se_DeploymentID event) build_stage (safeReason (Some cause))) w"
    and "value_of (retry_attempt (wired cfg) msg cause) w =
      (case value_of (pg_RecordRetry (se_DeploymentID event) build_stage (safeReason (Some cause))) w of
         Inl _ \<Rightarrow> (int64 (headerAttempt (d_Headers msg) + 1), False)
       | Inr n \<Rightarrow> (max (headerAttempt (d_Headers msg)) n, True))"
  using assms
  by (auto simp: retry_attempt_def run_steps postgres_fields Let_def max_def split: sum.split)

lemma unchanged_rows: "rows w' = rows w \<Longrightarrow> retry_count w' i = retry_count w i"
  by (simp add: retry_count_def pg_view_row)

lemma rows_of_sending:
  "rows (after (emitRetrying (wired cfg) body n cause) w) = rows w"
  "rows (after (send_retry q m b) w) = rows w"
  "rows (after (copyToDLQWithAttempt (wired cfg) msg e n) w) = rows w"
proof -
  show "rows (after (emitRetrying (wired cfg) body n cause) w) = rows w"
    by (simp add: emitRetrying_def run_steps split: option.split)
  show "rows (after (send_retry q m b) w) = rows w"
    by (auto simp: send_retry_def after_def PublishRaw_def run_publish Let_def split: option.split)
  show "rows (after (copyToDLQWithAttempt (wired cfg) msg e n) w) = rows w"
    by (auto simp: run_copyToDLQ after_def Let_def)
qed

lemma count_delay:
  assumes "decode_request (d_Body msg) = Some event"
  shows "retry_count (after (delay_retry (wired cfg) msg cause count n p) w) (se_DeploymentID event)
    = retry_count w (se_DeploymentID event)"
proof -
  have a: "retry_count (after (emitRetrying (wired cfg) body n cause) u) i = retry_count u i" for body u i
    by (rule unchanged_rows) (simp add: rows_of_sending)
  have b: "retry_count (after (releaseClaim (wired cfg) (d_Body msg)) u) (se_DeploymentID event)
      = retry_count u (se_DeploymentID event)" for u
    using assms by (simp add: releaseClaim_def postgres_fields count_release)
  have c: "retry_count (after (send_retry q m k) u) i = retry_count u i" for q m k u i
    by (rule unchanged_rows) (simp add: rows_of_sending)
  show ?thesis
    by (cases count; simp add: delay_retry_def after_bind a b c split: option.split)
qed

lemma int_width: "0 \<le> n \<Longrightarrow> n < 2 ^ 31 \<Longrightarrow> int32 n = n \<and> int64 (n + 1) = n + 1"
  by (simp add: int32_id int64_id)

lemma count_nonneg: "pg_wf w \<Longrightarrow> 0 \<le> retry_count w i"
  unfolding pg_wf_def
  by (auto simp: retry_count_def pg_view_row row_entry_def entry_of_def row_ok_def dest: table_okD split: option.split)

text \<open>Below the limit the two counts together go up, neither goes down, and the attempt stays below it.\<close>

lemma retried_progress:
  assumes "retried cfg (msg, w) (msg', w')" and "decode_request (d_Body msg) = Some event"
    and "0 \<le> headerAttempt (d_Headers msg)" and "headerAttempt (d_Headers msg) < 2 ^ 31"
    and "MaxAttempts cfg < 2 ^ 31"
  defines "h \<equiv> headerAttempt (d_Headers msg)" and "h' \<equiv> headerAttempt (d_Headers msg')"
    and "k \<equiv> retry_count w (se_DeploymentID event)" and "k' \<equiv> retry_count w' (se_DeploymentID event)"
  shows "d_Body msg' = d_Body msg \<and> h \<le> h' \<and> h' < MaxAttempts cfg \<and> k \<le> k'
    \<and> h + min k (MaxAttempts cfg) < h' + min k' (MaxAttempts cfg)"
proof -
  let ?i = "se_DeploymentID event"
  obtain cause count n p where r: "value_of (retry_attempt (wired cfg) msg cause) w = (n, p)"
    "n < MaxAttempts cfg" "d_Body msg' = m_Body (retry_publishing msg n cause)"
    "d_Headers msg' = m_Headers (retry_publishing msg n cause)"
    "retry_count (after (scheduleRetry (wired cfg) msg cause count) w) ?i \<le> k'"
    using assms(1,2) by (auto simp: retried_def k'_def)
  let ?R = "pg_RecordRetry ?i build_stage (safeReason (Some cause))"
  have "after (scheduleRetry (wired cfg) msg cause count) w
      = after (delay_retry (wired cfg) msg cause count n p) (after (retry_attempt (wired cfg) msg cause) w)"
    using r(1,2) by (simp add: scheduleRetry_def after_bind)
  then have k1: "retry_count (after ?R w) ?i \<le> k'"
    using r(5) by (simp add: count_delay [OF assms(2)] retry_attempt_steps(1) [OF assms(2)])
  have n: "n = (case value_of ?R w of Inl _ \<Rightarrow> h + 1 | Inr n \<Rightarrow> max h n)"
    using r(1) int_width assms(3,4) retry_attempt_steps(2) [OF assms(2), of cfg cause w]
    by (auto simp: h_def split: sum.splits)
  then have "h \<le> n" by (auto split: sum.splits)
  then have h': "h' = n"
    using r(2,4) assms(3,5) int_width [of n] header_of_retry [of msg n cause] by (simp add: h'_def h_def)
  show ?thesis
  proof (cases "value_of ?R w")
    case (Inl e)
    then show ?thesis
      using n h' r(2,3) k1 count_retry(1) [of w ?i "safeReason (Some cause)"] by (auto simp: k_def)
  next
    case (Inr m)
    then show ?thesis
      using n h' r(2,3) k1 count_retry(2) [OF Inr] by (auto simp: k_def)
  qed
qed


text \<open>The delayed copy of a delivery, as it comes back.\<close>

definition returned :: "Delivery \<Rightarrow> int \<Rightarrow> goerr \<Rightarrow> Delivery" where
  "returned msg n cause = msg\<lparr>d_Headers := m_Headers (retry_publishing msg n cause)\<rparr>"

lemma sample_retried:
  "(retried (loadConfig (\<lambda>_. [])) ^^ 1) (attempted 0 (sample_delivery sample_body), calm_world)
     (returned (attempted 0 (sample_delivery sample_body)) 1 ErrLeaseBusy,
      after (scheduleRetry (wired (loadConfig (\<lambda>_. []))) (attempted 0 (sample_delivery sample_body)) ErrLeaseBusy False) calm_world)"
proof -
  let ?cfg = "loadConfig (\<lambda>_. [])" and ?msg = "attempted 0 (sample_delivery sample_body)"
  have "value_of (retry_attempt (wired ?cfg) ?msg ErrLeaseBusy) calm_world = (1, False)"
    using sample_retry_attempt [of ?cfg 0] by (simp add: int64_id)
  moreover have "1 < MaxAttempts ?cfg"
    by (simp add: loadConfig_def intOrDefault_def Atoi_def)
  moreover have "decode_request (d_Body ?msg) = Some sample_event"
    by (simp add: attempted_def sample_delivery_def decode_sample)
  ultimately have "retried ?cfg (?msg, calm_world) (returned ?msg 1 ErrLeaseBusy,
      after (scheduleRetry (wired ?cfg) ?msg ErrLeaseBusy False) calm_world)"
    unfolding retried_def by (auto simp: returned_def intro!: exI [of _ ErrLeaseBusy] exI [of _ False])
  then show ?thesis by (simp add: eq_OO)
qed


end
