(* ===== verification/Service.thy ===== *)
theory Service
  imports RetryProps "HOL-Library.Multiset"
begin

text \<open>
  The running service: the job queue loses and invents nothing and is emptied by the worker, and
  what holds in every state the loop of \<open>Start\<close> can reach, with the health probes.
\<close>

section \<open>The job queue\<close>

definition queued :: "world \<Rightarrow> buildJob multiset" where
  "queued w = mset (jobs w) + mset (parked w)"

lemma runBuildEvent_framed: "framed handler_call (runBuildEvent (wired cfg) job)"
proof -
  have "framed handler_call (copyToDLQ (wired cfg) msg e)" for msg e
    unfolding copyToDLQ_def by (rule framed_weaken [OF wired.copyToDLQ_framed wired.handler_kinds(2)])
  then show ?thesis
    unfolding runBuildEvent_def executeBuildEvent_def
    by (intro framed_intros wired.handleClaimed_framed wired.scheduleRetry_framed)
qed

lemma after_worker_turn:
  "after (worker_turn c) w =
     (case jobs w of [] \<Rightarrow> w | job # rest \<Rightarrow> after (runBuildEvent c job) (w\<lparr>jobs := rest\<rparr>))"
  by (simp add: worker_turn_def run_steps split: list.split)

lemma worker_turn_queue:
  "jobs w = job # rest \<Longrightarrow> jobs (after (worker_turn (wired cfg)) w) = rest
     \<and> parked (after (worker_turn (wired cfg)) w) = parked w"
  "jobs w = [] \<Longrightarrow> after (worker_turn (wired cfg)) w = w"
  using framedD(3) [OF runBuildEvent_framed]
  by (simp_all add: after_worker_turn same_consumer_def)

lemma after_unpark:
  "after (unpark i) w =
     (if i < length (parked w) \<and> length (jobs w) < buildConcurrency
      then w\<lparr>jobs := jobs w @ [parked w ! i], parked := take i (parked w) @ drop (Suc i) (parked w)\<rparr> else w)"
  by (simp add: unpark_def after_def)

lemma mset_pick: "i < length xs \<Longrightarrow> add_mset (xs ! i) (mset (take i xs) + mset (drop (Suc i) xs)) = mset xs"
  by (metis add_mset_add_single append_take_drop_id Cons_nth_drop_Suc mset.simps(2) mset_append union_mset_add_mset_right)

text \<open>
  The queue loses and invents no job. A waiting job that gets into the channel leaves the jobs
  as they were, whichever the scheduler picks, and a turn of the worker takes exactly the job at the
  head and runs it.
\<close>

lemma jobs_conserved:
  "queued (after (unpark i) w) = queued w
   \<and> (case jobs w of
        [] \<Rightarrow> after (worker_turn (wired cfg)) w = w
      | job # rest \<Rightarrow> after (worker_turn (wired cfg)) w = after (runBuildEvent (wired cfg) job) (w\<lparr>jobs := rest\<rparr>)
          \<and> queued w = add_mset job (queued (after (worker_turn (wired cfg)) w)))"
proof
  show "queued (after (unpark i) w) = queued w"
    using mset_pick [of i "parked w"] by (auto simp: after_unpark queued_def)
  show "case jobs w of
        [] \<Rightarrow> after (worker_turn (wired cfg)) w = w
      | job # rest \<Rightarrow> after (worker_turn (wired cfg)) w = after (runBuildEvent (wired cfg) job) (w\<lparr>jobs := rest\<rparr>)
          \<and> queued w = add_mset job (queued (after (worker_turn (wired cfg)) w))"
    using worker_turn_queue [of w] by (auto simp: queued_def after_worker_turn split: list.split)
qed

text \<open>The worker takes turns while waiting jobs move up.\<close>

fun work_off :: "BuildConsumer \<Rightarrow> nat \<Rightarrow> world \<Rightarrow> world" where
  "work_off c 0 w = w"
| "work_off c (Suc n) w = work_off c n (after (worker_turn c) (after (unpark 0) w))"



section \<open>The connection\<close>

text \<open>What deliveries, builds and the queue leave alone: the handles, the two time stamps, and the bound
  of the channel.\<close>

definition same_connection :: "world \<Rightarrow> world \<Rightarrow> bool" where
  "same_connection w w' \<longleftrightarrow>
     pub_set w' = pub_set w \<and> ch_set w' = ch_set w \<and> conn_set w' = conn_set w
     \<and> connectedAt w' = connectedAt w \<and> disconnectedAt w' = disconnectedAt w
     \<and> (length (jobs w) \<le> buildConcurrency \<longrightarrow> length (jobs w') \<le> buildConcurrency)"

lemma same_connection_reflp: "reflp same_connection" and same_connection_transp: "transp same_connection"
  by (auto simp: reflp_def transp_def same_connection_def)

lemmas linked_ret = abides_ret [OF same_connection_reflp]
lemmas linked_gets = abides_gets [OF same_connection_reflp]
lemmas linked_bind = abides_bind [OF same_connection_transp]

lemma linked_framed: "framed P m \<Longrightarrow> abides same_connection m"
  by (auto simp: abides_def frame_def same_consumer_def same_connection_def)

lemma linked_settling: "abides same_connection (ack msg)" "abides same_connection (nack msg r)"
  using idle_ack idle_nack linked_framed by blast+

lemma linked_enqueue: "abides same_connection (enqueue job)"
  by (simp add: abides_def enqueue_def same_connection_def)

lemma linked_settle: "abides same_connection (settle (wired cfg) msg action err)"
  unfolding settle_def copyToDLQ_def
  by (intro linked_bind linked_ret linked_gets linked_settling abides_cases
      linked_framed [OF wired.scheduleRetry_framed] linked_framed [OF wired.copyToDLQ_framed])

lemma linked_accept: "abides same_connection (acceptDelivery (wired cfg) msg)"
proof -
  have early: "abides same_connection (early_ack (wired cfg) msg event)" for event
    unfolding early_ack_def by (intro linked_bind linked_ret linked_settling linked_enqueue abides_cases)
  have claimed: "abides same_connection (on_claim cfg msg event r)" for event r
    by (auto simp: on_claim_def intro!: linked_bind linked_ret linked_settling early linked_framed [OF idle_replay]
        split: sum.splits ClaimDisposition.splits)
  have sync: "abides same_connection (processDelivery (wired cfg) msg)"
    unfolding processDelivery_def
    by (intro linked_bind abides_prod linked_settle linked_framed [OF wired.handleMessage_framed])
  show ?thesis
  proof (cases "invalid_request (d_Body msg)")
    case True
    then have "acceptDelivery (wired cfg) msg = processDelivery (wired cfg) msg"
      by (auto simp: acceptDelivery_def invalid_request_def split: option.splits)
    then show ?thesis using sync by simp
  next
    case False
    then obtain event where "decode_request (d_Body msg) = Some event"
      by (auto simp: invalid_request_def split: option.splits)
    then show ?thesis
      by (simp add: accept_claims [OF _ False] linked_bind linked_framed [OF pg_Claim_frame] claimed)
  qed
qed

lemma linked_worker: "abides same_connection (worker_turn (wired cfg))"
proof (rule abidesI)
  fix w
  show "same_connection w (after (worker_turn (wired cfg)) w)"
    using framedD(3) [OF runBuildEvent_framed, where w = "w\<lparr>jobs := tl (jobs w)\<rparr>"]
    by (auto simp: after_worker_turn same_connection_def same_consumer_def split: list.split)
qed

lemma linked_unpark: "abides same_connection (unpark i)"
  by (simp add: abides_def after_unpark same_connection_def)

text \<open>Calls to the broker change nothing but the history.\<close>

definition only_calls :: "world \<Rightarrow> world \<Rightarrow> bool" where
  "only_calls w w' \<longleftrightarrow> same_connection w w' \<and> jobs w' = jobs w \<and> parked w' = parked w \<and> env w' = env w"

lemma only_calls_reflp: "reflp only_calls" and only_calls_transp: "transp only_calls"
  by (auto simp: reflp_def transp_def only_calls_def same_connection_def)

lemmas mute_ret = abides_ret [OF only_calls_reflp]
lemmas mute_bind = abides_bind [OF only_calls_transp]
lemmas mute_gets = abides_gets [OF only_calls_reflp]

lemma mute_amqp: "abides only_calls (amqp_do c)"
  by (simp add: abides_def after_def only_calls_def same_connection_def)

lemma mute_declare: "abides only_calls (declare_topology cfg)"
proof -
  have "abides only_calls (declare_retry_queues cfg i ds)" for i ds
    by (induction ds arbitrary: i) (auto intro!: mute_bind mute_ret mute_amqp split: option.splits)
  moreover have "abides only_calls (declare_exchanges xs)" for xs
    by (induction xs rule: declare_exchanges.induct) (auto intro!: mute_bind mute_ret mute_amqp split: option.splits)
  ultimately show ?thesis
    unfolding declare_topology_def declareRetryTopology_def NewRabbitPublisher_def
    by (auto intro!: mute_bind mute_ret mute_amqp split: option.splits)
qed

lemma mute_cleanup: "abides only_calls dial_cleanup" "abides only_calls close_all"
  unfolding dial_cleanup_def close_all_def publisher_close_def
  by (intro mute_bind mute_ret mute_gets mute_amqp abides_cases)+


lemma connect_ok:
  assumes "value_of (connect c) w = None"
  shows "pub_set (after (connect c) w) \<and> ch_set (after (connect c) w) \<and> conn_set (after (connect c) w)
    \<and> disconnectedAt (after (connect c) w) = 0 \<and> jobs (after (connect c) w) = jobs w"
proof -
  let ?T = "declare_topology (c_cfg c)"
  let ?w1 = "after (amqp_do (OpenChannel ConsumerChannel)) (after (amqp_do (Dial (RabbitMQURL (c_cfg c)))) w)"
  have "after (connect c) w = (after ?T ?w1)\<lparr>conn_set := True, ch_set := True, pub_set := True, disconnectedAt := 0\<rparr>"
    using assms by (auto simp: connect_def run_steps split: option.splits)
  moreover have "only_calls ?w1 (after ?T ?w1)" by (rule abidesD [OF mute_declare])
  moreover have "jobs ?w1 = jobs w" by (simp add: after_def)
  ultimately show ?thesis by (simp add: only_calls_def)
qed

lemma connect_failed:
  assumes "value_of (connect c) w = Some e"
  shows "only_calls w (after (connect c) w)"
proof -
  let ?D = "amqp_do (Dial (RabbitMQURL (c_cfg c)))" and ?O = "amqp_do (OpenChannel ConsumerChannel)"
  let ?w0 = "after ?D w"
  let ?w1 = "after ?O ?w0" and ?T = "declare_topology (c_cfg c)"
  have d: "only_calls w ?w0" "only_calls ?w0 ?w1" "only_calls ?w1 (after (amqp_do CloseConnection) ?w1)"
    "only_calls ?w1 (after ?T ?w1)" "only_calls (after ?T ?w1) (after dial_cleanup (after ?T ?w1))"
    by (rule abidesD [OF mute_amqp] abidesD [OF mute_declare] abidesD [OF mute_cleanup(1)])+
  note trans = transpD [OF only_calls_transp]
  have "after (connect c) w \<in> {?w0, after (amqp_do CloseConnection) ?w1, after dial_cleanup (after ?T ?w1)}"
    using assms by (auto simp: connect_def run_steps split: option.splits)
  then show ?thesis
    using d(1) trans [OF trans [OF d(1,2)] d(3)] trans [OF trans [OF trans [OF d(1,2)] d(4)] d(5)] by auto
qed

lemma disconnect_world:
  "let w' = after disconnect w in \<not> pub_set w' \<and> \<not> ch_set w' \<and> \<not> conn_set w' \<and> connectedAt w' = 0
     \<and> jobs w' = jobs w"
proof -
  have "jobs (after close_all u) = jobs u \<and> connectedAt (after close_all u) = connectedAt u" for u
    using abidesD [OF mute_cleanup(2), of u] by (simp add: only_calls_def same_connection_def)
  then show ?thesis by (simp add: disconnect_def run_steps Let_def)
qed

section \<open>The loop\<close>

definition unlinked :: "world \<Rightarrow> bool" where
  "unlinked w \<longleftrightarrow> \<not> pub_set w \<and> \<not> ch_set w \<and> \<not> conn_set w \<and> connectedAt w = 0"

definition loop_ok :: "loop_state \<Rightarrow> bool" where
  "loop_ok s \<longleftrightarrow>
     length (jobs (l_world s)) \<le> buildConcurrency
     \<and> (case l_phase s of
          Consuming \<Rightarrow> pub_set (l_world s) \<and> ch_set (l_world s) \<and> conn_set (l_world s)
            \<and> disconnectedAt (l_world s) = 0
        | Waiting d \<Rightarrow> unlinked (l_world s) \<and> Second \<le> d \<and> d \<le> 30 * Second
        | Connecting \<Rightarrow> unlinked (l_world s)
        | Stopped \<Rightarrow> unlinked (l_world s) \<and> l_cancelled s)
     \<and> (l_cancelled s \<or> l_working s)"

lemma backoff_range: "Second \<le> consumerBackoff n \<and> consumerBackoff n \<le> 30 * Second"
  by (simp add: backoff_closed Second_def min_def)

lemma after_amqp: "after (amqp_do c) w = w\<lparr>hist := hist w @ [Amqp c (amqp (env w) (hist w) c = None)]\<rparr>"
  by (simp add: after_def)

lemma begin_consuming_world:
  "same_connection (w\<lparr>connectedAt := 0\<rparr>) ((after (begin_consuming c) w)\<lparr>connectedAt := 0\<rparr>)
     \<and> jobs (after (begin_consuming c) w) = jobs w \<and> env (after (begin_consuming c) w) = env w"
  by (simp add: begin_consuming_def run_steps after_amqp same_connection_def split: option.split)

lemma attempt_ok:
  assumes "run_state (attempt_connection c n) w = ((ph, n'), w')" and "unlinked w"
    and "length (jobs w) \<le> buildConcurrency" and "l_cancelled s \<or> l_working s"
  shows "loop_ok (s\<lparr>l_phase := ph, l_attempt := n', l_world := w'\<rparr>)"
proof (cases "value_of (connect c) w")
  case (Some e)
  then have "ph = Waiting (consumerBackoff n)" "w' = after (connect c) w"
    using assms(1) by (auto simp: attempt_connection_def run_state_value_after run_steps)
  then show ?thesis
    using connect_failed [OF Some] assms(2-4) backoff_range
    by (auto simp: loop_ok_def unlinked_def only_calls_def same_connection_def)
next
  case None
  note linked = connect_ok [OF None]
  let ?w1 = "after (connect c) w"
  show ?thesis
  proof (cases "value_of (begin_consuming c) ?w1")
    case None': None
    then have "ph = Consuming" "w' = after (begin_consuming c) ?w1"
      using assms(1) None by (auto simp: attempt_connection_def run_state_value_after run_steps)
    then show ?thesis
      using linked assms(3,4) begin_consuming_world [of ?w1 c] by (simp add: loop_ok_def same_connection_def)
  next
    case (Some e)
    then have "ph = Waiting (consumerBackoff n)" "w' = after disconnect (after (begin_consuming c) ?w1)"
      using assms(1) None by (auto simp: attempt_connection_def run_state_value_after run_steps)
    then show ?thesis
      using disconnect_world [of "after (begin_consuming c) ?w1"] begin_consuming_world [of ?w1 c] linked assms(3,4)
        backoff_range
      by (simp add: loop_ok_def unlinked_def Let_def)
  qed
qed

lemma loop_ok_step:
  assumes "start_step (wired cfg) a s s'" and "loop_ok s"
  shows "loop_ok s'"
  using assms
proof (cases rule: start_step.cases)
  case (connecting ph n w)
  then have "loop_ok (s\<lparr>l_phase := ph, l_attempt := n, l_world := w\<rparr>)"
    using assms(2) by (intro attempt_ok [OF connecting(5)]) (simp_all add: loop_ok_def)
  then show ?thesis using connecting by simp
next
  case cancelled_consuming
  then show ?thesis
    using disconnect_world [of "l_world s"] assms(2) by (simp add: loop_ok_def unlinked_def Let_def)
next
  case connection_lost
  then show ?thesis
    using disconnect_world [of "l_world s"] assms(2) backoff_range
    by (simp add: loop_ok_def unlinked_def Let_def)
next
  case (delivery msg)
  then show ?thesis
    using abidesD [OF linked_accept, of "l_world s" cfg msg] assms(2)
    by (simp add: loop_ok_def same_connection_def)
next
  case worker
  then show ?thesis
    using abidesD [OF linked_worker, of "l_world s" cfg] assms(2)
    by (cases "l_phase s") (simp_all add: loop_ok_def same_connection_def unlinked_def)
next
  case worker_drops
  then show ?thesis
    using assms(2)
    by (cases "jobs (l_world s)"; cases "l_phase s") (simp_all add: loop_ok_def unlinked_def)
next
  case (unparked i)
  then show ?thesis
    using abidesD [OF linked_unpark, of "l_world s" i] assms(2)
    by (cases "l_phase s") (simp_all add: loop_ok_def same_connection_def unlinked_def)
qed (auto simp: loop_ok_def split: phase.splits)

text \<open>
  After the loop has stopped nothing is called any more and the queue never grows: jobs that are still
  in it, whose deliveries were acknowledged, are lost.
\<close>

lemma stopped_runs_nothing:
  assumes "start_step c a s s'" and "l_phase s = Stopped" and "l_cancelled s"
  shows "l_phase s' = Stopped \<and> hist (l_world s') = hist (l_world s) \<and> rows (l_world s') = rows (l_world s)
    \<and> queued (l_world s') \<subseteq># queued (l_world s)"
  using assms(1)
proof (cases rule: start_step.cases)
  case (unparked i)
  then show ?thesis
    using assms(2) mset_pick [of i "parked (l_world s)"] by (auto simp: after_unpark queued_def)
next
  case worker_drops
  then show ?thesis using assms(2) by (cases "jobs (l_world s)") (auto simp: queued_def)
qed (use assms(2,3) in simp_all)

lemma reachable_ok: "reachable (wired cfg) s \<Longrightarrow> loop_ok s"
proof (induction rule: reachable.induct)
  case (start w)
  then show ?case by (simp add: loop_ok_def fresh_world_def unlinked_def start_state_def)
qed (rule loop_ok_step)

text \<open>
  C24: In every state the service can reach: it reports itself connected only while it consumes; it
  then holds the connection, both channels and no disconnection time; in any other state it holds
  none of them, so nothing is leaked across reconnections; it waits between one and thirty seconds;
  and the channel never holds more jobs than the build concurrency.
\<close>

theorem connection_invariant:
  assumes "reachable (wired cfg) s"
  shows "let w = l_world s in
    (if value_of Connected w then l_phase s = Consuming else True)
    \<and> (if l_phase s = Consuming then pub_set w \<and> ch_set w \<and> conn_set w \<and> disconnectedAt w = 0
       else \<not> pub_set w \<and> \<not> ch_set w \<and> \<not> conn_set w)
    \<and> (case l_phase s of Waiting d \<Rightarrow> Second \<le> d \<and> d \<le> 30 * Second | _ \<Rightarrow> True)
    \<and> length (jobs w) \<le> buildConcurrency"
  using reachable_ok [OF assms]
  by (cases "l_phase s") (simp_all add: loop_ok_def unlinked_def Connected_def Let_def)

text \<open>
  The health probe fails only when it should: in every state the service can reach, the answer
  503 is given to the health path alone, only when nothing is being consumed, and only more than
  two minutes after the connection was lost; a service that consumes is always healthy.
\<close>

lemma health_tells_truth:
  assumes "reachable (wired cfg) s"
  shows "let w = l_world s; answer = value_of (health_handler path) w in
    (if l_phase s = Consuming then answer = (200, ''ok'') else True)
    \<and> answer = (if path = ''/health'' \<and> disconnectedAt w \<noteq> 0
           \<and> 2 * Minute < clock (env w) (hist w) - disconnectedAt w
         then (503, ''consumer disconnected'') else (200, ''ok''))"
  using reachable_ok [OF assms]
  by (cases "l_phase s") (auto simp: loop_ok_def health_handler_def Unhealthy_def run_steps Let_def)

section \<open>Concrete instances\<close>

definition idle_world :: world where
  "idle_world = calm_world\<lparr>pub_set := False, ch_set := False, conn_set := False, connectedAt := 0\<rparr>"

lemma idle_reachable: "reachable (wired cfg) (start_state idle_world)"
  by (rule reachable.start) (simp add: fresh_world_def idle_world_def)

text \<open>The loop connects in the calm world.\<close>

lemma calm_connects:
  assumes "env w = calm"
  shows "run_state (attempt_connection (wired cfg) 0) w = ((Consuming, 0), after (attempt_connection (wired cfg) 0) w)"
proof -
  have queues: "env u = calm \<Longrightarrow> value_of (declare_retry_queues cfg i ds) u = None
      \<and> env (after (declare_retry_queues cfg i ds) u) = calm" for i ds u
    by (induction ds arbitrary: i u) (simp_all add: run_steps after_amqp)
  have "env u = calm \<Longrightarrow> value_of (declare_topology cfg) u = None \<and> env (after (declare_topology cfg) u) = calm" for u
    by (simp add: declare_topology_def declareRetryTopology_def NewRabbitPublisher_def run_steps after_amqp queues)
  then have c: "value_of (connect (wired cfg)) w = None \<and> env (after (connect (wired cfg)) w) = calm"
    by (simp add: connect_def run_steps after_amqp assms)
  have "env u = calm \<Longrightarrow> value_of (begin_consuming (wired cfg)) u = None" for u
    by (simp add: begin_consuming_def run_steps after_amqp)
  then have "value_of (attempt_connection (wired cfg) 0) w = (Consuming, 0)"
    using c by (simp add: attempt_connection_def run_steps)
  then show ?thesis by (simp add: run_state_value_after)
qed

text \<open>The step a fresh worker makes in a calm world.\<close>

definition connected_state :: "Config \<Rightarrow> world \<Rightarrow> loop_state" where
  "connected_state cfg w = (start_state w)\<lparr>l_phase := Consuming, l_world := after (attempt_connection (wired cfg) 0) w\<rparr>"

lemma calm_step: "env w = calm \<Longrightarrow> start_step (wired cfg) Internal (start_state w) (connected_state cfg w)"
  using start_step.connecting [of "start_state w" "wired cfg" Consuming 0] calm_connects [of w cfg]
  by (simp add: start_state_def connected_state_def)

lemma calm_consuming: "reachable (wired cfg) (connected_state cfg idle_world)"
  by (rule reachable.step [OF idle_reachable calm_step]) (simp add: idle_world_def)

theorem connection_invariant_witness:
  "let w = after (attempt_connection (wired (loadConfig (\<lambda>_. []))) 0) idle_world in
    pub_set w \<and> ch_set w \<and> conn_set w \<and> disconnectedAt w = 0 \<and> length (jobs w) \<le> buildConcurrency"
  using connection_invariant [OF calm_consuming [of "loadConfig (\<lambda>_. [])"]]
  by (simp add: Let_def connected_state_def)

lemma health_tells_truth_instance:
  "value_of (health_handler ''/health'') (after (attempt_connection (wired (loadConfig (\<lambda>_. []))) 0) idle_world)
     = (200, ''ok'')"
  using health_tells_truth [OF calm_consuming [of "loadConfig (\<lambda>_. [])"], of "''/health''"]
  by (simp add: Let_def connected_state_def)

end
