(* ===== verification/BuilderProps.thy ===== *)
theory BuilderProps
  imports NoLoss
begin

text \<open>
  The processes a build starts: which, in which order, with which input, and that the local image
  is always removed; and those of a clone, which see the token only in their environment.
\<close>

section \<open>Started processes\<close>

definition command_of :: "call \<Rightarrow> (string \<times> string list) list" where
  "command_of e = (case e of Exec p \<Rightarrow> [(x_Name p, x_Args p)] | _ \<Rightarrow> [])"

definition started :: "'a M \<Rightarrow> world \<Rightarrow> (string \<times> string list) list" where
  "started m w = concat (map command_of (calls m w))"

definition command :: "commandSpec \<Rightarrow> string \<times> string list" where
  "command spec = (c_Name spec, c_Args spec)"

lemma started_bind:
  "extending m \<Longrightarrow> extending (f (value_of m w)) \<Longrightarrow>
     started (State_Monad.bind m f) w = started m w @ started (f (value_of m w)) (after m w)"
  by (simp add: started_def calls_bind)

lemma started_ret [simp]: "started (ret x) w = []"
  by (simp add: started_def)

lemma started_fs [simp]: "started (fs_do f) w = []" "started (stat_do p) w = []"
  by (simp_all add: started_def calls_def after_def command_of_def)

lemma run_runCommand:
  "\<exists>p. after (runCommand spec) w = w\<lparr>hist := hist w @ [Exec p]\<rparr>
     \<and> x_Name p = c_Name spec \<and> x_Args p = c_Args spec \<and> x_Dir p = c_Dir spec \<and> x_Stdin p = c_Stdin spec
     \<and> x_Env p = environ (env w) @ map assignment (c_Env spec)"
  by (auto simp: runCommand_def mergeCommandEnv_def run_steps after_def value_of_def Let_def split: option.splits)

lemma started_runCommand [simp]: "started (runCommand spec) w = [command spec]"
  using run_runCommand [of spec w] by (auto simp: started_def calls_def command_of_def command_def)

lemma extending_build [simp]:
  "extending (runCommand spec)" "extending (fs_do f)" "extending (stat_do p)" "extending (ret x)"
  by (rule framed_extending [OF framed_runCommand]) (simp_all add: extending_def after_def)

lemma extending_cases [simp]:
  "extending n \<Longrightarrow> (\<And>x. extending (f x)) \<Longrightarrow> extending (case y of None \<Rightarrow> n | Some x \<Rightarrow> f x)"
  "(\<And>x. extending (g x)) \<Longrightarrow> (\<And>x. extending (h x)) \<Longrightarrow> extending (case z of Inl x \<Rightarrow> g x | Inr x \<Rightarrow> h x)"
  by (cases y; simp) (cases z; simp)

section \<open>The build\<close>

abbreviation service_builder :: "Config \<Rightarrow> CommandBuilder" where
  "service_builder cfg \<equiv> NewCommandBuilder cfg"

lemma builder_fields [simp]:
  "cb_run (NewCommandBuilder cfg) = runCommand" "cb_cfg (NewCommandBuilder cfg) = cfg"
  by (simp_all add: NewCommandBuilder_def)

lemma extending_steps [simp]:
  "extending (resolveCommitSHA (NewCommandBuilder cfg) d)" "extending (registryDockerEnv (NewCommandBuilder cfg) d)"
  "extending (imageExists (NewCommandBuilder cfg) t e)" "extending (buildImage (NewCommandBuilder cfg) d t)"
  "extending (hasDockerfile d)" "extending (pushImage (NewCommandBuilder cfg) t e)"
  "extending (build_or_reuse (NewCommandBuilder cfg) q res t e)"
proof -
  show r: "extending (hasDockerfile d)" for d
    unfolding hasDockerfile_def by (auto intro!: extending_bind split: stat_result.splits)
  show i: "extending (imageExists (NewCommandBuilder cfg) t e)" for t e
    unfolding imageExists_def by (auto intro!: extending_bind)
  show b: "extending (buildImage (NewCommandBuilder cfg) d t)" for d t
    unfolding buildImage_def by (auto intro!: extending_bind r split: sum.splits)
  show p: "extending (pushImage (NewCommandBuilder cfg) t e)" for t e
    unfolding pushImage_def by (auto intro!: extending_bind split: sum.splits)
  show "extending (resolveCommitSHA (NewCommandBuilder cfg) d)" "extending (registryDockerEnv (NewCommandBuilder cfg) d)"
    unfolding resolveCommitSHA_def registryDockerEnv_def
    by (auto intro!: extending_bind simp: Let_def split: sum.splits option.splits)
  show "extending (build_or_reuse (NewCommandBuilder cfg) q res t e)"
    unfolding build_or_reuse_def by (auto intro!: extending_bind i b p simp: Let_def split: option.splits)
qed

lemma started_resolve: "started (resolveCommitSHA (NewCommandBuilder cfg) d) w = [command (rev_parse_command d)]"
  unfolding resolveCommitSHA_def
  by (subst started_bind) (auto simp: Let_def split: sum.splits)

lemma resolve_value:
  "value_of (resolveCommitSHA b d) w = Inr sha \<Longrightarrow> sha \<noteq> [] \<and> (\<exists>out. sha = TrimSpace out)"
  by (auto simp: resolveCommitSHA_def run_steps Let_def split: sum.splits if_splits)

lemma started_login:
  "value_of (registryDockerEnv (NewCommandBuilder cfg) d) w = Inr denv \<Longrightarrow>
     started (registryDockerEnv (NewCommandBuilder cfg) d) w = [command (login_command (Registry cfg) denv)]
     \<and> denv = [(''DOCKER_CONFIG'', filepath_Join [d, ''docker-config''])]"
  "started (registryDockerEnv (NewCommandBuilder cfg) d) w
     \<in> {[], [command (login_command (Registry cfg) [(''DOCKER_CONFIG'', filepath_Join [d, ''docker-config''])])]}"
  by (auto simp: registryDockerEnv_def run_steps started_bind Let_def extending_bind split: option.splits sum.splits)

lemma started_image:
  "started (imageExists (NewCommandBuilder cfg) t e) w = [command (inspect_command t e)]"
  "started (pushImage (NewCommandBuilder cfg) t e) w = [command (push_command t e)]"
  unfolding imageExists_def pushImage_def by (subst started_bind; auto split: sum.splits)+

lemma started_hasDockerfile [simp]: "started (hasDockerfile d) w = []"
  unfolding hasDockerfile_def by (subst started_bind; auto split: stat_result.splits)

lemma started_buildImage:
  "value_of (buildImage (NewCommandBuilder cfg) d t) w = (name, None) \<Longrightarrow>
     started (buildImage (NewCommandBuilder cfg) d t) w = [command (nixpacks_command d t)] \<and> name = ''nixpacks''
     \<or> started (buildImage (NewCommandBuilder cfg) d t) w
         = [command (nixpacks_command d t), command (docker_build_command d t)] \<and> name = ''dockerfile''"
  unfolding buildImage_def
  by (auto simp: run_steps started_bind extending_bind split: sum.splits if_splits)


lemma started_build_or_reuse:
  "\<exists>ys. started (build_or_reuse (NewCommandBuilder cfg) q res t e) w = command (inspect_command t e) # ys"
  unfolding build_or_reuse_def
  by (subst started_bind) (simp_all add: started_image extending_bind Let_def)

text \<open>The commands of a build that works, by the builder it reports.\<close>

definition build_trace :: "string \<Rightarrow> string \<Rightarrow> string \<Rightarrow> (string \<times> string) list \<Rightarrow> (string \<times> string list) list \<Rightarrow> bool" where
  "build_trace name dir t e cs \<longleftrightarrow>
     name = ''registry'' \<and> cs = [command (inspect_command t e)]
     \<or> name = ''nixpacks''
       \<and> cs = [command (inspect_command t e), command (nixpacks_command dir t), command (push_command t e)]
     \<or> name = ''dockerfile''
       \<and> cs = [command (inspect_command t e), command (nixpacks_command dir t),
                command (docker_build_command dir t), command (push_command t e)]"

lemma build_or_reuse_ok:
  assumes "value_of (build_or_reuse (NewCommandBuilder cfg) q res t e) w = (r, None)"
  shows "build_trace (br_Builder r) (q_RepositoryDir q) t e (started (build_or_reuse (NewCommandBuilder cfg) q res t e) w)
    \<and> br_ImageTag r = br_ImageTag res \<and> br_CommitSHA r = br_CommitSHA res"
proof -
  let ?I = "imageExists (NewCommandBuilder cfg) t e" and ?B = "buildImage (NewCommandBuilder cfg) (q_RepositoryDir q) t"
  let ?w1 = "after ?I w"
  show ?thesis
  proof (cases "value_of ?I w")
    case True
    then show ?thesis
      using assms by (auto simp: build_or_reuse_def run_steps started_bind started_image build_trace_def)
  next
    case False
    obtain name err where b: "value_of ?B ?w1 = (name, err)" by fastforce
    then have n: "err = None" "r = res\<lparr>br_Builder := name\<rparr>"
      using assms False by (auto simp: build_or_reuse_def run_steps Let_def split: option.splits)
    have "started (build_or_reuse (NewCommandBuilder cfg) q res t e) w
        = [command (inspect_command t e)] @ started ?B ?w1 @ [command (push_command t e)]"
      using False b n
      by (simp add: build_or_reuse_def started_bind started_image extending_bind Let_def)
    then show ?thesis
      using started_buildImage [of cfg "q_RepositoryDir q" t ?w1 name] b n by (auto simp: build_trace_def)
  qed
qed

lemma BuildAndPush_cases:
  obtains
    (unresolved) "started (BuildAndPush (NewCommandBuilder cfg) q) w = [command (rev_parse_command (q_RepositoryDir q))]"
      "snd (value_of (BuildAndPush (NewCommandBuilder cfg) q) w) \<noteq> None"
  | (no_login) denv where "started (BuildAndPush (NewCommandBuilder cfg) q) w
        = [command (rev_parse_command (q_RepositoryDir q)), command (login_command (Registry cfg) denv)]"
      "snd (value_of (BuildAndPush (NewCommandBuilder cfg) q) w) \<noteq> None"
  | (built) sha t u where "sha \<noteq> []" "\<exists>out. sha = TrimSpace out"
      "buildImageReference (Registry cfg) (q_ProjectID q) (q_ServiceID q) sha = Inr t"
      "let denv = [(''DOCKER_CONFIG'', filepath_Join [q_WorkDir q, ''docker-config''])];
           m = build_or_reuse (NewCommandBuilder cfg) q (no_result\<lparr>br_CommitSHA := sha, br_ImageTag := t\<rparr>) t denv
       in started (BuildAndPush (NewCommandBuilder cfg) q) w
            = [command (rev_parse_command (q_RepositoryDir q)), command (login_command (Registry cfg) denv)]
              @ started m u @ [command (remove_command t)]
          \<and> value_of (BuildAndPush (NewCommandBuilder cfg) q) w = value_of m u"
proof -
  let ?b = "NewCommandBuilder cfg"
  let ?R = "resolveCommitSHA ?b (q_RepositoryDir q)" and ?D = "registryDockerEnv ?b (q_WorkDir q)"
  let ?w1 = "after ?R w"
  let ?denv = "[(''DOCKER_CONFIG'', filepath_Join [q_WorkDir q, ''docker-config''])]"
  note steps = BuildAndPush_def run_steps started_bind extending_bind started_resolve Let_def
  show thesis
  proof (cases "value_of ?R w")
    case (Inl e)
    then show thesis by (intro unresolved) (simp_all add: steps)
  next
    case (Inr sha)
    note sha = this
    show thesis
    proof (cases "buildImageReference (Registry cfg) (q_ProjectID q) (q_ServiceID q) sha")
      case (Inl e)
      then show thesis using sha by (intro unresolved) (simp_all add: steps)
    next
      case (Inr t)
      note tag = this
      show thesis
      proof (cases "value_of ?D ?w1")
        case (Inl e)
        have "started (BuildAndPush ?b q) w = command (rev_parse_command (q_RepositoryDir q)) # started ?D ?w1"
          using sha tag Inl unfolding BuildAndPush_def Let_def
          by (simp add: started_bind extending_bind started_resolve)
        moreover have "snd (value_of (BuildAndPush ?b q) w) \<noteq> None"
          using sha tag Inl by (simp add: steps)
        ultimately show thesis
          using unresolved no_login [of ?denv] started_login(2) [of cfg "q_WorkDir q" ?w1] by auto
      next
        case (Inr denv)
        then have d: "denv = ?denv" "started ?D ?w1 = [command (login_command (Registry cfg) ?denv)]"
          using started_login(1) [of cfg "q_WorkDir q" ?w1 denv] by simp_all
        show thesis
          by (rule built [of sha t "after ?D ?w1"])
            (use sha tag Inr d resolve_value [OF sha] in \<open>simp_all add: steps\<close>)
      qed
    qed
  qed
qed

text \<open>
  C28: What a successful build ran. When building reports success, its commands were, in this order:
  reading the commit, logging in, asking the registry for the image, then nothing if it was there,
  or nixpacks, the fallback to docker only if nixpacks failed, and the push; and last the removal of
  the local image. The result names that commit, the image reference made from it, and the builder.
\<close>

theorem build_success_trace:
  assumes "value_of (BuildAndPush (NewCommandBuilder cfg) q) w = (r, None)"
  shows "let t = br_ImageTag r; denv = [(''DOCKER_CONFIG'', filepath_Join [q_WorkDir q, ''docker-config''])]
    in br_CommitSHA r \<noteq> []
       \<and> buildImageReference (Registry cfg) (q_ProjectID q) (q_ServiceID q) (br_CommitSHA r) = Inr t
       \<and> (\<exists>cs. build_trace (br_Builder r) (q_RepositoryDir q) t denv cs
            \<and> started (BuildAndPush (NewCommandBuilder cfg) q) w
              = [command (rev_parse_command (q_RepositoryDir q)), command (login_command (Registry cfg) denv)]
                @ cs @ [command (remove_command t)])"
proof (cases rule: BuildAndPush_cases [of cfg q w])
  case (built sha t u)
  let ?denv = "[(''DOCKER_CONFIG'', filepath_Join [q_WorkDir q, ''docker-config''])]"
  let ?m = "build_or_reuse (NewCommandBuilder cfg) q (no_result\<lparr>br_CommitSHA := sha, br_ImageTag := t\<rparr>) t ?denv"
  have "value_of ?m u = (r, None)"
    using built(4) assms by (simp add: Let_def)
  then show ?thesis
    using build_or_reuse_ok [of cfg q "no_result\<lparr>br_CommitSHA := sha, br_ImageTag := t\<rparr>" t ?denv u r] built
    by (auto simp: Let_def)
qed (use assms in simp_all)


section \<open>The registry password\<close>

text \<open>
  A process that shows the password to nobody but the login: its input is empty or it is the login,
  and its environment is the inherited one with at most the docker configuration added.
\<close>

definition discreet :: "Config \<Rightarrow> string list \<Rightarrow> string \<Rightarrow> call \<Rightarrow> bool" where
  "discreet cfg inherited dir e \<longleftrightarrow>
     (case e of
        Exec p \<Rightarrow>
          (x_Stdin p = [] \<or> x_Name p = ''docker''
             \<and> x_Args p = [''login'', normalizeRegistryHost (Host (Registry cfg)), ''--username'',
                  Username (Registry cfg), ''--password-stdin''])
          \<and> x_Env p \<in> {inherited, inherited @ [''DOCKER_CONFIG='' @ filepath_Join [dir, ''docker-config'']]}
      | _ \<Rightarrow> True)"

lemma discreet_run:
  assumes "c_Stdin spec = [] \<or> spec = login_command (Registry cfg) (c_Env spec)"
    and "c_Env spec \<in> {[], [(''DOCKER_CONFIG'', filepath_Join [dir, ''docker-config''])]}"
    and "environ (env w) = inherited"
  shows "list_all (discreet cfg inherited dir) (calls (runCommand spec) w)"
proof -
  obtain p where p: "calls (runCommand spec) w = [Exec p]" "x_Name p = c_Name spec" "x_Args p = c_Args spec"
    "x_Stdin p = c_Stdin spec" "x_Env p = inherited @ map assignment (c_Env spec)"
    using run_runCommand [of spec w] assms(3) by (auto simp: calls_def)
  have "c_Stdin spec = [] \<or> c_Name spec = ''docker''
             \<and> c_Args spec = [''login'', normalizeRegistryHost (Host (Registry cfg)), ''--username'',
                  Username (Registry cfg), ''--password-stdin'']"
  proof -
    have l: "spec = login_command (Registry cfg) e \<Longrightarrow> c_Name spec = ''docker''
        \<and> c_Args spec = [''login'', normalizeRegistryHost (Host (Registry cfg)), ''--username'',
             Username (Registry cfg), ''--password-stdin'']" for e
      by (simp add: login_command_def)
    then show ?thesis using assms(1) by blast
  qed
  then show ?thesis using p assms(2) by (auto simp: discreet_def assignment_def)
qed


definition discreetly :: "Config \<Rightarrow> string \<Rightarrow> world \<Rightarrow> world \<Rightarrow> bool" where
  "discreetly cfg dir w w' \<longleftrightarrow> env w' = env w
     \<and> (\<exists>es. hist w' = hist w @ es \<and> list_all (discreet cfg (environ (env w)) dir) es)"

lemma discreetly_reflp: "reflp (discreetly cfg dir)" and discreetly_transp: "transp (discreetly cfg dir)"
proof -
  show "reflp (discreetly cfg dir)" by (simp add: reflp_def discreetly_def)
  show "transp (discreetly cfg dir)"
    unfolding transp_def discreetly_def by (metis append_assoc list_all_append)
qed

lemmas discreet_intros = abides_bind [OF discreetly_transp] abides_ret [OF discreetly_reflp] abides_cases

lemma discreetly_run:
  assumes "c_Stdin spec = [] \<or> spec = login_command (Registry cfg) (c_Env spec)"
    and "c_Env spec \<in> {[], [(''DOCKER_CONFIG'', filepath_Join [dir, ''docker-config''])]}"
  shows "abides (discreetly cfg dir) (runCommand spec)"
  unfolding abides_def discreetly_def
  using discreet_run [OF assms refl] framedD(1,3) [OF framed_runCommand] by (auto simp: same_consumer_def)

lemma discreetly_other: "abides (discreetly cfg dir) (fs_do f)" "abides (discreetly cfg dir) (hasDockerfile d)"
proof -
  have "abides (discreetly cfg dir) (stat_do p)" for p
    by (simp add: abides_def discreetly_def after_def discreet_def)
  then show "abides (discreetly cfg dir) (hasDockerfile d)"
    unfolding hasDockerfile_def by (auto intro!: discreet_intros split: stat_result.splits)
qed (simp add: abides_def discreetly_def after_def discreet_def)

lemma command_inputs [simp]:
  "c_Stdin (rev_parse_command d) = []" "c_Env (rev_parse_command d) = []"
  "c_Stdin (inspect_command t e) = []" "c_Env (inspect_command t e) = e"
  "c_Stdin (nixpacks_command d t) = []" "c_Env (nixpacks_command d t) = []"
  "c_Stdin (docker_build_command d t) = []" "c_Env (docker_build_command d t) = []"
  "c_Stdin (push_command t e) = []" "c_Env (push_command t e) = e"
  "c_Stdin (remove_command t) = []" "c_Env (remove_command t) = []"
  "c_Env (login_command reg e) = e"
  by (simp_all add: rev_parse_command_def inspect_command_def nixpacks_command_def docker_build_command_def
      push_command_def remove_command_def login_command_def plain_command_def)



section \<open>A concrete build\<close>

definition sample_cfg :: Config where
  "sample_cfg = (loadConfig (\<lambda>_. []))\<lparr>Registry := \<lparr>Host = ''h'', RepositoryPrefix = [], Username = ''u'',
     Password = ''p''\<rparr>\<rparr>"

definition sample_build :: BuildRequest where
  "sample_build = \<lparr>q_ProjectID = ''p'', q_ServiceID = ''s'', q_RepositoryDir = ''/tmp/work/app'', q_WorkDir = ''/tmp/work''\<rparr>"

lemma sample_trims [simp]:
  "TrimSpace ''0123456789abcdef'' = ''0123456789abcdef''" "TrimSpace ''h'' = ''h''" "TrimSpace ''u'' = ''u''"
  by (rule TrimSpace_idle; simp add: ascii_literals byte_def ascii_space_def)+

lemma calm_runCommand:
  "env w = calm \<Longrightarrow> value_of (runCommand spec) w = Inr ''0123456789abcdef''"
  by (simp add: runCommand_def mergeCommandEnv_def value_of_def Let_def)

lemma calm_build: "\<exists>r. value_of (BuildAndPush (NewCommandBuilder sample_cfg) sample_build) calm_world = (r, None)"
proof -
  have "normalizeRegistryHost ''h'' \<noteq> []"
  proof -
    have "ToLower ''h'' = ''h''" by (rule ToLower_idle; simp add: ascii_literals byte_def)
    then show ?thesis by (simp add: normalizeRegistryHost_def TrimSuffix_def suffix_def)
  qed
  then obtain t where t: "buildImageReference (Registry sample_cfg) ''p'' ''s'' ''0123456789abcdef'' = Inr t"
    by (simp add: buildImageReference_def sample_cfg_def shortCommitSHA_def Let_def split: if_splits)
  have e: "env w = calm \<Longrightarrow> env (after (runCommand spec) w) = calm" "env w = calm \<Longrightarrow> env (after (fs_do f) w) = calm"
    for w spec f
    using run_runCommand [of spec w] by (auto simp: after_def)
  have "env w = calm \<Longrightarrow> value_of (fs_do f) w = None" for w f by (simp add: value_of_def)
  moreover have "validateRegistryConfig (Registry sample_cfg) = None"
    by (simp add: validateRegistryConfig_def sample_cfg_def)
  ultimately show ?thesis
    using t
    by (simp add: BuildAndPush_def resolveCommitSHA_def registryDockerEnv_def build_or_reuse_def imageExists_def
        run_steps calm_runCommand e Let_def sample_build_def)
qed

theorem build_success_trace_witness:
  "let r = fst (value_of (BuildAndPush (NewCommandBuilder sample_cfg) sample_build) calm_world);
       t = br_ImageTag r; denv = [(''DOCKER_CONFIG'', filepath_Join [q_WorkDir sample_build, ''docker-config''])]
    in br_CommitSHA r \<noteq> []
       \<and> buildImageReference (Registry sample_cfg) (q_ProjectID sample_build) (q_ServiceID sample_build) (br_CommitSHA r) = Inr t
       \<and> (\<exists>cs. build_trace (br_Builder r) (q_RepositoryDir sample_build) t denv cs
            \<and> started (BuildAndPush (NewCommandBuilder sample_cfg) sample_build) calm_world
              = [command (rev_parse_command (q_RepositoryDir sample_build)), command (login_command (Registry sample_cfg) denv)]
                @ cs @ [command (remove_command t)])"
proof -
  obtain r where r: "value_of (BuildAndPush (NewCommandBuilder sample_cfg) sample_build) calm_world = (r, None)"
    using calm_build by blast
  show ?thesis using build_success_trace [OF r] unfolding r by simp
qed

end
