(* ===== verification/GitProps.thy ===== *)
theory GitProps
  imports NoLoss
begin

text \<open>
  Fetching the source: the installation token leaves the process only in the environment of git,
  credentials are used for private repositories alone, and the claim sent to GitHub is well formed
  and can be read back.
\<close>

section \<open>The token\<close>

text \<open>A call with the environment of a started process hidden.\<close>

definition hide_env :: "call \<Rightarrow> call" where
  "hide_env e = (case e of Exec p \<Rightarrow> Exec (p\<lparr>x_Env := []\<rparr>) | _ \<Rightarrow> e)"

lemma run_runGitClone:
  "after (runGitClone u b d extra) w = w\<lparr>hist := hist w @ [Exec \<lparr>x_Name = ''git'', x_Args = clone_args u b d,
     x_Dir = [], x_Env = environ (env w) @ map assignment extra, x_Stdin = []\<rparr>]\<rparr>"
  by (auto simp: runGitClone_def mergeCommandEnv_def after_def split: option.splits prod.splits)

lemma calls_cloneWithAskPass:
  "calls (cloneWithAskPass u b d tok) w =
     (case mkdir_temp (env w) (hist w) ''shiply-askpass-*'' of
        Inl t \<Rightarrow> [MkdirTemp ''shiply-askpass-*'']
      | Inr tmp \<Rightarrow>
          (let path = filepath_Join [tmp, ''askpass.sh''] in
           [MkdirTemp ''shiply-askpass-*'', Fs (WriteFile path askpass_script)]
           @ (if fs_error (env w) (hist w @ [MkdirTemp ''shiply-askpass-*'']) (WriteFile path askpass_script) = None
              then [Exec \<lparr>x_Name = ''git'', x_Args = clone_args u b d, x_Dir = [],
                x_Env = environ (env w) @ map assignment
                  [(''GIT_ASKPASS'', path), (''GIT_TOKEN'', tok), (''GIT_TERMINAL_PROMPT'', ''0'')], x_Stdin = []\<rparr>]
              else [])
           @ [Fs (RemoveAll tmp)]))"
  by (simp add: cloneWithAskPass_def calls_def run_steps Let_def run_runGitClone
      after_def [of "mkdir_temp_do s" for s] value_of_def [of "mkdir_temp_do s" for s]
      after_def [of "fs_do f" for f] value_of_def [of "fs_do f" for f] split: sum.split option.split)

text \<open>
  C31: The installation token is given to git in its environment and nowhere else: apart from that
  environment, cloning with any two tokens makes exactly the same calls, so the token is in no
  argument and in no file; and the directory with the askpass script is always removed at the end.
\<close>

theorem token_confined:
  "map hide_env (calls (cloneWithAskPass u b d tok) w) = map hide_env (calls (cloneWithAskPass u b d tok') w)
   \<and> (case mkdir_temp (env w) (hist w) ''shiply-askpass-*'' of
        Inl t \<Rightarrow> calls (cloneWithAskPass u b d tok) w = [MkdirTemp ''shiply-askpass-*'']
      | Inr tmp \<Rightarrow> last (calls (cloneWithAskPass u b d tok) w) = Fs (RemoveAll tmp))"
  by (simp add: calls_cloneWithAskPass hide_env_def Let_def split: sum.split)

text \<open>
  Credentials are used for private repositories of the GitHub App alone. For any other request
  the clone starts nothing but git, at most once, with the inherited environment: it signs nothing,
  asks GitHub for nothing and creates no script; without a URL it does nothing at all and fails.
\<close>

lemma public_clone_uses_no_credentials:
  assumes "p_RepositoryProvider payload \<noteq> ''GITHUB_APP'' \<or> \<not> p_PrivateRepository payload"
  shows "let url = (if p_CloneURL payload = [] then p_RepositoryURL payload else p_CloneURL payload) in
    calls (cloneRepository cfg payload d) w =
      (if url = [] then []
       else [Exec \<lparr>x_Name = ''git'', x_Args = clone_args url (p_Branch payload) d, x_Dir = [],
               x_Env = environ (env w), x_Stdin = []\<rparr>])
    \<and> (if url = [] then value_of (cloneRepository cfg payload d) w = Some (ErrText ''missing clone url'') else True)"
  using assms by (auto simp: cloneRepository_def Let_def calls_def run_runGitClone)

lemma public_clone_instance:
  "calls (cloneRepository (loadConfig (\<lambda>_. [])) (zero_payload\<lparr>p_CloneURL := ''u''\<rparr>) ''/tmp/x'') calm_world
     = [Exec \<lparr>x_Name = ''git'', x_Args = clone_args ''u'' [] ''/tmp/x'', x_Dir = [],
          x_Env = [''PATH=/bin''], x_Stdin = []\<rparr>]"
  using public_clone_uses_no_credentials [of "zero_payload\<lparr>p_CloneURL := ''u''\<rparr>" "loadConfig (\<lambda>_. [])" "''/tmp/x''" calm_world]
  by (simp add: zero_payload_def Let_def)

section \<open>The claim\<close>

text \<open>The padded text in the standard alphabet that spells the same bytes.\<close>

definition standard_char :: "char \<Rightarrow> char" where
  "standard_char c = (if c = CHR ''-'' then CHR ''+'' else if c = CHR ''_'' then CHR ''/'' else c)"

definition standard_form :: "string \<Rightarrow> string" where
  "standard_form s = map standard_char s @ replicate ((4 - length s mod 4) mod 4) (CHR ''='')"

definition url_safe :: "char \<Rightarrow> bool" where
  "url_safe c \<longleftrightarrow> (48 \<le> byte c \<and> byte c \<le> 57) \<or> (65 \<le> byte c \<and> byte c \<le> 90) \<or> (97 \<le> byte c \<and> byte c \<le> 122)
     \<or> c = CHR ''-'' \<or> c = CHR ''_''"

lemma char_eq_byte: "c = d \<longleftrightarrow> byte c = byte d"
  by simp

lemma special_bytes: "byte (CHR ''-'') = 45" "byte (CHR ''+'') = 43" "byte (CHR ''_'') = 95" "byte (CHR ''/'') = 47"
  "byte (CHR ''='') = 61" "byte (CHR ''.'') = 46"
  by (simp_all add: byte_def)

lemma byte_sextet:
  "n < 64 \<Longrightarrow> byte (sextet_char True n) =
     (if n < 26 then 65 + n else if n < 52 then 71 + n else if n < 62 then n - 4 else if n = 62 then 45 else 95)"
  by (simp add: sextet_char_def special_bytes)

lemma byte_standard: "byte (standard_char c) = (if byte c = 45 then 43 else if byte c = 95 then 47 else byte c)"
  unfolding standard_char_def char_eq_byte [of c] special_bytes by (simp add: special_bytes)

lemma byte_standard_sextet:
  "n < 64 \<Longrightarrow> byte (standard_char (sextet_char True n)) =
     (if n < 26 then 65 + n else if n < 52 then 71 + n else if n < 62 then n - 4 else if n = 62 then 43 else 47)"
  by (auto simp: byte_standard byte_sextet)

lemma sextet_standard:
  assumes "n < 64"
  shows "sextet_val (standard_char (sextet_char True n)) = Some n"
    "standard_char (sextet_char True n) \<noteq> CHR ''=''"
    "byte (standard_char (sextet_char True n)) \<noteq> 10" "byte (standard_char (sextet_char True n)) \<noteq> 13"
    "url_safe (sextet_char True n)"
  using assms
  by (auto simp: sextet_val_def url_safe_def char_eq_byte special_bytes byte_standard_sextet byte_sextet Let_def
      simp del: byte_inject)

lemma standard_form_quad:
  "length q = 4 \<Longrightarrow> standard_form (q @ s) = map standard_char q @ standard_form s"
  by (simp add: standard_form_def)

lemma sextet_parts:
  "b < 256 \<Longrightarrow> (x * 16 + b div 16) div 16 = x" "b < 256 \<Longrightarrow> (x * 16 + b div 16) mod 16 = b div (16::nat)"
  "c < 256 \<Longrightarrow> (x * 4 + c div 64) div 4 = x" "c < 256 \<Longrightarrow> (x * 4 + c div 64) mod 4 = c div (64::nat)"
  by auto

lemma decode_RawURL:
  "\<forall>b \<in> set bs. b < 256 \<Longrightarrow> decode_quads (standard_form (RawURLEncoding bs)) = Some bs"
proof (induction bs rule: RawURLEncoding.induct)
  case (2 a)
  have "replicate 2 (CHR ''='') = ''==''" by (simp add: numeral_2_eq_2)
  moreover have "a div 4 < 64" "a mod 4 * 16 < 64" using 2 by auto
  ultimately show ?case by (simp add: standard_form_def sextet_standard)
next
  case (3 a b)
  have "a div 4 < 64" "a mod 4 * 16 + b div 16 < 64" "b mod 16 * 4 < 64" "b div 16 < 16" using 3 by auto
  then show ?case using 3 by (simp add: standard_form_def sextet_standard sextet_parts)
next
  case (4 a b c bs)
  have "a div 4 < 64" "a mod 4 * 16 + b div 16 < 64" "b mod 16 * 4 + c div 64 < 64" "c mod 64 < 64"
    "b div 16 < 16" "c div 64 < 4"
    using 4(2) by auto
  then show ?case using 4
    by (simp add: standard_form_quad [of "[w, x, y, z]" for w x y z, simplified] sextet_standard sextet_parts)
qed (simp add: standard_form_def)


lemma RawURL_chars:
  assumes P: "\<And>n. n < 64 \<Longrightarrow> P (sextet_char True n)"
  shows "\<forall>b \<in> set bs. b < 256 \<Longrightarrow> list_all P (RawURLEncoding bs)"
proof (induction bs rule: RawURLEncoding.induct)
  case (2 a)
  have "a div 4 < 64" "a mod 4 * 16 < 64" using 2 by auto
  from this [THEN P] show ?case by simp
next
  case (3 a b)
  have "a div 4 < 64" "a mod 4 * 16 + b div 16 < 64" "b mod 16 * 4 < 64" using 3 by auto
  from this [THEN P] show ?case by simp
next
  case (4 a b x bs)
  have "a div 4 < 64" "a mod 4 * 16 + b div 16 < 64" "b mod 16 * 4 + x div 64 < 64" "x mod 64 < 64"
    using 4(2) by auto
  from this [THEN P] show ?case using 4 by simp
qed simp

lemma encode_text_chars: "c \<in> set (encode_text s) \<Longrightarrow> url_safe c \<and> byte (standard_char c) \<notin> {10, 13}"
proof -
  have "list_all (\<lambda>c. url_safe c \<and> byte (standard_char c) \<notin> {10, 13}) (encode_text s)"
    unfolding encode_text_def by (rule RawURL_chars) (auto simp: sextet_standard byte_less)
  then show "c \<in> set (encode_text s) \<Longrightarrow> url_safe c \<and> byte (standard_char c) \<notin> {10, 13}"
    by (simp add: list_all_iff)
qed

lemma SplitByte_idle: "sep \<notin> set a \<Longrightarrow> SplitByte sep a = [a]"
  by (induction a) auto

lemma SplitByte_append: "sep \<notin> set a \<Longrightarrow> SplitByte sep (a @ sep # s) = a # SplitByte sep s"
  by (induction a) auto


text \<open>
  The claim for GitHub has three parts separated by dots, with no dot inside a part, of which
  the first two are the encoded header and the encoded claims for the instant read, valid for nine
  minutes and dated half a minute back; one signature is asked for and nothing is sent.
\<close>

lemma jwt_shape:
  "let n = clock (env w) (hist w) div Second in
   case value_of (createGitHubAppJWT app key) w of
     Inl e \<Rightarrow> calls (createGitHubAppJWT app key) w = [ReadClock, Sign key]
   | Inr jwt \<Rightarrow> calls (createGitHubAppJWT app key) w = [ReadClock, Sign key]
       \<and> (\<exists>sig. jwt = Join [encode_text jwt_header, encode_text (jwt_claims n app), encode_text sig] ''.''
            \<and> SplitByte (CHR ''.'') jwt = [encode_text jwt_header, encode_text (jwt_claims n app), encode_text sig])"
proof -
  have dot: "CHR ''.'' \<notin> set (encode_text s)" for s
    using encode_text_chars [of "CHR ''.''" s] by (auto simp: url_safe_def special_bytes char_eq_byte simp del: byte_inject)
  have split: "SplitByte (CHR ''.'') (a @ ''.'' @ b @ ''.'' @ c) = [a, b, c]"
    if "CHR ''.'' \<notin> set a" "CHR ''.'' \<notin> set b" "CHR ''.'' \<notin> set c" for a b c
    using that by (simp add: SplitByte_append SplitByte_idle)
  show ?thesis
    using split [OF dot dot dot]
    by (auto simp: createGitHubAppJWT_def value_of_def calls_def after_def Let_def split: sum.splits)
qed

end
