(* ===== verification/Sharing.thy ===== *)
theory Sharing
  imports LedgerProps Parts
begin

text \<open>
  The ledger is shared: other workers run their operations on it between any two operations of this
  one. \<open>shared_ledger\<close> is the PostgreSQL ledger with such interference: before each operation of its
  own, whatever sequence of operations the parameter \<open>foreign\<close> gives for the history so far. No other call of
  a handler reads the ledger's table, so interference at these points is interference anywhere, and
  the claim transaction holds the lock of its row. The locale \<open>stage_holder\<close> states what the stage
  body relies on for the deployment it builds; the ledger keeps it alone, and shared with workers that
  do not finish or release the same stage.
\<close>

section \<open>Interference\<close>

type_synonym interference = "call list \<Rightarrow> ledger_op list"

fun run_all :: "ledger_op list \<Rightarrow> unit M" where
  "run_all [] = ret ()"
| "run_all (p # ps) = do { run_op PostgresStageLedger p; run_all ps }"

definition others_act :: "interference \<Rightarrow> unit M" where
  "others_act foreign = do { h \<leftarrow> gets hist; run_all (foreign h) }"

definition shared_ledger :: "interference \<Rightarrow> StageLedger" where
  "shared_ledger foreign = \<lparr>
     Claim = (\<lambda>ident stage d. do { others_act foreign; pg_Claim ident stage d }),
     Renew = (\<lambda>ident stage d. do { others_act foreign; pg_Renew ident stage d }),
     Complete = (\<lambda>ident stage b. do { others_act foreign; pg_Complete ident stage b }),
     Fail = (\<lambda>ident stage b. do { others_act foreign; pg_Fail ident stage b }),
     Release = (\<lambda>ident stage. do { others_act foreign; pg_Release ident stage }),
     RecordRetry = (\<lambda>ident stage r. do { others_act foreign; pg_RecordRetry ident stage r }),
     CloseLedger = pg_Close \<rparr>"

text \<open>The service over another ledger.\<close>

definition with_ledger :: "Config \<Rightarrow> StageLedger \<Rightarrow> BuildConsumer" where
  "with_ledger cfg led = (wired cfg)\<lparr>c_ledger := Some led\<rparr>"

lemma after_run_all: "after (run_all ps) w = run_ops PostgresStageLedger ps w"
  by (induction ps arbitrary: w) (simp_all add: run_steps)

lemma after_others: "after (others_act foreign) w = run_ops PostgresStageLedger (foreign (hist w)) w"
  by (simp add: others_act_def run_steps after_run_all)

lemma shared_fields:
  "Claim (shared_ledger f) i s d = do { others_act f; pg_Claim i s d }"
  "Renew (shared_ledger f) i s d = do { others_act f; pg_Renew i s d }"
  "Complete (shared_ledger f) i s b = do { others_act f; pg_Complete i s b }"
  "Fail (shared_ledger f) i s b = do { others_act f; pg_Fail i s b }"
  "Release (shared_ledger f) i s = do { others_act f; pg_Release i s }"
  "RecordRetry (shared_ledger f) i s r = do { others_act f; pg_RecordRetry i s r }"
  by (simp_all add: shared_ledger_def)

lemma with_ledger_fields [simp]:
  "c_cfg (with_ledger cfg led) = cfg" "c_ledger (with_ledger cfg led) = Some led"
  "c_publishFn (with_ledger cfg led) = Some publishJSONEvent"
  "clone_fn_of (with_ledger cfg led) = cloneRepository cfg"
  "executor_of (with_ledger cfg led) = BuildAndPush (NewCommandBuilder cfg)"
  by (simp_all add: with_ledger_def wired_def clone_fn_of_def executor_of_def)

lemma publishing_with_ledger [simp]:
  "publishEvent (with_ledger cfg led) ex k x = publishJSONEvent ex k x"
  "publishProgressEvent (with_ledger cfg led) ex k x = publishJSONEvent ex k x"
  by (simp_all add: publishEvent_def publishProgressEvent_def)

lemma with_postgres: "with_ledger cfg PostgresStageLedger = wired cfg"
  by (simp add: with_ledger_def wired_def)

lemma framed_run_op: "framed ledger_call (run_op PostgresStageLedger p)"
  by (cases p) (auto simp: run_op.simps postgres_fields intro!: framed_intros framed_postgres)

lemma framed_others: "framed ledger_call (others_act f)"
proof -
  have "framed ledger_call (run_all ps)" for ps
    by (induction ps) (auto intro!: framed_intros framed_run_op)
  then show ?thesis unfolding others_act_def by (intro framed_intros)
qed

section \<open>What the builder of a stage relies on\<close>

locale stage_holder =
  fixes led :: StageLedger
    and i :: string
  assumes led_framed:
      "framed ledger_call (Claim led j s d) \<and> framed ledger_call (Renew led j s d)
       \<and> framed ledger_call (Complete led j s b) \<and> framed ledger_call (Fail led j s b)
       \<and> framed ledger_call (Release led j s) \<and> framed ledger_call (RecordRetry led j s r)"
    and renew_holds:
      "pg_wf w \<Longrightarrow> pg_view w i = Some e \<Longrightarrow>
         pg_wf (after (Renew led i build_stage d) w)
         \<and> (\<exists>e'. pg_view (after (Renew led i build_stage d) w) i = Some e'
               \<and> (terminal (e_status e) \<longrightarrow> e_status e' = e_status e))"
    and complete_holds:
      "pg_wf w \<Longrightarrow> pg_view w i = Some e \<Longrightarrow> value_of (Complete led i build_stage b) w = None \<Longrightarrow>
         pg_wf (after (Complete led i build_stage b) w)
         \<and> (\<exists>e' doc. pg_view (after (Complete led i build_stage b) w) i = Some e' \<and> e_status e' = Done (Some doc)
              \<and> jsonb (env w) (print_json (bundle_json b)) = Some doc)"
    and fail_holds:
      "pg_wf w \<Longrightarrow> pg_view w i = Some e \<Longrightarrow> value_of (Fail led i build_stage b) w = None \<Longrightarrow>
         pg_wf (after (Fail led i build_stage b) w)
         \<and> (\<exists>e' doc. pg_view (after (Fail led i build_stage b) w) i = Some e' \<and> e_status e' = Broken (Some doc)
              \<and> jsonb (env w) (print_json (bundle_json b)) = Some doc)"
    and answers:
      "\<forall>h s. sql_fault (env w) h s = None \<Longrightarrow> \<forall>doc. jsonb (env w) doc \<noteq> None \<Longrightarrow> pg_text i \<Longrightarrow>
         value_of (Complete led i build_stage b) w = None \<and> value_of (Fail led i build_stage b) w = None"

sublocale stage_holder \<subseteq> parts: consumer_parts "with_ledger cfg led" for cfg
  by unfold_locales
    (use led_framed in \<open>auto simp: framed_publishJSONEvent framed_cloneRepository framed_NewCommandBuilder\<close>)

context stage_holder
begin

lemma led_ops:
  "framed ledger_call (Renew led j s d)" "framed ledger_call (Complete led j s b)" "framed ledger_call (Fail led j s b)"
  using led_framed by blast+

end

section \<open>The ledger alone and shared\<close>

text \<open>What is left of an interference that neither finishes nor releases the stage of deployment \<open>i\<close>.\<close>

definition polite :: "string \<Rightarrow> interference \<Rightarrow> interference" where
  "polite i foreign = (\<lambda>h. filter (keeps_result i) (foreign h))"

lemma polite_id: "(\<And>h. list_all (keeps_result i) (foreign h)) \<Longrightarrow> polite i foreign = foreign"
  by (auto simp: polite_def fun_eq_iff list_all_iff filter_id_conv)

lemma polite_others:
  assumes "pg_wf w" and "pg_view w i = Some e"
  shows "pg_wf (after (others_act (polite i foreign)) w)
    \<and> (\<exists>e'. pg_view (after (others_act (polite i foreign)) w) i = Some e' \<and> (terminal (e_status e) \<longrightarrow> e_status e' = e_status e))"
proof -
  let ?ps = "polite i foreign (hist w)"
  have k: "list_all (keeps_result i) ?ps" by (simp add: polite_def list_all_iff)
  show ?thesis
    unfolding after_others
    using pg.wf_ops [OF assms(1), of ?ps] pg.counters_monotone [OF assms, of ?ps] pg.result_stays [OF assms _ k] by auto
qed

lemma env_others: "env (after (others_act foreign) w) = env w"
  using framedD(3) [OF framed_others, where w = w] by (simp add: same_consumer_def)

lemma own_renew:
  assumes "pg_wf w" and "pg_view w i = Some e"
  shows "pg_wf (after (pg_Renew i build_stage d) w) \<and> (\<exists>e'. pg_view (after (pg_Renew i build_stage d) w) i = Some e'
    \<and> (terminal (e_status e) \<longrightarrow> e_status e' = e_status e))"
  using pg.wf_op [OF assms(1), of "OpRenew i d"] pg.counters_op [OF assms, of "OpRenew i d"]
    pg.result_op [OF assms, of "OpRenew i d"]
  by (auto simp: pg.after_run_op postgres_fields keeps_result_def)

lemma own_results:
  assumes "pg_wf w" and "pg_view w i = Some e"
  shows "value_of (pg_Complete i build_stage b) w = None \<Longrightarrow> pg_wf (after (pg_Complete i build_stage b) w)
      \<and> (\<exists>e' doc. pg_view (after (pg_Complete i build_stage b) w) i = Some e' \<and> e_status e' = Done (Some doc)
           \<and> jsonb (env w) (print_json (bundle_json b)) = Some doc)"
    and "value_of (pg_Fail i build_stage b) w = None \<Longrightarrow> pg_wf (after (pg_Fail i build_stage b) w)
      \<and> (\<exists>e' doc. pg_view (after (pg_Fail i build_stage b) w) i = Some e' \<and> e_status e' = Broken (Some doc)
           \<and> jsonb (env w) (print_json (bundle_json b)) = Some doc)"
  using pg.complete_ok [OF assms(2), of b] pg.fail_ok [OF assms(2), of b]
    pg.wf_op [OF assms(1), of "OpComplete i b"] pg.wf_op [OF assms(1), of "OpFail i b"]
  by (fastforce simp: postgres_fields pg.after_run_op)+

lemma own_answers:
  assumes "\<forall>h s. sql_fault (env w) h s = None" and "\<forall>doc. jsonb (env w) doc \<noteq> None" and "pg_text i"
  shows "value_of (pg_Complete i build_stage b) w = None \<and> value_of (pg_Fail i build_stage b) w = None"
proof -
  have "pg_text build_stage"
    by (simp add: pg_text_def build_stage_def valid_utf8_ascii is_ascii_def byte_def)
  then show ?thesis
    using assms
    by (auto simp: pg_Complete_def pg_Fail_def pg_set_def value_of_def sql_do_def sql_error_of_def
        update_row_def stage_states split: option.splits)
qed

interpretation own: stage_holder PostgresStageLedger i for i
  by (unfold_locales, unfold postgres_fields)
    (rule own_renew own_results own_answers; assumption | intro conjI framed_postgres)+

interpretation shared: stage_holder "shared_ledger (polite i foreign)" i for i foreign
proof unfold_locales
  let ?led = "shared_ledger (polite i foreign)"
  fix w e b d
  assume w: "pg_wf w" "pg_view w i = Some e"
  let ?u = "after (others_act (polite i foreign)) w"
  obtain e1 where u: "pg_wf ?u" "pg_view ?u i = Some e1" "terminal (e_status e) \<Longrightarrow> e_status e1 = e_status e"
    using polite_others [OF w] by blast
  show "pg_wf (after (Renew ?led i build_stage d) w) \<and> (\<exists>e'. pg_view (after (Renew ?led i build_stage d) w) i = Some e'
      \<and> (terminal (e_status e) \<longrightarrow> e_status e' = e_status e))"
    using own_renew [OF u(1,2), of d] u(3) by (auto simp: shared_fields run_steps)
  show "value_of (Complete ?led i build_stage b) w = None \<Longrightarrow> pg_wf (after (Complete ?led i build_stage b) w)
      \<and> (\<exists>e' doc. pg_view (after (Complete ?led i build_stage b) w) i = Some e' \<and> e_status e' = Done (Some doc)
           \<and> jsonb (env w) (print_json (bundle_json b)) = Some doc)"
    and "value_of (Fail ?led i build_stage b) w = None \<Longrightarrow> pg_wf (after (Fail ?led i build_stage b) w)
      \<and> (\<exists>e' doc. pg_view (after (Fail ?led i build_stage b) w) i = Some e' \<and> e_status e' = Broken (Some doc)
           \<and> jsonb (env w) (print_json (bundle_json b)) = Some doc)"
    using own_results [OF u(1,2), of b] by (simp_all add: shared_fields run_steps env_others)
qed (auto simp: shared_fields run_steps env_others own_answers framed_others framed_postgres intro!: framed_intros)

end
