(* ===== verification/Outcome.thy ===== *)
theory Outcome
  imports Service StageProps BuilderProps GitProps Sharing
begin

text \<open>
  How a claimed build ends when the broker and the database answer, whatever git, docker, nixpacks,
  the file system and GitHub do: it is recorded, as a success or a failure, and announced. The proofs
  rest on the locale \<open>stage_holder\<close> alone, so they hold with the ledger shared by other workers as well.
\<close>

section \<open>A broker and a database that answer\<close>

text \<open>The clock stays within the years that JSON can express. Nothing is said of the rest.\<close>

definition ready :: "environment \<Rightarrow> bool" where
  "ready v \<longleftrightarrow>
     (\<forall>h s. sql_fault v h s = None) \<and> (\<forall>doc. jsonb v doc \<noteq> None)
     \<and> (\<forall>h ex k b p. accepted (broker v h ex k b p)) \<and> (\<forall>h. json_time (clock v h) \<noteq> None)"

definition serving :: "world \<Rightarrow> bool" where
  "serving w \<longleftrightarrow> ready (env w) \<and> pub_set w"

lemma framed_serving: "framed P m \<Longrightarrow> serving (after m w) = serving w"
  using framedD(3) by (fastforce simp: serving_def same_consumer_def)

lemma serving_step [simp]:
  "serving (w\<lparr>hist := h\<rparr>) = serving w" "serving (w\<lparr>rows := tab\<rparr>) = serving w" "serving (w\<lparr>jobs := js\<rparr>) = serving w"
  by (simp_all add: serving_def)

section \<open>What each step answers\<close>

lemma serving_publish:
  assumes "serving w" and "outbound_json x = Inr j"
  shows "value_of (publishJSONEvent ex k x) w = None"
  using assms
  by (auto simp: serving_def ready_def value_of_def run_publishJSONEvent run_publishJSON Let_def outcome_error_None)

lemma serving_events:
  assumes "serving w"
  shows "\<exists>j. outbound_json (Deployment (newBuildStartedDeploymentEvent (clock (env w) h) event)) = Inr j"
    and "\<exists>j. outbound_json (Deployment (newBuildSucceededDeploymentEvent (clock (env w) h) event res)) = Inr j"
    and "\<exists>j. outbound_json (Deployment (newBuildFailedDeploymentEvent (clock (env w) h) event res err)) = Inr j"
    and "\<exists>j. outbound_json (Succeeded ev) = Inr j" and "\<exists>j. outbound_json (Failed fv) = Inr j"
proof -
  have "\<exists>t. json_time (clock (env w) h) = Some t"
    using assms by (auto simp: serving_def ready_def)
  then show "\<exists>j. outbound_json (Deployment (newBuildStartedDeploymentEvent (clock (env w) h) event)) = Inr j"
    "\<exists>j. outbound_json (Deployment (newBuildSucceededDeploymentEvent (clock (env w) h) event res)) = Inr j"
    "\<exists>j. outbound_json (Deployment (newBuildFailedDeploymentEvent (clock (env w) h) event res err)) = Inr j"
    by (auto simp: outbound_json_def deployment_event_json_def newBuildStartedDeploymentEvent_def
        newBuildSucceededDeploymentEvent_def newBuildFailedDeploymentEvent_def)
qed (simp_all add: outbound_json_def)

lemma publish_serving: "serving (after (publishJSONEvent ex k x) w) = serving w"
  by (rule framed_serving [OF framed_publishJSONEvent])

section \<open>The rows of the ledger\<close>

definition same_rows :: "world \<Rightarrow> world \<Rightarrow> bool" where
  "same_rows w w' \<longleftrightarrow> rows w' = rows w"

lemma same_rows_relation: "reflp same_rows" "transp same_rows"
  by (simp_all add: reflp_def transp_def same_rows_def)

lemmas row_intros = abides_ret [OF same_rows_relation(1)] abides_gets [OF same_rows_relation(1)]
  abides_bind [OF same_rows_relation(2)] abides_cases [where R = same_rows]

lemma rows_build: "abides same_rows (BuildAndPush (NewCommandBuilder cfg) q)"
proof -
  have "rows (after (runCommand spec) u) = rows u" for spec u
    using run_runCommand [of spec u] by auto
  then have run: "abides same_rows (runCommand spec)" for spec
    by (simp add: abides_def same_rows_def)
  have fs: "abides same_rows (fs_do f)" and st: "abides same_rows (stat_do p)" for f p
    by (simp_all add: abides_def same_rows_def after_def)
  have doc: "abides same_rows (hasDockerfile d)" for d
    unfolding hasDockerfile_def by (auto intro!: row_intros st split: stat_result.splits)
  show ?thesis
    unfolding BuildAndPush_def resolveCommitSHA_def registryDockerEnv_def build_or_reuse_def
      imageExists_def buildImage_def pushImage_def builder_fields
    by (intro row_intros run fs doc)
qed

lemma rows_clone: "abides same_rows (cloneRepository cfg payload dir)"
proof -
  have calls: "abides same_rows time_now" "abides same_rows (sign_do k d)" "abides same_rows (http_do q)"
    "abides same_rows (fs_do f)" "abides same_rows (exec_do p)" "abides same_rows (mkdir_temp_do s)"
    "abides same_rows (ask g)" for k d q f p s and g :: "environment \<Rightarrow> call list \<Rightarrow> 'z"
    by (simp_all add: abides_def same_rows_def after_def)
  have key: "abides same_rows (parse_key k)" for k
    unfolding parse_key_def by (auto intro!: row_intros calls split: option.splits sum.splits)
  show ?thesis
    unfolding cloneRepository_def generateInstallationToken_def parseGitHubPrivateKey_def
      createGitHubAppJWT_def cloneWithAskPass_def runGitClone_def mergeCommandEnv_def
    by (intro row_intros calls key)
qed

section \<open>What is published\<close>

lemma quiet:
  "framed P m \<Longrightarrow> (\<And>e. P e \<Longrightarrow> \<not> is_publish e) \<Longrightarrow> filter is_publish (calls m w) = []"
  using framedD(2) by (fastforce simp: filter_empty_conv list_all_iff)

lemma quiet_parts:
  "filter is_publish (calls (cloneRepository cfg payload d) w) = []"
  "filter is_publish (calls (BuildAndPush (NewCommandBuilder cfg) q) w) = []"
  by (rule quiet [OF framed_cloneRepository] quiet [OF framed_NewCommandBuilder], auto simp: call_kinds)+


text \<open>The two events of each outcome, both confirmed, and nothing else.\<close>

definition success_routes :: "Config \<Rightarrow> call list \<Rightarrow> bool" where
  "success_routes cfg es \<longleftrightarrow> (\<exists>m1 a1 m2 a2. accepted a1 \<and> accepted a2 \<and>
     es = [Publish (RabbitMQExchange cfg) (BuildSucceededRoutingKey cfg) False m1 a1,
           Publish (DeploymentExchange cfg) (DeploymentBuildSucceededRoutingKey cfg) False m2 a2])"

definition failure_routes :: "Config \<Rightarrow> call list \<Rightarrow> bool" where
  "failure_routes cfg es \<longleftrightarrow> (\<exists>m1 a1 m2 a2. accepted a1 \<and> accepted a2 \<and>
     es = [Publish (RabbitMQExchange cfg) (BuildFailedRoutingKey cfg) False m1 a1,
           Publish (DeploymentExchange cfg) (DeploymentBuildFailedRoutingKey cfg) False m2 a2])"

definition settled :: "Config \<Rightarrow> status \<Rightarrow> call list \<Rightarrow> bool" where
  "settled cfg st es \<longleftrightarrow>
     (case st of
        Done doc \<Rightarrow> doc \<noteq> None \<and> success_routes cfg es
      | Broken doc \<Rightarrow> doc \<noteq> None \<and> failure_routes cfg es
      | Running lease \<Rightarrow> False)"

text \<open>What the handler returns: an acknowledgement, with an error exactly for a failed stage.\<close>

definition reported :: "deliveryAction \<times> goerr option \<Rightarrow> status \<Rightarrow> bool" where
  "reported r st \<longleftrightarrow> fst r = actionAck
     \<and> (case st of Done doc \<Rightarrow> snd r = None | Broken doc \<Rightarrow> snd r \<noteq> None | Running lease \<Rightarrow> False)"

text \<open>A handler that ends acknowledged, with the outcome recorded and announced.\<close>

definition settles :: "Config \<Rightarrow> string \<Rightarrow> (deliveryAction \<times> goerr option) M \<Rightarrow> world \<Rightarrow> bool" where
  "settles cfg i m w \<longleftrightarrow> (\<exists>e. pg_view (after m w) i = Some e \<and> reported (value_of m w) (e_status e)
     \<and> settled cfg (e_status e) (filter is_publish (calls m w)))"

lemma wf_rows: "rows w' = rows w \<Longrightarrow> pg_wf w' = pg_wf w" "rows w' = rows w \<Longrightarrow> pg_view w' i = pg_view w i"
  by (simp_all add: pg_wf_def pg_view_row)

lemma serving_parts:
  "serving (after (cloneRepository cfg payload d) w) = serving w"
  "serving (after (BuildAndPush (NewCommandBuilder cfg) q) w) = serving w"
  by (rule framed_serving [OF framed_cloneRepository] framed_serving [OF framed_NewCommandBuilder])+

section \<open>The handler, for the holder of a stage\<close>

lemma publish_serving_call:
  assumes "serving w" and "outbound_json x = Inr j"
  shows "\<exists>m a. hist (after (publishJSONEvent ex k x) w) = hist w @ [ReadClock, ReadClock, Publish ex k False m a]
    \<and> accepted a"
  using publish_confirmed [OF serving_publish [OF assms], of ex k] extending_hist [OF extending_publish, of ex k x w]
  by auto

context stage_holder
begin

lemma results_serving:
  assumes "serving w" and "pg_text i"
  shows "value_of (Complete led i build_stage b) w = None" "value_of (Fail led i build_stage b) w = None"
  using answers [OF _ _ assms(2)] assms(1) by (simp_all add: serving_def ready_def)

lemma ledger_calls:
  "hist (after (Complete led i build_stage b) w) = hist w @ calls (Complete led i build_stage b) w"
  "hist (after (Fail led i build_stage b) w) = hist w @ calls (Fail led i build_stage b) w"
  "hist (after (lease_ticks (with_ledger cfg led) j) w) = hist w @ calls (lease_ticks (with_ledger cfg led) j) w"
  by (rule extending_hist framed_extending led_ops parts.lease_ticks_framed)+

lemma ledger_serving:
  "serving (after (Complete led i build_stage b) w) = serving w"
  "serving (after (Fail led i build_stage b) w) = serving w"
  "serving (after (lease_ticks (with_ledger cfg led) j) w) = serving w"
  by (rule framed_serving led_ops parts.lease_ticks_framed)+

lemma ledger_quiet:
  "filter is_publish (calls (Complete led i build_stage b) w) = []"
  "filter is_publish (calls (Fail led i build_stage b) w) = []"
  "filter is_publish (calls (lease_ticks (with_ledger cfg led) j) w) = []"
proof -
  have q: "framed ledger_call m \<Longrightarrow> filter is_publish (calls m u) = []" for m :: "'z M" and u
    by (erule quiet) (auto simp: call_kinds)
  show "filter is_publish (calls (Complete led i build_stage b) w) = []"
    "filter is_publish (calls (Fail led i build_stage b) w) = []"
    by (rule q led_ops)+
  have "framed renewal_call (renew_times led j d n)" for d n
    by (induction n) (auto intro!: framed_intros framed_weaken [OF led_ops(1)] simp: renewal_call_def)
  then have "framed renewal_call (lease_ticks (with_ledger cfg led) j)"
    unfolding lease_ticks_def by (auto intro!: framed_intros framed_emit simp: renewal_call_def)
  then show "filter is_publish (calls (lease_ticks (with_ledger cfg led) j) w) = []"
    by (rule quiet) (auto simp: call_kinds)
qed

lemma ticks_hold:
  assumes "pg_wf w" and "pg_view w i = Some e"
  shows "\<exists>e'. pg_wf (after (lease_ticks (with_ledger cfg led) i) w) \<and> pg_view (after (lease_ticks (with_ledger cfg led) i) w) i = Some e'
    \<and> (terminal (e_status e) \<longrightarrow> e_status e' = e_status e)"
proof -
  have renewals: "\<exists>e'. pg_wf (after (renew_times led i d n) u) \<and> pg_view (after (renew_times led i d n) u) i = Some e'
      \<and> (terminal (e_status e) \<longrightarrow> e_status e' = e_status e)"
    if "pg_wf u" "pg_view u i = Some e" for n d u e
    using that
  proof (induction n arbitrary: u e)
    case (Suc n)
    obtain e1 where e1: "pg_wf (after (Renew led i build_stage d) u)" "pg_view (after (Renew led i build_stage d) u) i = Some e1"
      "terminal (e_status e) \<longrightarrow> e_status e1 = e_status e"
      using renew_holds [OF Suc.prems, of d] by blast
    then show ?case using Suc.IH [OF e1(1,2)] by (auto simp: run_steps)
  qed auto
  have "pg_wf (w\<lparr>hist := h\<rparr>)" "pg_view (w\<lparr>hist := h\<rparr>) i = Some e" for h
    using assms by (simp_all add: pg_wf_def pg_view_row)
  then show ?thesis
    using renewals
    by (simp add: lease_ticks_def run_steps after_def [of "emit e" for e] after_def [of "ask f" for f])
qed

lemma completeFailure_done:
  assumes "serving w" and "pg_text i" and "pg_wf w" and "pg_view w i = Some old" and "se_DeploymentID event = i"
  shows "value_of (completeFailure (with_ledger cfg led) event res err) w = (actionAck, Some err)
    \<and> failure_routes cfg (filter is_publish (calls (completeFailure (with_ledger cfg led) event res err) w))
    \<and> pg_wf (after (completeFailure (with_ledger cfg led) event res err) w)
    \<and> (\<exists>e doc. pg_view (after (completeFailure (with_ledger cfg led) event res err) w) i = Some e \<and> e_status e = Broken (Some doc))"
proof -
  let ?m = "completeFailure (with_ledger cfg led) event res err"
  let ?x = "Failed (newBuildFailedEvent (clock (env w) (hist w)) event res err)"
    and ?y = "Deployment (newBuildFailedDeploymentEvent (clock (env w) (hist w @ [ReadClock])) event res err)"
  let ?P = "publishJSONEvent (RabbitMQExchange cfg) (BuildFailedRoutingKey cfg) ?x"
    and ?Q = "publishJSONEvent (DeploymentExchange cfg) (DeploymentBuildFailedRoutingKey cfg) ?y"
  obtain jx jy where j: "outbound_json ?x = Inr jx" "outbound_json ?y = Inr jy"
    using serving_events(3) [OF assms(1), of "hist w @ [ReadClock]" event res err]
      serving_events(5) [OF assms(1), of "newBuildFailedEvent (clock (env w) (hist w)) event res err"] by blast
  then obtain b where b: "makeBuildResultEvents (BuildFailedRoutingKey cfg) ?x (DeploymentBuildFailedRoutingKey cfg) ?y = Inr b"
    by (simp add: makeBuildResultEvents_def)
  define w2 where "w2 = w\<lparr>hist := hist w @ [ReadClock, ReadClock]\<rparr>"
  define w3 where "w3 = after (Fail led i build_stage b) w2"
  define w4 where "w4 = after ?P w3"
  have w2: "serving w2" "pg_wf w2" "pg_view w2 i = Some old"
    using assms(1,3,4) by (simp_all add: w2_def pg_wf_def pg_view_row)
  note failed = results_serving(2) [OF w2(1) assms(2), of b]
  obtain e doc where w3: "pg_wf w3" "pg_view w3 i = Some e" "e_status e = Broken (Some doc)"
    using fail_holds [OF w2(2,3) failed] unfolding w3_def by blast
  have s: "serving w3" "serving w4"
    using w2(1) by (simp_all add: w3_def w4_def ledger_serving publish_serving)
  have v: "value_of ?m w = (actionAck, Some err)" and f: "after ?m w = after ?Q w4"
    using failed b serving_publish [OF s(1) j(1)] serving_publish [OF s(2) j(2)]
    by (simp_all add: completeFailure_def announceFailure_def run_steps Let_def assms(5) w2_def w3_def w4_def)
  obtain m1 a1 m2 a2 where h: "accepted a1" "accepted a2"
    "hist w4 = hist w3 @ [ReadClock, ReadClock, Publish (RabbitMQExchange cfg) (BuildFailedRoutingKey cfg) False m1 a1]"
    "hist (after ?Q w4) = hist w4 @ [ReadClock, ReadClock,
       Publish (DeploymentExchange cfg) (DeploymentBuildFailedRoutingKey cfg) False m2 a2]"
    using publish_serving_call [OF s(1) j(1)] publish_serving_call [OF s(2) j(2)] unfolding w4_def by metis
  have "hist w3 = hist w @ [ReadClock, ReadClock] @ calls (Fail led i build_stage b) w2"
    by (simp add: w3_def w2_def ledger_calls)
  then have "failure_routes cfg (filter is_publish (calls ?m w))"
    using h by (simp add: calls_def [of ?m] f ledger_quiet failure_routes_def)
  then show ?thesis
    using v w3 by (simp add: f w4_def publishJSONEvent_view)
qed

lemma completeFailure_settles:
  assumes "serving w" and "pg_text i" and "pg_wf w" and "pg_view w i = Some old" and "se_DeploymentID event = i"
  shows "settles cfg i (completeFailure (with_ledger cfg led) event res err) w"
  using completeFailure_done [OF assms, of cfg res err] by (auto simp: settles_def settled_def reported_def)

lemma announceSuccess_done:
  assumes "serving w" and "pg_wf w" and "pg_view w i = Some e" and "terminal (e_status e)"
    and "se_DeploymentID event = i" and "outbound_json x = Inr j"
  shows "value_of (announceSuccess (with_ledger cfg led) event res x) w = (actionAck, None)
    \<and> (\<exists>es. hist (after (announceSuccess (with_ledger cfg led) event res x) w) = hist w @ es \<and> success_routes cfg (filter is_publish es))
    \<and> pg_wf (after (announceSuccess (with_ledger cfg led) event res x) w)
    \<and> (\<exists>e'. pg_view (after (announceSuccess (with_ledger cfg led) event res x) w) i = Some e' \<and> e_status e' = e_status e)"
proof -
  let ?m = "announceSuccess (with_ledger cfg led) event res x" and ?L = "lease_ticks (with_ledger cfg led) i"
  let ?P = "publishJSONEvent (RabbitMQExchange cfg) (BuildSucceededRoutingKey cfg) x"
  define w1 where "w1 = after ?P w"
  define w2 where "w2 = after ?L w1"
  define w3 where "w3 = w2\<lparr>hist := hist w2 @ [ReadClock]\<rparr>"
  let ?y = "Deployment (newBuildSucceededDeploymentEvent (clock (env w2) (hist w2)) event res)"
  let ?Q = "publishJSONEvent (DeploymentExchange cfg) (DeploymentBuildSucceededRoutingKey cfg) ?y"
  define w4 where "w4 = after ?Q w3"
  define w5 where "w5 = after ?L w4"
  have w1: "serving w1" "pg_wf w1" "pg_view w1 i = Some e"
    using assms(1-3) by (simp_all add: w1_def publish_serving publishJSONEvent_view)
  obtain e2 where w2: "serving w2" "pg_wf w2" "pg_view w2 i = Some e2" "e_status e2 = e_status e"
    using ticks_hold [OF w1(2,3), of cfg] w1(1) assms(4) by (auto simp: w2_def ledger_serving)
  have w3: "serving w3" "pg_wf w3" "pg_view w3 i = Some e2"
    using w2 by (simp_all add: w3_def pg_wf_def pg_view_row)
  have w4: "serving w4" "pg_wf w4" "pg_view w4 i = Some e2"
    using w3 by (simp_all add: w4_def publish_serving publishJSONEvent_view)
  obtain e5 where w5: "pg_wf w5" "pg_view w5 i = Some e5" "e_status e5 = e_status e"
    using ticks_hold [OF w4(2,3), of cfg] assms(4) w2(4) by (auto simp: w5_def)
  obtain jy where y: "outbound_json ?y = Inr jy"
    using serving_events(2) [OF w2(1)] by blast
  have v: "value_of ?m w = (actionAck, None)" and f: "after ?m w = w5"
    using serving_publish [OF assms(1,6)] serving_publish [OF w3(1) y]
    by (simp_all add: announceSuccess_def run_steps assms(5) w1_def w2_def w3_def w4_def w5_def)
  obtain m1 a1 m2 a2 where h: "accepted a1" "accepted a2"
    "hist w1 = hist w @ [ReadClock, ReadClock, Publish (RabbitMQExchange cfg) (BuildSucceededRoutingKey cfg) False m1 a1]"
    "hist w4 = hist w3 @ [ReadClock, ReadClock,
       Publish (DeploymentExchange cfg) (DeploymentBuildSucceededRoutingKey cfg) False m2 a2]"
    using publish_serving_call [OF assms(1,6)] publish_serving_call [OF w3(1) y] unfolding w1_def w4_def by metis
  have "hist w5 = hist w @ [ReadClock, ReadClock, Publish (RabbitMQExchange cfg) (BuildSucceededRoutingKey cfg) False m1 a1]
      @ calls ?L w1 @ [ReadClock, ReadClock, ReadClock,
       Publish (DeploymentExchange cfg) (DeploymentBuildSucceededRoutingKey cfg) False m2 a2] @ calls ?L w4"
    using h by (simp add: w2_def w3_def w5_def ledger_calls)
  then show ?thesis
    using v w5 h(1,2) by (auto simp: f success_routes_def ledger_quiet)
qed

lemma completeSuccess_done:
  assumes "serving w" and "pg_text i" and "pg_wf w" and "pg_view w i = Some old" and "se_DeploymentID event = i"
  shows "value_of (completeSuccess (with_ledger cfg led) event res) w = (actionAck, None)
    \<and> success_routes cfg (filter is_publish (calls (completeSuccess (with_ledger cfg led) event res) w))
    \<and> pg_wf (after (completeSuccess (with_ledger cfg led) event res) w)
    \<and> (\<exists>e doc. pg_view (after (completeSuccess (with_ledger cfg led) event res) w) i = Some e \<and> e_status e = Done (Some doc))"
proof -
  let ?m = "completeSuccess (with_ledger cfg led) event res" and ?L = "lease_ticks (with_ledger cfg led) i"
  let ?x = "Succeeded (newBuildSucceededEvent (clock (env w) (hist w)) event res)"
  obtain b where b: "makeBuildResultEvents (BuildSucceededRoutingKey cfg) ?x
      (DeploymentBuildSucceededRoutingKey cfg)
      (Deployment (newBuildSucceededDeploymentEvent (clock (env w) (hist w @ [ReadClock])) event res)) = Inr b"
    using serving_events(2) [OF assms(1), of "hist w @ [ReadClock]" event res]
      serving_events(4) [OF assms(1), of "newBuildSucceededEvent (clock (env w) (hist w)) event res"]
    by (auto simp: makeBuildResultEvents_def)
  obtain j where j: "outbound_json ?x = Inr j" using serving_events(4) [OF assms(1)] by blast
  define w2 where "w2 = w\<lparr>hist := hist w @ [ReadClock, ReadClock]\<rparr>"
  define w3 where "w3 = after (Complete led i build_stage b) w2"
  define w4 where "w4 = after ?L w3"
  let ?A = "announceSuccess (with_ledger cfg led) event res ?x"
  have w2: "serving w2" "pg_wf w2" "pg_view w2 i = Some old"
    using assms(1,3,4) by (simp_all add: w2_def pg_wf_def pg_view_row)
  note completed = results_serving(1) [OF w2(1) assms(2), of b]
  obtain e doc where w3: "pg_wf w3" "pg_view w3 i = Some e" "e_status e = Done (Some doc)"
    using complete_holds [OF w2(2,3) completed] unfolding w3_def by blast
  obtain e4 where w4: "serving w4" "pg_wf w4" "pg_view w4 i = Some e4" "e_status e4 = Done (Some doc)"
    using ticks_hold [OF w3(1,2), of cfg] w2(1) w3(3) by (auto simp: w4_def w3_def ledger_serving terminal_def)
  have v: "value_of ?m w = value_of ?A w4" and f: "after ?m w = after ?A w4"
    using completed b
    by (simp_all add: completeSuccess_def run_steps Let_def assms(5) w2_def w3_def w4_def)
  have "terminal (e_status e4)" using w4(4) by (simp add: terminal_def)
  note announced = announceSuccess_done [OF w4(1-3) this assms(5) j, of cfg res]
  then obtain es where es: "hist (after ?A w4) = hist w4 @ es" "success_routes cfg (filter is_publish es)" by blast
  moreover have "hist w4 = hist w @ [ReadClock, ReadClock] @ calls (Complete led i build_stage b) w2 @ calls ?L w3"
    by (simp add: w4_def w3_def w2_def ledger_calls)
  ultimately have "success_routes cfg (filter is_publish (calls ?m w))"
    by (simp add: calls_def [of ?m] f ledger_quiet)
  then show ?thesis
    using announced v w4(4) by (auto simp: f)
qed

lemma build_in_settles:
  assumes "serving w" and "pg_text i" and "pg_wf w" and "pg_view w i = Some old" and "se_DeploymentID event = i"
  shows "settles cfg i (build_in (with_ledger cfg led) event d) w"
proof -
  let ?m = "build_in (with_ledger cfg led) event d"
  let ?dir = "filepath_Join [d, sanitizeName (p_ServiceAlias (se_Payload event))]"
  let ?C = "cloneRepository cfg (se_Payload event) ?dir" and ?L = "lease_ticks (with_ledger cfg led) i"
  let ?B = "BuildAndPush (NewCommandBuilder cfg) \<lparr> q_ProjectID = se_ProjectID event, q_ServiceID = se_ServiceID event,
    q_RepositoryDir = ?dir, q_WorkDir = d \<rparr>"
  define w1 where "w1 = after ?C w"
  define w2 where "w2 = after ?B w1"
  define w3 where "w3 = after ?L w2"
  have h: "hist w1 = hist w @ calls ?C w" "hist w2 = hist w1 @ calls ?B w1" "hist w3 = hist w2 @ calls ?L w2"
    unfolding w1_def w2_def w3_def
    by (rule extending_hist framed_extending framed_cloneRepository framed_NewCommandBuilder ledger_calls)+
  have "rows w1 = rows w" "rows w2 = rows w1"
    using abidesD [OF rows_clone] abidesD [OF rows_build] by (simp_all add: same_rows_def w1_def w2_def)
  then have w1: "serving w1" "pg_wf w1" "pg_view w1 i = Some old" and w2: "serving w2" "pg_wf w2" "pg_view w2 i = Some old"
    using assms wf_rows [of w1 w] wf_rows [of w2 w1] by (simp_all add: w1_def w2_def serving_parts)
  obtain e where w3: "serving w3" "pg_wf w3" "pg_view w3 i = Some e"
    using w2(1) ticks_hold [OF w2(2,3), of cfg] by (auto simp: w3_def ledger_serving)
  have before: "filter is_publish (calls n w) = filter is_publish (calls m' u)"
    if "hist (after n w) = hist u @ calls m' u @ more" "u \<in> {w1, w3}" "filter is_publish more = []"
    for n :: "(deliveryAction \<times> goerr option) M" and m' :: "(deliveryAction \<times> goerr option) M" and u more
    using that h by (auto simp: calls_def [of n] quiet_parts ledger_quiet)
  show ?thesis
  proof (cases "value_of ?C w")
    case (Some err)
    let ?F = "completeFailure (with_ledger cfg led) event no_result err"
    have f: "value_of ?m w = value_of ?F w1" "after ?m w = after ?F w1"
      using Some by (simp_all add: build_in_def run_steps Let_def w1_def)
    have "hist (after ?F w1) = hist w1 @ calls ?F w1"
      by (rule extending_hist [OF framed_extending [OF parts.completeFailure_framed]])
    then have "filter is_publish (calls ?m w) = filter is_publish (calls ?F w1)"
      by (intro before [where more = "[]"]) (simp_all add: f)
    then show ?thesis
      using completeFailure_settles [OF w1(1) assms(2) w1(2,3) assms(5), of cfg no_result err]
      by (simp add: settles_def f)
  next
    case None
    obtain r err where r: "value_of ?B w1 = (r, err)" by fastforce
    show ?thesis
    proof (cases err)
      case (Some cause)
      let ?F = "completeFailure (with_ledger cfg led) event no_result cause"
      let ?w4 = "after ?F w3"
      note failed = completeFailure_done [OF w3(1) assms(2) w3(2,3) assms(5), of cfg no_result cause]
      then obtain e' doc where e': "pg_wf ?w4" "pg_view ?w4 i = Some e'" "e_status e' = Broken (Some doc)" by blast
      obtain e5 where e5: "pg_view (after ?L ?w4) i = Some e5" "e_status e5 = Broken (Some doc)"
        using ticks_hold [OF e'(1,2), of cfg] e'(3) by (auto simp: terminal_def)
      have f: "after ?m w = after ?L ?w4" and v: "value_of ?m w = (actionAck, Some cause)"
        using None r Some failed by (simp_all add: build_in_def run_steps Let_def assms(5) w1_def w2_def w3_def)
      have "hist (after ?L ?w4) = hist w3 @ calls ?F w3 @ calls ?L ?w4"
        using extending_hist [OF framed_extending [OF parts.completeFailure_framed], of cfg event no_result cause w3]
        by (simp add: ledger_calls)
      then have "filter is_publish (calls ?m w) = filter is_publish (calls ?F w3)"
        by (intro before [where more = "calls ?L ?w4"]) (simp_all add: f ledger_quiet)
      then show ?thesis
        using failed e5 v by (auto simp: settles_def settled_def reported_def f)
    next
      case no_error: None
      let ?S = "completeSuccess (with_ledger cfg led) event r"
      have f: "value_of ?m w = value_of ?S w3" "after ?m w = after ?S w3"
        using None r no_error by (simp_all add: build_in_def run_steps Let_def assms(5) w1_def w2_def w3_def)
      have "hist (after ?S w3) = hist w3 @ calls ?S w3"
        by (rule extending_hist [OF framed_extending [OF parts.completeSuccess_framed]])
      then have "filter is_publish (calls ?m w) = filter is_publish (calls ?S w3)"
        by (intro before [where more = "[]"]) (simp_all add: f)
      then show ?thesis
        using completeSuccess_done [OF w3(1) assms(2) w3(2,3) assms(5), of cfg r]
        by (auto simp: settles_def settled_def reported_def f)
    qed
  qed
qed

lemma handler_settles:
  assumes "serving w" and "pg_text i" and "pg_wf w" and "pg_view w i = Some old" and "se_DeploymentID event = i"
  shows "\<exists>m a es. accepted a
    \<and> filter is_publish (calls (handleClaimedBuildEvent (with_ledger cfg led) event) w)
        = Publish (DeploymentExchange cfg) (DeploymentBuildStartedRoutingKey cfg) False m a # es
    \<and> (\<exists>e. pg_view (after (handleClaimedBuildEvent (with_ledger cfg led) event) w) i = Some e
        \<and> reported (value_of (handleClaimedBuildEvent (with_ledger cfg led) event) w) (e_status e)
        \<and> settled cfg (e_status e) es)"
proof -
  let ?i = i and ?m = "handleClaimedBuildEvent (with_ledger cfg led) event"
  let ?x = "Deployment (newBuildStartedDeploymentEvent (clock (env w) (hist w)) event)"
  let ?S = "publishJSONEvent (DeploymentExchange cfg) (DeploymentBuildStartedRoutingKey cfg) ?x"
  define w1 where "w1 = w\<lparr>hist := hist w @ [ReadClock]\<rparr>"
  define w2 where "w2 = after ?S w1"
  define w3 where "w3 = w2\<lparr>hist := hist w2 @ [MkdirTemp ''shiply-build-*'']\<rparr>"
  obtain j where j: "outbound_json ?x = Inr j"
    using serving_events(1) [OF assms(1)] by blast
  have s: "value_of ?S w1 = None"
    using serving_publish [OF _ j] assms(1) by (simp add: w1_def)
  obtain p a where pub: "calls ?S w1 = [ReadClock, ReadClock, Publish (DeploymentExchange cfg)
      (DeploymentBuildStartedRoutingKey cfg) False p a]" "accepted a"
    using publish_confirmed [OF s] by blast
  have h: "hist w3 = hist w @ [ReadClock] @ calls ?S w1 @ [MkdirTemp ''shiply-build-*'']"
    using extending_hist [OF extending_publish] by (simp add: w3_def w2_def w1_def)
  have w3: "serving w3" "pg_wf w3" "pg_view w3 ?i = Some old"
    using assms wf_rows [of w3 w] by (simp_all add: w3_def w2_def w1_def publish_serving)
  have inner: ?thesis
    if n: "settles cfg ?i n w3" "value_of ?m w = value_of n w3" "hist (after ?m w) = hist w3 @ calls n w3 @ more"
      "filter is_publish more = []" "rows (after ?m w) = rows (after n w3)" for n :: "(deliveryAction \<times> goerr option) M" and more
  proof -
    have "filter is_publish (calls ?m w) = Publish (DeploymentExchange cfg)
        (DeploymentBuildStartedRoutingKey cfg) False p a # filter is_publish (calls n w3)"
      using n(3,4) h by (simp add: calls_def [of ?m] pub(1))
    then show ?thesis
      using n(1,2) pub(2) wf_rows(2) [OF n(5)] by (auto simp: settles_def)
  qed
  show ?thesis
  proof (cases "mkdir_temp (env w2) (hist w2) ''shiply-build-*''")
    case (Inl t)
    let ?F = "completeFailure (with_ledger cfg led) event no_result (Wrapped ''create workdir: '' (ErrText t))"
    have "run_state ?m w = run_state ?F w3"
      using s Inl
      by (simp add: handleClaimedBuildEvent_def run_state_value_after [of ?S] w1_def w2_def w3_def)
    then have f: "value_of ?m w = value_of ?F w3" "after ?m w = after ?F w3"
      by (simp_all add: value_of_def after_def)
    show ?thesis
      by (rule inner [OF completeFailure_settles [OF w3(1) assms(2) w3(2,3) assms(5)], where more = "[]"])
        (simp_all add: f extending_hist [OF framed_extending [OF parts.completeFailure_framed]])
  next
    case (Inr d)
    let ?b = "build_in (with_ledger cfg led) event d"
    have f: "value_of ?m w = value_of ?b w3"
      "after ?m w = (after ?b w3)\<lparr>hist := hist (after ?b w3) @ [Fs (RemoveAll d)]\<rparr>"
      using s Inr
      by (simp_all add: handleClaimedBuildEvent_def run_steps w1_def w2_def w3_def after_def [of "mkdir_temp_do s" for s]
          value_of_def [of "mkdir_temp_do s" for s] after_def [of "fs_do g" for g])
    show ?thesis
      by (rule inner [OF build_in_settles [OF w3(1) assms(2) w3(2,3) assms(5)], where more = "[Fs (RemoveAll d)]"])
        (simp_all add: f extending_hist [OF framed_extending [OF parts.build_in_framed]])
  qed
qed

end

text \<open>
  A worker that has the ledger to itself is the special case without interference.
\<close>

lemma claimed_build_settles:
  assumes "ready (env w)" and "pub_set w" and "pg_wf w" and "pg_text (se_DeploymentID event)"
    and "pg_view w (se_DeploymentID event) = Some old"
  shows "let m = handleClaimedBuildEvent (wired cfg) event
    in \<exists>p a es e. accepted a
      \<and> filter is_publish (calls m w)
          = Publish (DeploymentExchange cfg) (DeploymentBuildStartedRoutingKey cfg) False p a # es
      \<and> pg_view (after m w) (se_DeploymentID event) = Some e \<and> settled cfg (e_status e) es
      \<and> reported (value_of m w) (e_status e)"
  using own.handler_settles [OF _ assms(4,3,5) refl, of cfg] assms(1,2)
  by (fastforce simp: serving_def Let_def with_postgres)


section \<open>A concrete instance\<close>

text \<open>A world in which every process fails, whose deployment is being built.\<close>

definition broken_world :: world where
  "broken_world = running_world\<lparr>env := calm\<lparr>clock := (\<lambda>h. 0), run_process := (\<lambda>h p. ([], Some ''exit status 1''))\<rparr>\<rparr>"

lemma year_zero: "json_time 0 \<noteq> None"
  by (simp add: json_time_def year_of_def Second_def) code_simp

lemma broken_ready:
  "ready (env broken_world)" "pub_set broken_world" "pg_wf broken_world" "pg_text (se_DeploymentID sample_event)"
  "pg_view broken_world (se_DeploymentID sample_event) = Some (row_entry running_row)"
  using running_wf sample_running year_zero
  by (simp_all add: ready_def broken_world_def pg_wf_def pg_view_row sample_event_def running_world_def)

text \<open>Other workers claim the same deployment, renew and count on it, and finish another one.\<close>

definition busy_neighbours :: interference where
  "busy_neighbours h = [OpClaim ''d1'' 9, OpRenew ''d1'' 5, OpFail ''d2'' zero_bundle, OpRetry ''d1'' ''r'', OpRelease ''d2'']"


end
