(* ===== verification/EndToEnd.thy ===== *)
theory EndToEnd
  imports Outcome
begin

text \<open>
  A request from its delivery to the recorded result, in an environment where nothing fails: the
  components together do what the service is for.
\<close>

section \<open>An environment where nothing fails\<close>

text \<open>
  The registry may or may not hold the image, the repository may or may not have a Dockerfile; git
  prints a commit, and the clock stays within the years that JSON can express.
\<close>

definition asks_registry :: "process \<Rightarrow> bool" where
  "asks_registry p \<longleftrightarrow> x_Name p = ''docker'' \<and> take 2 (x_Args p) = [''manifest'', ''inspect'']"

definition obliging :: "environment \<Rightarrow> bool" where
  "obliging v \<longleftrightarrow>
     ready v \<and> (\<forall>h t. acknowledge v h t = None)
     \<and> (\<forall>h p. \<exists>d. mkdir_temp v h p = Inr d) \<and> (\<forall>h f. fs_error v h f = None)
     \<and> (\<forall>h p. \<not> asks_registry p \<longrightarrow> snd (run_process v h p) = None)
     \<and> (\<forall>h p. x_Args p = [''rev-parse'', ''HEAD''] \<longrightarrow>
          TrimSpace (fst (run_process v h p)) \<noteq> [] \<and> list_all is_lower_hex (TrimSpace (fst (run_process v h p))))"

definition fine :: "world \<Rightarrow> bool" where
  "fine w \<longleftrightarrow> obliging (env w) \<and> pub_set w"

lemma framed_fine: "framed P m \<Longrightarrow> fine (after m w) = fine w"
  using framedD(3) by (fastforce simp: fine_def same_consumer_def)

lemma fine_step [simp]: "fine (w\<lparr>hist := h\<rparr>) = fine w" "fine (w\<lparr>rows := tab\<rparr>) = fine w" "fine (w\<lparr>jobs := js\<rparr>) = fine w"
  by (simp_all add: fine_def)

lemma fine_serving: "fine w \<Longrightarrow> serving w"
  by (simp add: fine_def obliging_def serving_def)

section \<open>Cloning and building\<close>

text \<open>A request whose repository is cloned without a token.\<close>

definition public_source :: "ApplicationBuildRequestedPayload \<Rightarrow> bool" where
  "public_source payload \<longleftrightarrow> p_RepositoryProvider payload \<noteq> ''GITHUB_APP'' \<or> \<not> p_PrivateRepository payload"

lemma fine_process:
  "fine w \<Longrightarrow> \<not> asks_registry p \<Longrightarrow> snd (run_process (env w) h p) = None"
  by (simp add: fine_def obliging_def)

lemma value_runGitClone:
  "value_of (runGitClone u b d []) w = None \<longleftrightarrow>
     snd (run_process (env w) (hist w) \<lparr>x_Name = ''git'', x_Args = clone_args u b d, x_Dir = [],
       x_Env = environ (env w), x_Stdin = []\<rparr>) = None"
  by (auto simp: runGitClone_def mergeCommandEnv_def value_of_def split: option.splits prod.splits)

lemma fine_clone:
  assumes "fine w" and "public_source payload" and "validateBuildPayload payload = None"
  shows "value_of (cloneRepository cfg payload d) w = None"
    and "rows (after (cloneRepository cfg payload d) w) = rows w"
proof -
  define u where "u = (if p_CloneURL payload = [] then p_RepositoryURL payload else p_CloneURL payload)"
  have "cloneRepository cfg payload d = runGitClone u (p_Branch payload) d []"
    using assms(2,3)
    by (auto simp: cloneRepository_def public_source_def Let_def u_def validateBuildPayload_def split: if_splits)
  moreover have "value_of (runGitClone u b d []) w = None" for b
    unfolding value_runGitClone by (rule fine_process [OF assms(1)]) (simp add: asks_registry_def)
  ultimately show "value_of (cloneRepository cfg payload d) w = None"
    "rows (after (cloneRepository cfg payload d) w) = rows w"
    by (simp_all add: run_runGitClone)
qed

definition process_of :: "world \<Rightarrow> commandSpec \<Rightarrow> process" where
  "process_of w spec = \<lparr> x_Name = c_Name spec, x_Args = c_Args spec, x_Dir = c_Dir spec,
     x_Env = environ (env w) @ map assignment (c_Env spec), x_Stdin = c_Stdin spec \<rparr>"

lemma fine_runCommand:
  assumes "fine w" and "\<not> asks_registry (process_of w spec)"
  shows "value_of (runCommand spec) w = Inr (TrimSpace (fst (run_process (env w) (hist w) (process_of w spec))))"
  using fine_process [OF assms]
  by (auto simp: runCommand_def mergeCommandEnv_def value_of_def Let_def process_of_def split: option.splits)

lemma runCommand_fine: "fine (after (runCommand spec) w) = fine w"
  by (rule framed_fine [OF framed_runCommand])

lemma fine_resolve:
  assumes "fine w"
  shows "\<exists>sha. value_of (resolveCommitSHA (NewCommandBuilder cfg) d) w = Inr sha \<and> TrimSpace sha \<noteq> []"
proof -
  let ?p = "process_of w (rev_parse_command d)"
  define s where "s = TrimSpace (fst (run_process (env w) (hist w) ?p))"
  have "x_Args ?p = [''rev-parse'', ''HEAD'']" "\<not> asks_registry ?p"
    by (simp_all add: process_of_def rev_parse_command_def plain_command_def asks_registry_def)
  then have r: "value_of (runCommand (rev_parse_command d)) w = Inr s" "s \<noteq> []" "list_all is_lower_hex s"
    using fine_runCommand [OF assms] assms unfolding s_def fine_def obliging_def by auto
  have "TrimSpace s = s"
    by (rule TrimSpace_idle)
      (use r(3) in \<open>auto simp: list_all_iff is_lower_hex_def is_ascii_def ascii_space_def is_digit_def\<close>)
  then show ?thesis
    using r by (simp add: resolveCommitSHA_def run_steps Let_def)
qed

text \<open>The registry settings are usable when they name a host, a user and a password.\<close>

definition registry_usable :: "RegistryConfig \<Rightarrow> bool" where
  "registry_usable reg \<longleftrightarrow> validateRegistryConfig reg = None \<and> normalizeRegistryHost (Host reg) \<noteq> []"

lemma not_asking:
  "\<not> asks_registry (process_of w (login_command reg e))" "\<not> asks_registry (process_of w (nixpacks_command d t))"
  "\<not> asks_registry (process_of w (push_command t e))"
  by (simp_all add: process_of_def login_command_def nixpacks_command_def push_command_def plain_command_def
      asks_registry_def)

lemma fine_build:
  assumes "fine w" and "registry_usable (Registry cfg)"
  shows "\<exists>r. value_of (BuildAndPush (NewCommandBuilder cfg) q) w = (r, None)"
proof -
  let ?b = "NewCommandBuilder cfg"
  let ?R = "resolveCommitSHA ?b (q_RepositoryDir q)" and ?D = "registryDockerEnv ?b (q_WorkDir q)"
  have keep: "fine (after m w') = fine w'" if "framed build_call m" for m :: "'z M" and w'
    by (rule framed_fine [OF that])
  obtain sha where sha: "value_of ?R w = Inr sha" "TrimSpace sha \<noteq> []"
    using fine_resolve [OF assms(1)] by blast
  have "shortCommitSHA sha \<noteq> []"
    using sha(2) by (auto simp: shortCommitSHA_def Let_def)
  then obtain t where t: "buildImageReference (Registry cfg) (q_ProjectID q) (q_ServiceID q) sha = Inr t"
    using assms(2) by (simp add: buildImageReference_def registry_usable_def Let_def)
  have login: "value_of ?D u = Inr [(''DOCKER_CONFIG'', filepath_Join [q_WorkDir q, ''docker-config''])]" if "fine u" for u
  proof -
    have "fs_error (env u) (hist u) f = None" for f
      using that by (simp add: fine_def obliging_def)
    then show ?thesis
      using assms(2) fine_runCommand [OF _ not_asking(1)] that
      by (simp add: registryDockerEnv_def registry_usable_def run_steps Let_def
          value_of_def [of "fs_do f" for f] after_def [of "fs_do f" for f])
  qed
  have build: "\<exists>r'. value_of (build_or_reuse ?b q res t e) u = (r', None)" if "fine u" for u res e
  proof -
    have "fine (after (imageExists ?b t e) u)"
      using that by (simp add: imageExists_def run_steps runCommand_fine)
    then show ?thesis
      using fine_runCommand [OF _ not_asking(2)] fine_runCommand [OF _ not_asking(3)] runCommand_fine
      by (auto simp: build_or_reuse_def buildImage_def pushImage_def run_steps Let_def)
  qed
  have "fine (after ?R w)"
    using assms(1) by (auto simp: resolveCommitSHA_def run_steps runCommand_fine Let_def split: sum.splits)
  moreover have "fine (after ?D u) = fine u" for u
    by (auto simp: registryDockerEnv_def run_steps runCommand_fine Let_def
        after_def [of "fs_do f" for f] split: option.splits sum.splits)
  ultimately show ?thesis
    using sha t login build by (auto simp: BuildAndPush_def run_steps Let_def)
qed

section \<open>The worker's turn\<close>

lemma fine_parts:
  "fine (after (cloneRepository cfg payload d) w) = fine w"
  "fine (after (BuildAndPush (NewCommandBuilder cfg) q) w) = fine w"
  by (rule framed_fine [OF framed_cloneRepository] framed_fine [OF framed_NewCommandBuilder])+

lemma build_in_done:
  assumes "fine w" and "pg_text (se_DeploymentID event)" and "pg_wf w" and "pg_view w (se_DeploymentID event) = Some old"
    and "public_source (se_Payload event)" and "validateBuildPayload (se_Payload event) = None"
    and "registry_usable (Registry cfg)"
  shows "value_of (build_in (wired cfg) event d) w = (actionAck, None)
    \<and> success_routes cfg (filter is_publish (calls (build_in (wired cfg) event d) w))
    \<and> (\<exists>e doc. pg_view (after (build_in (wired cfg) event d) w) (se_DeploymentID event) = Some e
          \<and> e_status e = Done (Some doc))"
proof -
  let ?i = "se_DeploymentID event"
  let ?dir = "filepath_Join [d, sanitizeName (p_ServiceAlias (se_Payload event))]"
  let ?C = "cloneRepository cfg (se_Payload event) ?dir" and ?L = "lease_ticks (wired cfg) ?i"
  let ?B = "BuildAndPush (NewCommandBuilder cfg) \<lparr> q_ProjectID = se_ProjectID event, q_ServiceID = se_ServiceID event,
    q_RepositoryDir = ?dir, q_WorkDir = d \<rparr>"
  define w1 where "w1 = after ?C w"
  define w2 where "w2 = after ?B w1"
  define w3 where "w3 = after ?L w2"
  have c: "value_of ?C w = None" "rows w1 = rows w" "fine w1"
    using fine_clone [OF assms(1,5,6)] assms(1) by (simp_all add: w1_def fine_parts)
  obtain r where r: "value_of ?B w1 = (r, None)"
    using fine_build [OF c(3) assms(7)] by blast
  have "rows w2 = rows w1"
    using abidesD [OF rows_build] by (simp add: same_rows_def w2_def)
  then have w2: "fine w2" "pg_wf w2" "pg_view w2 ?i = Some old"
    using c assms(3,4) by (simp_all add: w2_def fine_parts pg_wf_def pg_view_row)
  obtain e where w3: "fine w3" "pg_wf w3" "pg_view w3 ?i = Some e"
    using w2(1) own.ticks_hold [OF w2(2,3), of cfg]
    by (auto simp: w3_def framed_fine [OF wired.lease_ticks_framed] with_postgres)
  let ?S = "completeSuccess (wired cfg) event r"
  have v: "value_of (build_in (wired cfg) event d) w = value_of ?S w3"
    and f: "after (build_in (wired cfg) event d) w = after ?S w3"
    using c(1) r by (simp_all add: build_in_def run_steps Let_def w1_def w2_def w3_def)
  have "hist (after ?S w3) = hist w @ calls ?C w @ calls ?B w1 @ calls ?L w2 @ calls ?S w3"
    using extending_hist [OF framed_extending [OF framed_cloneRepository], of cfg "se_Payload event" ?dir w]
      extending_hist [OF framed_extending [OF framed_NewCommandBuilder], of cfg _ w1]
      extending_hist [OF extending_ticks, of cfg ?i w2]
      extending_hist [OF framed_extending [OF wired.completeSuccess_framed], of cfg event r w3]
    by (simp add: w1_def w2_def w3_def)
  then have "filter is_publish (calls (build_in (wired cfg) event d) w) = filter is_publish (calls ?S w3)"
    by (simp add: calls_def [of "build_in (wired cfg) event d"] f quiet_parts ticks_publish_nothing)
  then show ?thesis
    using own.completeSuccess_done [OF fine_serving [OF w3(1)] assms(2) w3(2,3) refl, of cfg r]
    by (simp add: v f with_postgres)
qed

lemma handler_done:
  assumes "fine w" and "pg_text (se_DeploymentID event)" and "pg_wf w" and "pg_view w (se_DeploymentID event) = Some old"
    and "public_source (se_Payload event)" and "validateBuildPayload (se_Payload event) = None"
    and "registry_usable (Registry cfg)"
  shows "value_of (handleClaimedBuildEvent (wired cfg) event) w = (actionAck, None)
    \<and> (\<exists>m a es. accepted a \<and> success_routes cfg es
          \<and> filter is_publish (calls (handleClaimedBuildEvent (wired cfg) event) w)
              = Publish (DeploymentExchange cfg) (DeploymentBuildStartedRoutingKey cfg) False m a # es)
    \<and> (\<exists>e doc. pg_view (after (handleClaimedBuildEvent (wired cfg) event) w) (se_DeploymentID event) = Some e
          \<and> e_status e = Done (Some doc))"
proof -
  let ?m = "handleClaimedBuildEvent (wired cfg) event"
  let ?x = "Deployment (newBuildStartedDeploymentEvent (clock (env w) (hist w)) event)"
  let ?S = "publishJSONEvent (DeploymentExchange cfg) (DeploymentBuildStartedRoutingKey cfg) ?x"
  define w1 where "w1 = w\<lparr>hist := hist w @ [ReadClock]\<rparr>"
  define w2 where "w2 = after ?S w1"
  define w3 where "w3 = w2\<lparr>hist := hist w2 @ [MkdirTemp ''shiply-build-*'']\<rparr>"
  obtain j where j: "outbound_json ?x = Inr j"
    using serving_events(1) [OF fine_serving [OF assms(1)]] by blast
  have s: "value_of ?S w1 = None"
    using serving_publish [OF _ j] fine_serving [OF assms(1)] by (simp add: w1_def)
  obtain m a where pub: "calls ?S w1 = [ReadClock, ReadClock, Publish (DeploymentExchange cfg)
      (DeploymentBuildStartedRoutingKey cfg) False m a]" "accepted a"
    using publish_confirmed [OF s] by blast
  have w2: "fine w2" "pg_wf w2" "pg_view w2 (se_DeploymentID event) = Some old"
    using assms by (simp_all add: w2_def w1_def framed_fine [OF framed_publishJSONEvent] publishJSONEvent_view pg_wf_def pg_view_row)
  then obtain d where d: "mkdir_temp (env w2) (hist w2) ''shiply-build-*'' = Inr d"
    unfolding fine_def obliging_def by blast
  have w3: "fine w3" "pg_wf w3" "pg_view w3 (se_DeploymentID event) = Some old"
    using w2 by (simp_all add: w3_def pg_wf_def pg_view_row)
  let ?b = "build_in (wired cfg) event d"
  note built = build_in_done [OF w3(1) assms(2) w3(2,3) assms(5-7), of d]
  have v: "value_of ?m w = value_of ?b w3"
    and f: "after ?m w = (after ?b w3)\<lparr>hist := hist (after ?b w3) @ [Fs (RemoveAll d)]\<rparr>"
    using s d
    by (simp_all add: handleClaimedBuildEvent_def run_steps w1_def w2_def w3_def after_def [of "mkdir_temp_do s" for s]
        value_of_def [of "mkdir_temp_do s" for s] after_def [of "fs_do g" for g])
  have "hist (after ?b w3) = hist w3 @ calls ?b w3"
    by (rule extending_hist [OF framed_extending [OF wired.build_in_framed]])
  moreover have "hist w2 = hist w1 @ calls ?S w1"
    unfolding w2_def by (rule extending_hist [OF extending_publish])
  ultimately have "calls ?m w = [ReadClock] @ calls ?S w1 @ [MkdirTemp ''shiply-build-*''] @ calls ?b w3 @ [Fs (RemoveAll d)]"
    by (simp add: calls_def [of ?m] f w3_def w1_def)
  then have "filter is_publish (calls ?m w) = Publish (DeploymentExchange cfg)
      (DeploymentBuildStartedRoutingKey cfg) False m a # filter is_publish (calls ?b w3)"
    by (simp add: pub)
  moreover have "pg_view (after ?m w) i = pg_view (after ?b w3) i" for i
    by (simp add: f pg_view_row)
  ultimately show ?thesis
    using built pub(2) by (simp add: v)
qed

section \<open>From the delivery to the result\<close>

lemma fine_claim:
  assumes "fine w" and "pg_text i" and "claimable (tx_clock w) (rows w (i, build_stage))" and "pg_wf w"
  shows "\<exists>r. value_of (pg_Claim i build_stage d) w = Inr (ClaimAcquired, r)"
    and "pg_wf (after (pg_Claim i build_stage d) w)" and "\<exists>e. pg_view (after (pg_Claim i build_stage d) w) i = Some e"
proof -
  have none: "sql_fault (env w) = (\<lambda>h s. None)"
    using assms(1) by (auto simp: fine_def obliging_def ready_def fun_eq_iff)
  show c: "\<exists>r. value_of (pg_Claim i build_stage d) w = Inr (ClaimAcquired, r)"
    by (rule pg_claim_succeeds [OF none assms(2,3)])
  show "pg_wf (after (pg_Claim i build_stage d) w)"
    by (rule pg_wf_claim [OF assms(4)])
  obtain r where r: "value_of (Claim PostgresStageLedger i build_stage d) w = Inr (ClaimAcquired, r)"
    using c by (auto simp: postgres_fields)
  show "\<exists>e. pg_view (after (pg_Claim i build_stage d) w) i = Some e"
    using pg.claim_ok [OF r refl] by (auto simp: postgres_fields)
qed

lemma run_first_job:
  assumes "d_tag msg = Some t" and "acknowledge (env w) (hist w) t = None" and "jobs w = []"
  shows "after (early_ack c msg event) w = w\<lparr>hist := hist w @ [Ack t True], jobs := [job_of msg event]\<rparr>"
  using assms by (simp add: early_ack_def after_def run_ack enqueue_def buildConcurrency_def)


section \<open>A concrete instance\<close>

definition steady_world :: world where
  "steady_world = calm_world\<lparr>env := calm\<lparr>clock := (\<lambda>h. 0)\<rparr>\<rparr>"

definition sample_config :: Config where
  "sample_config = loadConfig (\<lambda>_. ''r'')"

lemma steady_obliging: "obliging (env steady_world)"
proof -
  have "TrimSpace ''0123456789abcdef'' = ''0123456789abcdef''"
    by (rule TrimSpace_idle; simp add: ascii_literals byte_def ascii_space_def)
  then show ?thesis
    using year_zero by (simp add: obliging_def ready_def steady_world_def is_lower_hex_def is_digit_def byte_def)
qed

lemma sample_registry: "registry_usable (Registry sample_config)"
proof -
  have "TrimSpace ''r'' = ''r''"
    by (rule TrimSpace_idle; simp add: ascii_literals byte_def ascii_space_def)
  moreover have "TrimSuffix (ToLower ''r'') ''/'' \<noteq> []"
    by code_simp
  ultimately show ?thesis
    by (simp add: registry_usable_def validateRegistryConfig_def normalizeRegistryHost_def sample_config_def
        loadConfig_def)
qed


end
