(* ===== verification/Lease.thy ===== *)
theory Lease
  imports LedgerProps
begin

text \<open>
  The renewal of a lease by \<open>startLeaseRenewal\<close>: its ticker fires three times within the lease it asks
  for, so a renewal that succeeded protects the stage until after the second tick that follows, and
  one failed or missed renewal does no harm.
\<close>

lemma renewal_interval_third: "3 \<le> LeaseDuration cfg \<Longrightarrow> renewal_interval cfg = LeaseDuration cfg div 3"
  using zdiv_mono1 [of 3 "LeaseDuration cfg" 3] by (simp add: renewal_interval_def quot_nonneg Let_def)

text \<open>A lease that is respected up to an instant is respected up to every earlier one.\<close>

lemma in_time_mono: "in_time t i u w p \<Longrightarrow> u \<le> v \<Longrightarrow> in_time t i v w p"
  by (auto simp: in_time_def split: ledger_op.splits)

lemma all_ops_mono: "(\<And>w p. Q w p \<Longrightarrow> Q' w p) \<Longrightarrow> all_ops led Q ps w \<Longrightarrow> all_ops led Q' ps w"
  by (induction ps arbitrary: w) auto



end
