(* ===== verification/Fleet.thy ===== *)
theory Fleet
  imports Outcome
begin

text \<open>
  Several workers over one ledger. Each worker is the service of theory Connection with its own
  connection, queue and environment; the ledger's table and the history of all calls are shared, and a
  step of any worker reads and leaves them. A worker may also be killed and started again, which loses
  its queue. Deliveries are arbitrary, so every duplicate and every redelivery is covered.
\<close>

section \<open>The fleet\<close>

record fleet =
  f_hist :: "call list"
  f_rows :: table
  f_workers :: "loop_state list"

text \<open>A worker as it sees the shared part, and the fleet after it made a step.\<close>

definition seeing :: "fleet \<Rightarrow> nat \<Rightarrow> loop_state" where
  "seeing F k = (let s = f_workers F ! k in s\<lparr>l_world := (l_world s)\<lparr>hist := f_hist F, rows := f_rows F\<rparr>\<rparr>)"

definition leaving :: "fleet \<Rightarrow> nat \<Rightarrow> loop_state \<Rightarrow> fleet" where
  "leaving F k s = \<lparr>f_hist = hist (l_world s), f_rows = rows (l_world s), f_workers = (f_workers F)[k := s]\<rparr>"

text \<open>What is left of a worker's world when its process is started again.\<close>

definition rebooted :: "world \<Rightarrow> world" where
  "rebooted w = w\<lparr>pub_set := False, ch_set := False, conn_set := False, connectedAt := 0,
     disconnectedAt := 0, jobs := [], parked := []\<rparr>"

inductive fleet_step :: "BuildConsumer \<Rightarrow> action \<Rightarrow> fleet \<Rightarrow> fleet \<Rightarrow> bool" for c where
  acts: "k < length (f_workers F) \<Longrightarrow> start_step c a (seeing F k) s \<Longrightarrow> fleet_step c a F (leaving F k s)"
| restarts: "k < length (f_workers F) \<Longrightarrow>
    fleet_step c Internal F (leaving F k (start_state (rebooted (l_world (seeing F k)))))"

inductive fleet_run :: "BuildConsumer \<Rightarrow> fleet \<Rightarrow> action list \<Rightarrow> fleet \<Rightarrow> bool" for c F where
  none: "fleet_run c F [] F"
| more: "fleet_run c F as G \<Longrightarrow> fleet_step c a G H \<Longrightarrow> fleet_run c F (as @ [a]) H"

definition fleet_start :: "fleet \<Rightarrow> bool" where
  "fleet_start F \<longleftrightarrow> table_ok (f_rows F)
     \<and> (\<forall>s \<in> set (f_workers F). \<exists>w. s = start_state w \<and> fresh_world w)"

text \<open>The builds of a deployment that a run begins, and the jobs for it that are queued or waiting.\<close>

definition builds_of :: "string \<Rightarrow> action \<Rightarrow> bool" where
  "builds_of i a \<longleftrightarrow> (case a of Build job \<Rightarrow> se_DeploymentID (j_event job) = i | _ \<Rightarrow> False)"

definition job_for :: "string \<Rightarrow> buildJob \<Rightarrow> bool" where
  "job_for i job \<longleftrightarrow> se_DeploymentID (j_event job) = i"

definition waiting_for :: "string \<Rightarrow> world \<Rightarrow> nat" where
  "waiting_for i w = size (filter_mset (job_for i) (queued w))"

definition pending :: "string \<Rightarrow> fleet \<Rightarrow> nat" where
  "pending i F = (\<Sum>s \<leftarrow> f_workers F. waiting_for i (l_world s))"

definition attempts :: "string \<Rightarrow> table \<Rightarrow> int" where
  "attempts i tab = (case table_view tab i of None \<Rightarrow> 0 | Some e \<Rightarrow> e_attempt e)"

section \<open>What a step does to the ledger\<close>

text \<open>
  A computation that works for deployment \<open>i\<close>: the table stays well formed, no counter falls, no row
  disappears, and the rows of other deployments stay as they are.
\<close>

definition tends :: "string \<Rightarrow> world \<Rightarrow> world \<Rightarrow> bool" where
  "tends i w w' \<longleftrightarrow> (pg_wf w \<longrightarrow> pg_wf w'
     \<and> (\<forall>j e. pg_view w j = Some e \<longrightarrow> (\<exists>e'. pg_view w' j = Some e' \<and> e_attempt e \<le> e_attempt e')))
     \<and> (\<forall>j. j \<noteq> i \<longrightarrow> pg_view w' j = pg_view w j)"

lemma tends_reflp: "reflp (tends i)" and tends_transp: "transp (tends i)"
proof -
  show "reflp (tends i)" by (auto simp: reflp_def tends_def)
  show "transp (tends i)"
  proof (rule transpI)
    fix u v w
    assume a: "tends i u v" "tends i v w"
    show "tends i u w"
      unfolding tends_def
    proof (intro conjI impI allI)
      fix j e
      assume u: "pg_wf u"
      then have v: "pg_wf v" using a(1) by (simp add: tends_def)
      then show "pg_wf w" using a(2) by (simp add: tends_def)
      assume "pg_view u j = Some e"
      then obtain e1 where e1: "pg_view v j = Some e1" "e_attempt e \<le> e_attempt e1"
        using a(1) u unfolding tends_def by blast
      then obtain e2 where "pg_view w j = Some e2" "e_attempt e1 \<le> e_attempt e2"
        using a(2) v unfolding tends_def by blast
      then show "\<exists>e'. pg_view w j = Some e' \<and> e_attempt e \<le> e_attempt e'"
        using e1(2) by auto
    qed (use a in \<open>auto simp: tends_def\<close>)
  qed
qed

lemmas tending_intros = abides_ret [OF tends_reflp] abides_gets [OF tends_reflp]
  abides_bind [OF tends_transp] abides_cases [where R = "tends i" for i]

lemma tends_same: "rows w' = rows w \<Longrightarrow> tends i w w'"
  by (auto simp: tends_def pg_wf_def pg_view_def)

lemma tending_op: "op_id p = i \<Longrightarrow> tends i w (after (run_op PostgresStageLedger p) w)"
  using pg.wf_op [of w p] pg.counters_op [of w _ _ p] pg.others [of _ p w]
  by (auto simp: tends_def) blast

lemma tending_ledger:
  "abides (tends i) (pg_Claim i build_stage d)" "abides (tends i) (pg_Renew i build_stage d)"
  "abides (tends i) (pg_Complete i build_stage b)" "abides (tends i) (pg_Fail i build_stage b)"
  "abides (tends i) (pg_Release i build_stage)" "abides (tends i) (pg_RecordRetry i build_stage r)"
  using tending_op [of "OpClaim i d"] tending_op [of "OpRenew i d"] tending_op [of "OpComplete i b"]
    tending_op [of "OpFail i b"] tending_op [of "OpRelease i"] tending_op [of "OpRetry i r"]
  by (simp_all add: abides_def pg.after_run_op postgres_fields)

lemma tending_rows: "abides same_rows m \<Longrightarrow> abides (tends i) m"
  by (simp add: abides_def same_rows_def tends_same)

lemma tending_calls:
  "abides (tends i) time_now" "abides (tends i) (emit e)" "abides (tends i) (ask f)" "abides (tends i) (fs_do g)"
  "abides (tends i) (mkdir_temp_do t)" "abides (tends i) (publishJSONEvent ex k x)"
  by (simp_all add: abides_def tends_same after_def [of "emit e" for e] after_def [of "ask f" for f]
      after_def [of "fs_do g" for g] after_def [of "mkdir_temp_do t" for t])

lemmas tending_parts = rows_clone [THEN tending_rows] rows_build [THEN tending_rows]

lemma tending_raw: "abides (tends i) (PublishRaw p ex k m)"
  unfolding PublishRaw_def publish_def by (intro tending_intros tending_calls)

lemma tending_ticks: "abides (tends i) (lease_ticks (wired cfg) i)"
proof -
  have "abides (tends i) (renew_times PostgresStageLedger i d n)" for d n
    by (induction n) (auto intro!: tending_intros tending_ledger simp: postgres_fields)
  then show ?thesis
    unfolding lease_ticks_def wired_fields option.case by (intro tending_intros tending_calls)
qed

lemma tending_failure: "abides (tends (se_DeploymentID event)) (completeFailure (wired cfg) event res e)"
  unfolding completeFailure_def announceFailure_def wired_fields option.case postgres_fields publishing_wired
  by (intro tending_intros tending_calls tending_ledger)

lemma tending_success: "abides (tends (se_DeploymentID event)) (completeSuccess (wired cfg) event res)"
  unfolding completeSuccess_def announceSuccess_def wired_fields option.case postgres_fields publishing_wired
  by (intro tending_intros tending_calls tending_ledger tending_ticks)

lemma tending_handler: "abides (tends (se_DeploymentID event)) (handleClaimedBuildEvent (wired cfg) event)"
  unfolding handleClaimedBuildEvent_def build_in_def wired_fields publishing_wired
  by (intro tending_intros tending_calls tending_failure tending_success tending_ticks tending_parts)

lemma tending_retry:
  assumes "decode_request (d_Body msg) = Some event"
  shows "abides (tends (se_DeploymentID event)) (scheduleRetry (wired cfg) msg cause counted)"
    and "abides (tends (se_DeploymentID event)) (copyToDLQ (wired cfg) msg e)"
proof -
  show "abides (tends (se_DeploymentID event)) (copyToDLQ (wired cfg) msg e)" for e
    unfolding copyToDLQ_def copyToDLQWithAttempt_def by (intro tending_intros tending_raw)
  show "abides (tends (se_DeploymentID event)) (scheduleRetry (wired cfg) msg cause counted)"
    unfolding scheduleRetry_def delay_retry_def retry_attempt_def releaseClaim_def emitRetrying_def emitExhausted_def
      copyToDLQWithAttempt_def send_retry_def wired_fields option.case assms postgres_fields publishing_wired
    by (intro tending_intros tending_calls tending_ledger tending_failure tending_raw)
qed

text \<open>A job carries the request its body decodes to.\<close>

definition honest :: "buildJob \<Rightarrow> bool" where
  "honest job \<longleftrightarrow> decode_request (j_body job) = Some (j_event job)"

lemma tending_build:
  assumes "honest job"
  shows "abides (tends (se_DeploymentID (j_event job))) (runBuildEvent (wired cfg) job)"
proof -
  have d: "decode_request (d_Body (job_delivery job)) = Some (j_event job)"
    using assms by (simp add: honest_def job_delivery_def)
  show ?thesis
    unfolding runBuildEvent_def executeBuildEvent_def
    by (intro tending_intros tending_handler tending_retry [OF d])
qed

section \<open>Accepting a delivery\<close>

lemma rows_steps:
  "abides same_rows (ack msg)" "abides same_rows (nack msg r)" "abides same_rows (publishJSONEvent ex k x)"
  "abides same_rows (PublishRaw p ex k m)" "abides same_rows (enqueue job)"
  by (simp_all add: abides_def same_rows_def ack_def nack_def PublishRaw_def publish_def enqueue_def after_def
      split: option.split)
    (simp add: publishJSONEvent_rows [unfolded after_def])

lemma rows_replay: "abides same_rows (replay (wired cfg) msg raw)"
  unfolding replay_def publishStored_def publishBundle_def publishing_wired by (intro row_intros rows_steps)

lemma rows_drop: "abides same_rows (settle (wired cfg) msg actionNackDrop e)"
  unfolding settle_def copyToDLQ_def copyToDLQWithAttempt_def by (auto intro!: row_intros rows_steps)

lemma rows_on_claim: "abides same_rows (on_claim cfg msg event r)"
  unfolding on_claim_def early_ack_def
  by (auto intro!: row_intros rows_steps rows_replay split: sum.splits ClaimDisposition.splits)

text \<open>The queue after a delivery that is not turned into a job.\<close>

definition same_queue :: "world \<Rightarrow> world \<Rightarrow> bool" where
  "same_queue w w' \<longleftrightarrow> jobs w' = jobs w \<and> parked w' = parked w"

lemma same_queue_framed: "framed P m \<Longrightarrow> same_queue w (after m w)"
  using framedD(3) by (fastforce simp: same_queue_def same_consumer_def)

lemma queue_drop: "same_queue w (after (settle (wired cfg) msg actionNackDrop (Some e)) w)"
proof -
  have c: "framed handler_call (copyToDLQ (wired cfg) msg x)" for x
    unfolding copyToDLQ_def by (rule framed_weaken [OF wired.copyToDLQ_framed wired.handler_kinds(2)])
  have "framed (\<lambda>e. True) (settle (wired cfg) msg actionNackDrop (Some e))"
    unfolding settle_def
    by (auto intro!: framed_intros framed_weaken [OF idle_ack] framed_weaken [OF idle_nack] framed_weaken [OF c])
  then show ?thesis by (rule same_queue_framed)
qed

text \<open>
  A delivery works for one deployment at most. It is turned into a job only by a claim that got the
  stage, which adds one to its attempts; a recorded result stays and never gives a job.
\<close>

definition job_made :: "buildJob \<Rightarrow> world \<Rightarrow> world \<Rightarrow> bool" where
  "job_made job w w' \<longleftrightarrow> (let i = se_DeploymentID (j_event job) in
     honest job \<and> one_more_job job w w' \<and> attempts i (rows w') = attempts i (rows w) + 1
     \<and> (\<forall>e. pg_view w i = Some e \<longrightarrow> \<not> terminal (e_status e)))"

lemma claim_effect:
  assumes "value_of (pg_Claim i build_stage d) w = Inr (ClaimAcquired, rec)"
  shows "attempts i (rows (after (pg_Claim i build_stage d) w)) = attempts i (rows w) + 1"
    and "pg_view w i = Some e \<Longrightarrow> \<not> terminal (e_status e)"
proof -
  let ?sp = "claim_spec (tx_clock w) (timestamptz (env w) (tx_clock w + d)) (pg_view w i)"
  have "ClaimAcquired = fst ?sp" "pg_view (after (pg_Claim i build_stage d) w) i = Some (snd ?sp)"
    using pg.claim_ok [of i d w, OF _ refl] assms by (simp_all add: postgres_fields)
  then show "attempts i (rows (after (pg_Claim i build_stage d) w)) = attempts i (rows w) + 1"
    by (auto simp: attempts_def pg_view_def claim_spec_def split: option.splits ClaimDisposition.splits)
  show "pg_view w i = Some e \<Longrightarrow> \<not> terminal (e_status e)"
    using \<open>ClaimAcquired = fst ?sp\<close>
    by (cases "e_status e") (auto simp: claim_spec_def terminal_def)
qed

lemma claim_terminal_stays:
  assumes "pg_view w j = Some e" and "terminal (e_status e)"
  shows "pg_view (after (pg_Claim i build_stage d) w) j = Some e"
proof (cases "j = i")
  case True
  then show ?thesis
    using pg.claim_any [of i d w] assms
    by (cases "e_status e") (auto simp: claim_spec_def terminal_def postgres_fields)
next
  case False
  then show ?thesis
    using pg.others [of j "OpClaim i d" w] assms by (simp add: pg.after_run_op postgres_fields)
qed

lemma accept_effect:
  "(same_queue w (after (acceptDelivery (wired cfg) msg) w) \<or> (\<exists>job. job_made job w (after (acceptDelivery (wired cfg) msg) w)))
   \<and> (\<exists>i. tends i w (after (acceptDelivery (wired cfg) msg) w))
   \<and> (\<forall>j e. pg_view w j = Some e \<and> terminal (e_status e) \<longrightarrow>
         pg_view (after (acceptDelivery (wired cfg) msg) w) j = Some e)"
proof (cases "invalid_request (d_Body msg)")
  case True
  then obtain e where e: "after (acceptDelivery (wired cfg) msg) w = after (settle (wired cfg) msg actionNackDrop (Some e)) w"
    unfolding after_def using accept_invalid by metis
  then have "rows (after (acceptDelivery (wired cfg) msg) w) = rows w"
    using abidesD [OF rows_drop] by (simp add: same_rows_def)
  then show ?thesis
    using queue_drop by (auto simp: e tends_same pg_view_def)
next
  case False
  then obtain event where d: "decode_request (d_Body msg) = Some event"
    by (auto simp: invalid_request_def split: option.splits)
  let ?i = "se_DeploymentID event"
  let ?c = "claim_for cfg event" and ?w' = "after (acceptDelivery (wired cfg) msg) w"
  define u where "u = after ?c w"
  have w': "?w' = after (on_claim cfg msg event (value_of ?c w)) u"
    unfolding accept_claims [OF d False] after_bind by (simp add: u_def)
  then have r: "rows ?w' = rows u"
    using abidesD [OF rows_on_claim] by (simp add: same_rows_def)
  have q: "same_queue w u"
    unfolding u_def by (rule same_queue_framed [OF pg_Claim_frame])
  have "tends ?i w u"
    using abidesD [OF tending_ledger(1)] by (simp add: u_def)
  then have "tends ?i w ?w'"
    using r by (simp add: tends_def pg_wf_def pg_view_def)
  moreover have "pg_view ?w' j = Some e" if "pg_view w j = Some e" "terminal (e_status e)" for j e
    using claim_terminal_stays [OF that, of ?i "LeaseDuration cfg"] r by (simp add: u_def pg_view_def)
  moreover have "same_queue w ?w' \<or> (\<exists>job. job_made job w ?w')"
  proof (cases "\<exists>rec. value_of ?c w = Inr (ClaimAcquired, rec)")
    case True
    then obtain rec where acq: "value_of ?c w = Inr (ClaimAcquired, rec)" by blast
    have "same_queue u ?w' \<or> one_more_job (job_of msg event) u ?w'"
      unfolding w' acq
      by (cases "d_tag msg") (auto simp: early_ack_def run_steps ack_def after_def enqueue_def one_more_job_def same_queue_def
          value_of_def split: option.splits)
    moreover have "attempts ?i (rows ?w') = attempts ?i (rows w) + 1" "pg_view w ?i = Some e \<Longrightarrow> \<not> terminal (e_status e)" for e
      using claim_effect [OF acq] r by (simp_all add: u_def)
    moreover have "honest (job_of msg event)" "j_event (job_of msg event) = event"
      using d by (simp_all add: honest_def job_of_def)
    ultimately show ?thesis
      using q by (auto simp: job_made_def Let_def same_queue_def one_more_job_def)
  next
    case no: False
    have n: "same_queue u (after (do { _ \<leftarrow> nack msg True; ret () }) u)"
      "same_queue u (after (replay (wired cfg) msg raw) u)" for raw
      using same_queue_framed [OF idle_nack, of u] same_queue_framed [OF idle_replay] by (simp_all add: run_steps)
    have "same_queue u ?w'"
    proof (cases "value_of ?c w")
      case (Inl e)
      then show ?thesis using n(1) by (simp add: w')
    next
      case (Inr res)
      obtain disp rec where "res = (disp, rec)" by (cases res)
      then show ?thesis using n no Inr by (cases disp) (simp_all add: w')
    qed
    then show ?thesis using q by (simp add: same_queue_def)
  qed
  ultimately show ?thesis by blast
qed

section \<open>The other steps\<close>

text \<open>What concerns neither the ledger nor the queue.\<close>

definition aside :: "world \<Rightarrow> world \<Rightarrow> bool" where
  "aside w w' \<longleftrightarrow> rows w' = rows w \<and> same_queue w w'"

lemma aside_relation: "reflp aside" "transp aside"
  by (auto simp: reflp_def transp_def aside_def same_queue_def)

lemmas aside_intros = abides_ret [OF aside_relation(1)] abides_gets [OF aside_relation(1)]
  abides_bind [OF aside_relation(2)] abides_cases [where R = aside]

lemma aside_calls: "abides aside (amqp_do a)" "abides aside time_now"
  by (simp_all add: abides_def aside_def same_queue_def after_amqp)

lemma aside_modify: "(\<And>w. aside w (f w)) \<Longrightarrow> abides aside (modify f)"
  by (simp add: abides_def)

lemma aside_disconnect: "abides aside disconnect"
  unfolding disconnect_def close_all_def publisher_close_def
  by (intro aside_intros aside_calls aside_modify; simp add: aside_def same_queue_def)

lemma aside_connection: "abides aside (attempt_connection c n)"
proof -
  have queues: "abides aside (declare_retry_queues cfg i ds)" for cfg i ds
    by (induction ds arbitrary: i) (auto intro!: aside_intros aside_calls split: option.splits)
  have exchanges: "abides aside (declare_exchanges xs)" for xs
    by (induction xs rule: declare_exchanges.induct) (auto intro!: aside_intros aside_calls split: option.splits)
  have publisher: "abides aside (NewRabbitPublisher xs)" for xs
    unfolding NewRabbitPublisher_def by (auto intro!: aside_intros aside_calls exchanges split: option.splits)
  show ?thesis
    unfolding attempt_connection_def connect_def dial_cleanup_def declare_topology_def declareRetryTopology_def
      begin_consuming_def
    by (intro aside_intros aside_calls aside_modify aside_disconnect queues publisher;
        simp add: aside_def same_queue_def)
qed

lemma internal_effect:
  assumes "start_step c Internal s s'"
  shows "rows (l_world s') = rows (l_world s) \<and> queued (l_world s') \<subseteq># queued (l_world s)"
proof -
  have aside: "rows w' = rows w \<and> queued w' \<subseteq># queued w" if "aside w w'" for w w'
    using that by (simp add: aside_def same_queue_def queued_def)
  show ?thesis
    using assms
  proof (cases rule: start_step.cases)
    case (connecting ph n w)
    then show ?thesis
      using abidesD [OF aside_connection, of "l_world s" c "l_attempt s"] aside by (simp add: after_def)
  next
    case worker_drops
    then show ?thesis by (cases "jobs (l_world s)") (simp_all add: queued_def)
  next
    case (unparked i)
    then show ?thesis using mset_pick [of i "parked (l_world s)"] by (auto simp: after_unpark queued_def)
  qed (use abidesD [OF aside_disconnect] aside in simp_all)
qed

lemma build_effect:
  assumes "start_step (wired cfg) (Build job) s s'" and "honest job"
  shows "tends (se_DeploymentID (j_event job)) (l_world s) (l_world s')
    \<and> queued (l_world s) = add_mset job (queued (l_world s'))"
proof -
  obtain rest where 1: "jobs (l_world s) = job # rest" "s' = s\<lparr>l_world := after (worker_turn (wired cfg)) (l_world s)\<rparr>"
    using assms(1) by (rule buildE)
  let ?w = "l_world s" and ?u = "(l_world s)\<lparr>jobs := rest\<rparr>"
  have "tends (se_DeploymentID (j_event job)) ?u (after (runBuildEvent (wired cfg) job) ?u)"
    by (rule abidesD [OF tending_build [OF assms(2)]])
  then have "tends (se_DeploymentID (j_event job)) ?w (after (worker_turn (wired cfg)) ?w)"
    using 1 by (simp add: after_worker_turn tends_def pg_wf_def pg_view_def)
  then show ?thesis
    using 1 worker_turn_queue(1) [of ?w job rest cfg] by (simp add: queued_def)
qed

section \<open>Steps of the fleet\<close>

definition fleet_ok :: "fleet \<Rightarrow> bool" where
  "fleet_ok F \<longleftrightarrow> table_ok (f_rows F) \<and> (\<forall>s \<in> set (f_workers F). \<forall>job \<in># queued (l_world s). honest job)"

lemma seeing_fields:
  "rows (l_world (seeing F k)) = f_rows F" "pg_wf (l_world (seeing F k)) \<longleftrightarrow> table_ok (f_rows F)"
  "pg_view (l_world (seeing F k)) = table_view (f_rows F)"
  "queued (l_world (seeing F k)) = queued (l_world (f_workers F ! k))"
  by (simp_all add: seeing_def Let_def pg_wf_def pg_view_def queued_def)

lemma leaving_fields:
  "f_rows (leaving F k s) = rows (l_world s)" "f_workers (leaving F k s) = (f_workers F)[k := s]"
  by (simp_all add: leaving_def)

lemma seeing_ok:
  assumes "fleet_ok F" and "k < length (f_workers F)"
  shows "pg_wf (l_world (seeing F k)) \<and> (\<forall>job \<in># queued (l_world (seeing F k)). honest job)"
  using assms nth_mem [OF assms(2)] by (auto simp: fleet_ok_def seeing_fields)

lemma pending_leaving:
  assumes "k < length (f_workers F)"
  shows "pending i (leaving F k s) + waiting_for i (l_world (seeing F k)) = pending i F + waiting_for i (l_world s)"
proof -
  let ?xs = "map (\<lambda>s. waiting_for i (l_world s)) (f_workers F)"
  have "?xs ! k \<le> sum_list ?xs"
    using assms by (intro elem_le_sum_list) simp
  then show ?thesis
    using assms
    by (simp add: pending_def leaving_fields map_update sum_list_update waiting_for_def seeing_fields)
qed

lemma attempts_grow:
  assumes "tends j w w'" and "pg_wf w"
  shows "attempts i (rows w) \<le> attempts i (rows w')"
proof (cases "pg_view w i")
  case None
  have "0 \<le> attempts i (rows w')"
    using assms table_okD [of "rows w'" "(i, build_stage)"]
    by (auto simp: attempts_def tends_def pg_wf_def table_view_def row_entry_def entry_of_def row_ok_def
        split: option.split)
  then show ?thesis using None by (simp add: attempts_def pg_view_def)
next
  case (Some e)
  then obtain e' where "pg_view w' i = Some e'" "e_attempt e \<le> e_attempt e'"
    using assms unfolding tends_def by blast
  then show ?thesis using Some by (simp add: attempts_def pg_view_def)
qed

lemma job_made_queue:
  assumes "job_made job w w'"
  shows "queued w' = add_mset job (queued w)"
  using assms by (auto simp: job_made_def Let_def one_more_job_def queued_def)

text \<open>What one step of a worker does: the ledger, and the jobs of a deployment against its attempts.\<close>

lemma step_effect:
  assumes "start_step (wired cfg) a s s'" and "pg_wf (l_world s)" and "\<forall>job \<in># queued (l_world s). honest job"
  shows "pg_wf (l_world s')" and "\<forall>job \<in># queued (l_world s'). honest job"
    and "int (waiting_for i (l_world s')) + attempts i (rows (l_world s)) + of_bool (builds_of i a)
      \<le> int (waiting_for i (l_world s)) + attempts i (rows (l_world s'))"
    and "attempts i (rows (l_world s)) \<le> attempts i (rows (l_world s'))"
proof -
  let ?w = "l_world s" and ?w' = "l_world s'"
  have "pg_wf ?w' \<and> (\<forall>job \<in># queued ?w'. honest job)
    \<and> int (waiting_for i ?w') + attempts i (rows ?w) + of_bool (builds_of i a)
        \<le> int (waiting_for i ?w) + attempts i (rows ?w')
    \<and> attempts i (rows ?w) \<le> attempts i (rows ?w')"
  proof (cases a)
    case (Accept msg)
    then have w': "?w' = after (acceptDelivery (wired cfg) msg) ?w"
      using assms(1) by (auto elim: acceptE)
    obtain j where j: "tends j ?w ?w'" using accept_effect w' by metis
    note grow = attempts_grow [OF j assms(2), of i]
    have wf: "pg_wf ?w'" using j assms(2) by (simp add: tends_def)
    consider "same_queue ?w ?w'" | job where "job_made job ?w ?w'"
      using accept_effect w' by metis
    then show ?thesis
    proof cases
      case 1
      then show ?thesis
        using grow wf assms(3) Accept by (simp add: same_queue_def queued_def waiting_for_def builds_of_def)
    next
      case 2
      note q = job_made_queue [OF 2]
      have "honest job" using 2 by (simp add: job_made_def Let_def)
      moreover have "job_for i job \<Longrightarrow> attempts i (rows ?w') = attempts i (rows ?w) + 1"
        using 2 by (simp add: job_made_def Let_def job_for_def)
      ultimately show ?thesis
        using grow wf assms(3) q Accept by (auto simp: waiting_for_def builds_of_def)
    qed
  next
    case (Build job)
    have q: "honest job"
    proof -
      obtain rest where "jobs ?w = job # rest" using assms(1) unfolding Build by (rule buildE)
      then show ?thesis using assms(3) by (simp add: queued_def)
    qed
    note b = build_effect [OF assms(1) [unfolded Build] q]
    then show ?thesis
      using attempts_grow [OF conjunct1 [OF b] assms(2), of i] assms(2,3)
      by (auto simp: tends_def waiting_for_def builds_of_def Build job_for_def)
  next
    case Internal
    note n = internal_effect [OF assms(1) [unfolded Internal]]
    then have "waiting_for i ?w' \<le> waiting_for i ?w"
      unfolding waiting_for_def by (blast intro: size_mset_mono multiset_filter_mono)
    moreover have "\<forall>job \<in># queued ?w'. honest job"
      using n assms(3) mset_subset_eqD by metis
    ultimately show ?thesis
      using n assms(2) by (simp add: pg_wf_def builds_of_def Internal)
  qed
  then show "pg_wf ?w'" "\<forall>job \<in># queued ?w'. honest job"
    "int (waiting_for i ?w') + attempts i (rows ?w) + of_bool (builds_of i a)
      \<le> int (waiting_for i ?w) + attempts i (rows ?w')"
    "attempts i (rows ?w) \<le> attempts i (rows ?w')"
    by blast+
qed

lemma leaving_ok:
  assumes "fleet_ok F" and "pg_wf (l_world s)" and "\<forall>job \<in># queued (l_world s). honest job"
  shows "fleet_ok (leaving F k s)"
  using assms set_update_subset_insert [of "f_workers F" k s]
  by (auto simp: fleet_ok_def leaving_fields pg_wf_def)

lemma rebooted_fields: "rows (rebooted w) = rows w" "queued (rebooted w) = {#}"
  by (simp_all add: rebooted_def queued_def)

lemma fleet_step_effect:
  assumes "fleet_step (wired cfg) a F G" and "fleet_ok F"
  shows "fleet_ok G"
    and "int (pending i G) + attempts i (f_rows F) + of_bool (builds_of i a)
      \<le> int (pending i F) + attempts i (f_rows G)"
proof -
  have "fleet_ok G \<and> int (pending i G) + attempts i (f_rows F) + of_bool (builds_of i a)
      \<le> int (pending i F) + attempts i (f_rows G)"
    using assms(1)
  proof (cases rule: fleet_step.cases)
    case (acts k s)
    note k = seeing_ok [OF assms(2) acts(2)]
    note e = step_effect [OF acts(3) conjunct1 [OF k] conjunct2 [OF k]]
    have "int (pending i G) + int (waiting_for i (l_world (seeing F k))) = int (pending i F) + int (waiting_for i (l_world s))"
      using pending_leaving [OF acts(2), of i s] unfolding acts(1) by (metis of_nat_add)
    then show ?thesis
      using leaving_ok [OF assms(2) e(1,2), of k] e(3) [of i] unfolding acts(1) leaving_fields seeing_fields by linarith
  next
    case (restarts k)
    then show ?thesis
      using leaving_ok [OF assms(2), of "start_state (rebooted (l_world (seeing F k)))" k] assms(2)
        pending_leaving [OF restarts(3), of i "start_state (rebooted (l_world (seeing F k)))"]
      by (simp add: leaving_fields start_state_def rebooted_fields seeing_fields waiting_for_def fleet_ok_def
          pg_wf_def builds_of_def)
  qed
  then show "fleet_ok G" "int (pending i G) + attempts i (f_rows F) + of_bool (builds_of i a)
      \<le> int (pending i F) + attempts i (f_rows G)" by blast+
qed

lemma fresh_queue: "fresh_world w \<Longrightarrow> queued (l_world (start_state w)) = {#}"
  by (simp add: fresh_world_def queued_def start_state_def)

lemma fleet_start_ok: "fleet_start F \<Longrightarrow> fleet_ok F \<and> pending i F = 0"
  unfolding fleet_start_def fleet_ok_def pending_def sum_list_eq_0_iff
  by (fastforce simp: fresh_queue waiting_for_def)

lemma fleet_run_effect:
  assumes "fleet_run (wired cfg) F as G" and "fleet_ok F"
  shows "fleet_ok G \<and> int (pending i G + length (filter (builds_of i) as)) + attempts i (f_rows F)
      \<le> int (pending i F) + attempts i (f_rows G)"
  using assms
proof induction
  case (more as G a H)
  then show ?case
    using fleet_step_effect(1) [OF more.hyps(2)] fleet_step_effect(2) [OF more.hyps(2), of i] by (auto simp: of_bool_def split: if_splits)
qed simp

text \<open>
  C4: The fleet builds a deployment at most as often as its attempts are counted. However many workers
  share the ledger, whatever is delivered to them in whatever order and however often, and whatever
  fails or is restarted, the builds of a deployment begun so far and the jobs for it that still wait in
  some queue are together at most the attempts that claims have added to its row; so duplicates of a
  request give no second build until the ledger hands the stage out again.
\<close>

theorem builds_are_counted:
  assumes "fleet_start F" and "fleet_run (wired cfg) F as G"
  shows "int (length (filter (builds_of i) as) + pending i G) \<le> attempts i (f_rows G) - attempts i (f_rows F)"
  using fleet_run_effect [OF assms(2), of i] fleet_start_ok [OF assms(1), of i] by simp

section \<open>Finished deployments\<close>

lemma step_finished:
  assumes "start_step (wired cfg) a s s'" and "\<forall>job \<in># queued (l_world s). honest job"
    and "pg_view (l_world s) i = Some e" and "terminal (e_status e)" and "waiting_for i (l_world s) = 0"
  shows "pg_view (l_world s') i = Some e \<and> waiting_for i (l_world s') = 0 \<and> \<not> builds_of i a"
proof (cases a)
  case (Accept msg)
  then have w': "l_world s' = after (acceptDelivery (wired cfg) msg) (l_world s)"
    using assms(1) by (auto elim: acceptE)
  then have v: "pg_view (l_world s') i = Some e" using accept_effect assms(3,4) by metis
  consider "same_queue (l_world s) (l_world s')" | job where "job_made job (l_world s) (l_world s')"
    using accept_effect w' by metis
  then have "waiting_for i (l_world s') = 0"
  proof cases
    case 1
    then show ?thesis using assms(5) by (simp add: same_queue_def queued_def waiting_for_def)
  next
    case 2
    then have "\<not> job_for i job" using assms(3,4) by (auto simp: job_made_def Let_def job_for_def)
    then show ?thesis using job_made_queue [OF 2] assms(5) by (simp add: waiting_for_def)
  qed
  then show ?thesis using v Accept by (simp add: builds_of_def)
next
  case (Build job)
  obtain rest where r: "jobs (l_world s) = job # rest" using assms(1) unfolding Build by (rule buildE)
  then have h: "honest job" "\<not> job_for i job"
    using assms(2,5) by (auto simp: queued_def waiting_for_def split: if_splits)
  note b = build_effect [OF assms(1) [unfolded Build] h(1)]
  have "waiting_for i (l_world s') = 0"
    using conjunct2 [OF b] h(2) assms(5) by (simp add: waiting_for_def)
  then show ?thesis
    using b h(2) assms(3) Build by (simp add: tends_def builds_of_def job_for_def)
next
  case Internal
  note n = internal_effect [OF assms(1) [unfolded Internal]]
  then have "waiting_for i (l_world s') \<le> waiting_for i (l_world s)"
    unfolding waiting_for_def by (blast intro: size_mset_mono multiset_filter_mono)
  then show ?thesis using n assms(3,5) by (simp add: pg_view_def builds_of_def Internal)
qed

lemma fleet_step_finished:
  assumes "fleet_step (wired cfg) a F G" and "fleet_ok F"
    and "table_view (f_rows F) i = Some e" and "terminal (e_status e)" and "pending i F = 0"
  shows "table_view (f_rows G) i = Some e \<and> pending i G = 0 \<and> \<not> builds_of i a"
  using assms(1)
proof (cases rule: fleet_step.cases)
  case (acts k s)
  have "waiting_for i (l_world (f_workers F ! k)) = 0"
    using assms(5) acts(2) by (auto simp: pending_def sum_list_eq_0_iff)
  then have "waiting_for i (l_world (seeing F k)) = 0"
    by (simp add: waiting_for_def seeing_fields)
  then show ?thesis
    using step_finished [OF acts(3)] seeing_ok [OF assms(2) acts(2)] assms(3-5) pending_leaving [OF acts(2), of i s]
    by (simp add: acts(1) seeing_fields leaving_fields pg_view_def)
next
  case (restarts k)
  then show ?thesis
    using assms(3,5) pending_leaving [OF restarts(3), of i "start_state (rebooted (l_world (seeing F k)))"]
    by (simp add: leaving_fields start_state_def rebooted_fields seeing_fields waiting_for_def builds_of_def)
qed


text \<open>
  A lease is renewed only while its job is built, not while the job waits behind another one: once it has
  run out, another delivery of the same request is claimed and queued as well, although the first job is
  still waiting somewhere, and the worker that takes a job does not look at the ledger again. Both are
  then built.
\<close>

lemma expired_lease_duplicates:
  assumes "sql_fault (env w) = (\<lambda>h s. None)" and "d_tag msg = Some t" and "\<And>h. acknowledge (env w) h t = None"
    and "decode_request (d_Body msg) = Some event" and "\<not> invalid_request (d_Body msg)"
    and "pg_text (se_DeploymentID event)" and "claimable (tx_clock w) (rows w (se_DeploymentID event, build_stage))"
  shows "one_more_job (job_of msg event) w (after (acceptDelivery (wired cfg) msg) w)"
proof -
  have "\<exists>rec. value_of (claim_for cfg event) w = Inr (ClaimAcquired, rec)"
    by (rule pg_claim_succeeds [OF assms(1,6,7)])
  then obtain rec where acq: "value_of (claim_for cfg event) w = Inr (ClaimAcquired, rec)" by blast
  let ?u = "after (claim_for cfg event) w"
  have u: "same_consumer w ?u" by (rule framedD(3) [OF pg_Claim_frame])
  have "after (acceptDelivery (wired cfg) msg) w = after (early_ack (wired cfg) msg event) ?u"
    unfolding accept_claims [OF assms(4,5)] after_bind acq by simp
  moreover have "one_more_job (job_of msg event) ?u (after (early_ack (wired cfg) msg event) ?u)"
    using run_early_ack(2) [OF assms(2)] assms(3) u by (simp add: same_consumer_def)
  ultimately show ?thesis
    using u by (simp add: one_more_job_def same_consumer_def)
qed

section \<open>Concrete instances\<close>

text \<open>Two workers over one table; the first connects and accepts a request.\<close>

definition two_workers :: "table \<Rightarrow> fleet" where
  "two_workers tab = \<lparr>f_hist = [], f_rows = tab, f_workers = [start_state idle_world, start_state idle_world]\<rparr>"

definition one_connected :: "table \<Rightarrow> fleet" where
  "one_connected tab = leaving (two_workers tab) 0
     (connected_state (loadConfig (\<lambda>_. [])) (l_world (seeing (two_workers tab) 0)))"

definition one_accepted :: "table \<Rightarrow> fleet" where
  "one_accepted tab = leaving (one_connected tab) 0 ((seeing (one_connected tab) 0)\<lparr>l_world :=
     after (acceptDelivery (wired (loadConfig (\<lambda>_. []))) (sample_delivery sample_body))
       (l_world (seeing (one_connected tab) 0))\<rparr>)"

lemma two_start: "table_ok tab \<Longrightarrow> fleet_start (two_workers tab)"
  by (auto simp: fleet_start_def two_workers_def fresh_world_def idle_world_def)

lemma two_run:
  "fleet_run (wired (loadConfig (\<lambda>_. []))) (two_workers tab) [Internal, Accept (sample_delivery sample_body)] (one_accepted tab)"
proof -
  let ?c = "wired (loadConfig (\<lambda>_. []))"
  have see: "seeing (two_workers tab) 0 = start_state (l_world (seeing (two_workers tab) 0))"
    by (simp add: seeing_def two_workers_def start_state_def Let_def)
  have e: "env (l_world (seeing (two_workers tab) 0)) = calm"
    by (simp add: seeing_def two_workers_def start_state_def idle_world_def Let_def)
  have "fleet_step ?c Internal (two_workers tab) (one_connected tab)"
    unfolding one_connected_def
    by (rule fleet_step.acts, simp add: two_workers_def, subst see, rule calm_step [OF e])
  moreover have "l_phase (seeing (one_connected tab) 0) = Consuming"
    by (simp add: seeing_def one_connected_def leaving_def two_workers_def connected_state_def Let_def)
  from start_step.delivery [OF this, of ?c "sample_delivery sample_body"]
  have "fleet_step ?c (Accept (sample_delivery sample_body)) (one_connected tab) (one_accepted tab)"
    unfolding one_accepted_def
    by (intro fleet_step.acts) (simp_all add: one_connected_def leaving_def two_workers_def)
  ultimately show ?thesis
    using fleet_run.more [OF fleet_run.more [OF fleet_run.none]] by fastforce
qed

theorem builds_are_counted_witness:
  "int (pending ''d1'' (one_accepted Map.empty)) \<le> attempts ''d1'' (f_rows (one_accepted Map.empty))"
  using builds_are_counted [OF two_start two_run, of Map.empty "''d1''"]
  by (simp add: table_ok_def builds_of_def attempts_def two_workers_def table_view_def)


end
