(* ===== verification/Startup.thy ===== *)
theory Startup
  imports Service
begin

text \<open>
  The start of the process in \<open>main.go\<close>: the configuration is read, the consumer is created over its
  ledger, and only then do the consumer's loop and the HTTP server run.
\<close>

text \<open>An error ends the process (\<open>log.Fatalf\<close>) before anything else is started.\<close>

definition main_start :: "(string \<Rightarrow> string) \<Rightarrow> (goerr + BuildConsumer) M" where
  "main_start getenv = NewBuildConsumer (loadConfig getenv)"

definition listen_address :: "Config \<Rightarrow> string" where
  "listen_address cfg = '':'' @ HTTPPort cfg"

text \<open>The characters the ledger's statements may have in the name of their table.\<close>

definition table_char :: "char \<Rightarrow> bool" where
  "table_char c \<longleftrightarrow> is_digit c \<or> 97 \<le> byte c \<and> byte c \<le> 122 \<or> c = CHR ''_'' \<or> c = CHR ''.''"

lemma schema_table:
  assumes "schemaNamePattern s"
  shows "list_all table_char (s @ ''.stage_ledger'')"
proof -
  have "list_all table_char s"
    using assms by (cases s) (auto simp: schemaNamePattern_def schema_char_def table_char_def list_all_iff)
  then show ?thesis by (simp add: table_char_def is_digit_def byte_def)
qed

lemma calls_statement: "calls (sql_do s) w = [Sql s]"
  by (auto simp: sql_do_def calls_def after_def split: option.splits sql_fault.splits)

lemma opened_ledger:
  "case value_of (NewPostgresStageLedger url schema) w of
     Inl e \<Rightarrow> calls (NewPostgresStageLedger url schema) w \<in> {[], [Sql Ping, Sql CloseDb]}
       \<and> (if url = [] \<or> \<not> schemaNamePattern schema then calls (NewPostgresStageLedger url schema) w = [] else True)
   | Inr table \<Rightarrow> url \<noteq> [] \<and> schemaNamePattern schema \<and> table = schema @ ''.stage_ledger''
       \<and> calls (NewPostgresStageLedger url schema) w = [Sql Ping]"
proof -
  have e: "extending (sql_do s)" for s
    by (rule framed_extending [OF framed_sql_do])
  show ?thesis
    by (auto simp: NewPostgresStageLedger_def run_steps calls_bind extending_bind e extending_ret calls_statement
        value_of_def [of "ask f" for f] after_def [of "ask f" for f] extending_gets ask_def
        split: option.splits sum.splits)
qed


end
