(* ===== verification/Lifecycle.thy ===== *)
theory Lifecycle
  imports Startup
begin

text \<open>
  The life of the process in \<open>main.go\<close>: after the consumer has been created, its loop and the HTTP
  server run in goroutines of their own until a signal arrives or the server fails. A signal cancels
  the loop's context; \<open>main\<close> then shuts the server down and returns, which runs its deferred calls, the
  last of them \<open>consumer.Close\<close>. A failure of the server ends the process at once through \<open>log.Fatalf\<close>,
  which runs no deferred call. Steps are those of the loop's goroutine, of the worker and of the
  server's handlers, in any order.
\<close>

section \<open>The steps of the process\<close>

datatype main_phase = Serving | Stopping | Exited int

record main_state =
  m_phase :: main_phase
  m_loop :: loop_state

abbreviation main_world :: "main_state \<Rightarrow> world" where
  "main_world s \<equiv> l_world (m_loop s)"

definition main_begin :: "(string \<Rightarrow> string) \<Rightarrow> world \<Rightarrow> main_state" where
  "main_begin getenv w =
     \<lparr>m_phase = (case value_of (main_start getenv) w of Inl _ \<Rightarrow> Exited 1 | Inr _ \<Rightarrow> Serving),
      m_loop = start_state (after (main_start getenv) w)\<rparr>"

inductive main_step :: "BuildConsumer \<Rightarrow> main_state \<Rightarrow> main_state \<Rightarrow> bool" for c where
  goroutines:
    "m_phase s \<in> {Serving, Stopping} \<Longrightarrow> start_step c a (m_loop s) l \<Longrightarrow>
     l_cancelled l = l_cancelled (m_loop s) \<Longrightarrow> main_step c s (s\<lparr>m_loop := l\<rparr>)"
| probed:
    "m_phase s \<in> {Serving, Stopping} \<Longrightarrow>
     main_step c s (s\<lparr>m_loop := (m_loop s)\<lparr>l_world := after (health_handler path) (main_world s)\<rparr>\<rparr>)"
| server_failed:
    "m_phase s \<in> {Serving, Stopping} \<Longrightarrow> main_step c s (s\<lparr>m_phase := Exited 1\<rparr>)"
| signalled:
    "m_phase s = Serving \<Longrightarrow>
     main_step c s (s\<lparr>m_phase := Stopping, m_loop := (m_loop s)\<lparr>l_cancelled := True\<rparr>\<rparr>)"
| returned:
    "m_phase s = Stopping \<Longrightarrow>
     main_step c s (s\<lparr>m_phase := Exited 0,
       m_loop := (m_loop s)\<lparr>l_world := after (Close c) (main_world s)\<rparr>\<rparr>)"

inductive main_reachable :: "(string \<Rightarrow> string) \<Rightarrow> main_state \<Rightarrow> bool" for getenv where
  begun: "fresh_world w \<Longrightarrow> main_reachable getenv (main_begin getenv w)"
| moved: "main_reachable getenv s \<Longrightarrow> main_step (wired (loadConfig getenv)) s s' \<Longrightarrow> main_reachable getenv s'"

inductive_cases main_stepE: "main_step c s s'"

section \<open>What holds in every state of the process\<close>

text \<open>The context is cancelled exactly from the signal on, and until then the loop never returns.\<close>

definition main_ok :: "main_state \<Rightarrow> bool" where
  "main_ok s \<longleftrightarrow>
     (case m_phase s of
        Serving \<Rightarrow> loop_ok (m_loop s) \<and> \<not> l_cancelled (m_loop s)
      | Stopping \<Rightarrow> loop_ok (m_loop s) \<and> l_cancelled (m_loop s)
      | Exited n \<Rightarrow> True)"

lemma main_ok_begin: "fresh_world w \<Longrightarrow> main_ok (main_begin getenv w)"
proof -
  assume "fresh_world w"
  moreover have "framed ledger_call (main_start getenv)"
    unfolding main_start_def NewBuildConsumer_def NewPostgresStageLedger_def by (intro framed_intros)
  then have "same_consumer w (after (main_start getenv) w)" by (rule framedD(3))
  ultimately show ?thesis
    by (auto simp: main_ok_def main_begin_def start_state_def loop_ok_def fresh_world_def unlinked_def
        same_consumer_def split: sum.split)
qed

lemma loop_ok_linked: "loop_ok s \<Longrightarrow> same_connection (l_world s) w \<Longrightarrow> loop_ok (s\<lparr>l_world := w\<rparr>)"
  by (cases "l_phase s") (auto simp: loop_ok_def same_connection_def unlinked_def)

lemma health_reads: "same_connection w (after (health_handler path) w)"
  by (simp add: health_handler_def Unhealthy_def run_steps same_connection_def)

lemma main_ok_step:
  assumes "main_step (wired cfg) s s'" and "main_ok s"
  shows "main_ok s'"
  using assms
proof (cases rule: main_step.cases)
  case (goroutines a l)
  then show ?thesis
    using loop_ok_step [OF goroutines(3)] assms(2) by (auto simp: main_ok_def split: main_phase.splits)
next
  case (probed path)
  then show ?thesis
    using loop_ok_linked [OF _ health_reads] assms(2) by (auto simp: main_ok_def split: main_phase.splits)
next
  case signalled
  then show ?thesis
    using assms(2) by (auto simp: main_ok_def loop_ok_def split: phase.splits)
qed (simp_all add: main_ok_def)

lemma main_reachable_ok: "main_reachable getenv s \<Longrightarrow> main_ok s"
  by (induction rule: main_reachable.induct) (auto intro: main_ok_begin main_ok_step)

section \<open>After the signal\<close>

text \<open>Computations that neither build nor clone anything, whatever else they do to the consumer.\<close>

abbreviation idling :: "'a M \<Rightarrow> bool" where
  "idling \<equiv> abides (extends starts_nothing)"

lemma extends_relation: "reflp (extends P)" "transp (extends P)"
  by (auto simp: reflp_def transp_def extends_refl intro: extends_trans)

lemmas idling_intros = abides_ret [OF extends_relation(1)] abides_gets [OF extends_relation(1)]
  abides_bind [OF extends_relation(2)] abides_cases [where R = "extends starts_nothing"]

lemma idling_framed: "framed P m \<Longrightarrow> (\<And>e. P e \<Longrightarrow> starts_nothing e) \<Longrightarrow> idling m"
  using framed_weaken [of P m starts_nothing] by (auto simp: abides_def frame_def)

lemma idling_modify: "(\<And>w. hist (f w) = hist w) \<Longrightarrow> idling (modify f)"
  by (simp add: abides_def extends_def)

lemma idling_calls: "idling (amqp_do a)" "idling time_now" "idling (sql_do q)" "idling (ack msg)" "idling (nack msg r)"
  using idling_framed [OF framed_sql_do idle_kinds(1)] idling_framed [OF idle_ack] idling_framed [OF idle_nack]
  by (simp_all add: abides_def after_amqp extends_def starts_nothing_def)

lemma idling_accept: "idling (acceptDelivery (wired cfg) msg)"
proof (rule abidesI)
  fix w
  have early: "idling (early_ack (wired cfg) msg event)" for event
    unfolding early_ack_def enqueue_def
    by (intro idling_intros idling_calls idling_modify) simp
  show "extends starts_nothing w (after (acceptDelivery (wired cfg) msg) w)"
  proof (cases "invalid_request (d_Body msg)")
    case True
    then obtain e where "after (acceptDelivery (wired cfg) msg) w = after (settle (wired cfg) msg actionNackDrop (Some e)) w"
      unfolding after_def using accept_invalid by metis
    moreover have "idling (settle (wired cfg) msg actionNackDrop (Some e))"
      unfolding settle_def copyToDLQ_def
      by (auto intro!: idling_intros idling_calls idling_framed [OF wired.copyToDLQ_framed idle_kinds(2)])
    ultimately show ?thesis by (simp add: abidesD)
  next
    case False
    then obtain event where "decode_request (d_Body msg) = Some event"
      by (auto simp: invalid_request_def split: option.splits)
    moreover have "idling (on_claim cfg msg event r)" for r
      unfolding on_claim_def
      by (auto intro!: idling_intros idling_calls early idling_framed [OF idle_replay] split: sum.splits ClaimDisposition.splits)
    ultimately show ?thesis
      by (simp add: accept_claims [OF _ False] abidesD idling_intros(3) idling_framed [OF idle_claim])
  qed
qed

lemma idling_disconnect: "idling close_all" "idling disconnect" "idling (Close (wired cfg))"
proof -
  show all: "idling close_all"
    unfolding close_all_def publisher_close_def by (intro idling_intros idling_calls)
  show "idling disconnect"
    unfolding disconnect_def by (intro idling_intros idling_calls all idling_modify; simp)
  show "idling (Close (wired cfg))"
    unfolding Close_def
    by (simp add: PostgresStageLedger_def pg_Close_def) (intro idling_intros idling_calls all)
qed

lemma cancelled_step_idles:
  assumes "start_step (wired cfg) a s s'" and "l_cancelled s"
  shows "extends starts_nothing (l_world s) (l_world s')"
  using assms(1)
proof (cases rule: start_step.cases)
  case cancelled_consuming
  then show ?thesis using abidesD [OF idling_disconnect(2)] by simp
next
  case connection_lost
  then show ?thesis using abidesD [OF idling_disconnect(2)] by simp
next
  case (delivery msg)
  then show ?thesis using abidesD [OF idling_accept] by simp
next
  case (unparked i)
  then show ?thesis by (simp add: after_unpark extends_def)
next
  case worker_drops
  then show ?thesis by (simp add: extends_def)
qed (use assms(2) in \<open>simp_all add: extends_refl\<close>)

lemma stopping_step:
  assumes "main_step (wired cfg) s s'" and "m_phase s \<noteq> Serving" and "main_ok s"
  shows "m_phase s' \<noteq> Serving \<and> extends starts_nothing (main_world s) (main_world s')"
  using assms(1)
proof (cases rule: main_step.cases)
  case (goroutines a l)
  then show ?thesis
    using assms(2,3) cancelled_step_idles by (auto simp: main_ok_def)
next
  case (probed path)
  have "idling (health_handler path)"
    unfolding health_handler_def Unhealthy_def by (intro idling_intros idling_calls)
  then show ?thesis using probed assms(2) by (simp add: abidesD)
next
  case returned
  then show ?thesis using abidesD [OF idling_disconnect(3)] by simp
qed (use assms(2) in \<open>simp_all add: extends_refl\<close>)

text \<open>
  C25: Once a signal has arrived no build is begun any more: whatever the broker, the database and the
  scheduler do until the process has ended, no work directory is made and no child process is started,
  even for deliveries that are still accepted and jobs that are still queued. A turn of the worker that
  is under way when the signal arrives counts as made before it.
\<close>

theorem shutdown_starts_nothing:
  assumes "main_reachable getenv s" and "m_phase s = Stopping"
    and "(main_step (wired (loadConfig getenv)))\<^sup>*\<^sup>* s s'"
  shows "list_all starts_nothing (drop (length (hist (main_world s))) (hist (main_world s')))
    \<and> prefix (hist (main_world s)) (hist (main_world s')) \<and> m_phase s' \<noteq> Serving"
proof -
  have "m_phase s' \<noteq> Serving \<and> main_ok s' \<and> extends starts_nothing (main_world s) (main_world s')"
    using assms(3)
  proof induction
    case base
    then show ?case using assms(2) main_reachable_ok [OF assms(1)] by (simp add: extends_refl)
  next
    case (step y z)
    then show ?case
      using stopping_step [of "loadConfig getenv" y z] main_ok_step [of "loadConfig getenv" y z] extends_trans by blast
  qed
  then show ?thesis by (auto simp: extends_def)
qed

section \<open>The end of the process\<close>

lemma run_statement:
  "hist (after (sql_do q) w) = hist w @ [Sql q]" "same_consumer w (after (sql_do q) w)"
  using framedD [OF framed_sql_do [of q], of w] by (simp_all add: calls_statement)

text \<open>What is closed: the ledger, and of the broker what is open, the publisher's channel first.\<close>

lemma calls_close_all:
  "if pub_set w \<and> ch_set w \<and> conn_set w
   then \<exists>a b d. calls close_all w = [Amqp (CloseChannel PublisherChannel) a, Amqp (CloseChannel ConsumerChannel) b,
          Amqp CloseConnection d]
   else \<not> pub_set w \<and> \<not> ch_set w \<and> \<not> conn_set w \<longrightarrow> calls close_all w = []"
  by (simp add: calls_def close_all_def publisher_close_def run_steps after_amqp)

lemma calls_Close:
  "hist (after (Close (wired cfg)) w) = hist w @ Sql CloseDb # calls close_all (after (sql_do CloseDb) w)"
proof -
  have "after (Close (wired cfg)) w = after close_all (after (sql_do CloseDb) w)"
    by (simp add: Close_def PostgresStageLedger_def pg_Close_def run_steps)
  moreover have "extending close_all"
    using abidesD [OF idling_disconnect(1)] unfolding extending_def extends_def by (metis prefixI)
  ultimately show ?thesis
    by (simp add: extending_hist run_statement(1))
qed


section \<open>Concrete instances\<close>

definition database_only :: "string \<Rightarrow> string" where
  "database_only k = (if k = ''DATABASE_URL'' then ''postgres://db'' else [])"

definition signalled_state :: main_state where
  "signalled_state = (main_begin database_only idle_world)\<lparr>m_phase := Stopping,
     m_loop := (m_loop (main_begin database_only idle_world))\<lparr>l_cancelled := True\<rparr>\<rparr>"

lemma signalled_reachable: "main_reachable database_only signalled_state"
proof -
  have s: "schemaNamePattern (LedgerSchema (loadConfig database_only))"
    "DatabaseURL (loadConfig database_only) = ''postgres://db''"
    by (simp_all add: loadConfig_def envOrDefault_def database_only_def schemaNamePattern_def schema_char_def byte_def)
  have "\<exists>c. value_of (main_start database_only) idle_world = Inr c"
    by (simp add: main_start_def NewBuildConsumer_def NewPostgresStageLedger_def run_steps s idle_world_def calm_def
        value_of_def [of "sql_do Ping"] value_of_def [of "ask f" for f] after_def [of "ask f" for f] sql_do_def)
  then have m: "m_phase (main_begin database_only idle_world) = Serving"
    by (auto simp: main_begin_def)
  have "main_reachable database_only (main_begin database_only idle_world)"
    by (rule main_reachable.begun) (simp add: fresh_world_def idle_world_def)
  from main_reachable.moved [OF this main_step.signalled [OF m]] show ?thesis
    by (simp add: signalled_state_def)
qed

lemma signalled_fields: "m_phase signalled_state = Stopping" "l_phase (m_loop signalled_state) = Connecting"
  by (simp_all add: signalled_state_def main_begin_def start_state_def)

theorem shutdown_starts_nothing_witness:
  "list_all starts_nothing (drop (length (hist (main_world signalled_state)))
     (hist (after (Close (wired (loadConfig database_only))) (main_world signalled_state))))"
proof -
  let ?step = "main_step (wired (loadConfig database_only))"
  let ?s = "signalled_state\<lparr>m_phase := Exited 0, m_loop := (m_loop signalled_state)\<lparr>l_world :=
      after (Close (wired (loadConfig database_only))) (main_world signalled_state)\<rparr>\<rparr>"
  have "?step signalled_state ?s"
    by (rule main_step.returned [OF signalled_fields(1)])
  then have "?step\<^sup>*\<^sup>* signalled_state ?s" by blast
  from shutdown_starts_nothing [OF signalled_reachable signalled_fields(1) this] show ?thesis by simp
qed


end
