(* ===== verification/EventId.thy ===== *)
theory EventId
  imports EventFacts
begin

text \<open>
  \<open>newEventID\<close> of \<open>events.go\<close>, which nothing in the program calls any more (the event ids are the
  digests of \<open>deploymentEventID\<close>), and the shape of the ids it makes.
\<close>

unbundle bit_operations_syntax

text \<open>The layout \<open>20060102150405.000000000\<close> of \<open>time.Format\<close>.\<close>

definition compact_time :: "gotime \<Rightarrow> string" where
  "compact_time t =
     (let secs = t div Second; tod = secs mod 86400; (y, m, d) = civil_date (secs div 86400)
      in zero_pad 4 y @ zero_pad 2 m @ zero_pad 2 d @ zero_pad 2 (tod div 3600)
         @ zero_pad 2 (tod div 60 mod 60) @ zero_pad 2 (tod mod 60) @ ''.'' @ zero_pad 9 (t mod Second))"

text \<open>The sixteen random bytes are a parameter, \<open>None\<close> when reading them failed.\<close>

definition newEventID :: "nat list option \<Rightarrow> gotime \<Rightarrow> string" where
  "newEventID random now =
     (case random of
        None \<Rightarrow> compact_time now
      | Some randomBytes \<Rightarrow>
          (let b1 = randomBytes[6 := (randomBytes ! 6 AND 0x0f) OR 0x40];
               b2 = b1[8 := (b1 ! 8 AND 0x3f) OR 0x80];
               encoded = EncodeToString b2
           in take 8 encoded @ ''-'' @ take 4 (drop 8 encoded) @ ''-'' @ take 4 (drop 12 encoded)
              @ ''-'' @ take 4 (drop 16 encoded) @ ''-'' @ take 12 (drop 20 encoded)))"

lemma version_nibble:
  "(((b::nat) AND 15) OR 64) div 16 = 4" "((b AND 15) OR 64) mod 16 < 16"
  "((b AND 63) OR 128) div 16 \<in> {8, 9, 10, 11}"
proof -
  have m: "b AND 15 = b mod 16" "b AND 63 = b mod 64"
    using take_bit_eq_mask [of 4 b] take_bit_eq_mask [of 6 b] by (simp_all add: take_bit_eq_mod mask_eq_exp_minus_1)
  have o: "r OR 64 = r + 64" if "r < 64" for r :: nat
    using that set_bit_eq_or [of 6 r] set_bit_eq [of 6 r] by (simp add: bit_iff_odd push_bit_eq_mult)
  have p: "r OR 128 = r + 128" if "r < 128" for r :: nat
    using that set_bit_eq_or [of 7 r] set_bit_eq [of 7 r] by (simp add: bit_iff_odd push_bit_eq_mult)
  show "((b AND 15) OR 64) div 16 = 4" unfolding m by (simp add: o)
  have "b mod 64 < 64" by simp
  then show "((b AND 63) OR 128) div 16 \<in> {8, 9, 10, 11}"
    unfolding m p [OF less_trans [OF \<open>b mod 64 < 64\<close>, of 128, simplified]] by auto
qed simp

text \<open>
  A new event id is a random UUID of version 4 in its canonical form: thirty-six characters,
  lower-case hexadecimal digits in groups of 8, 4, 4, 4 and 12, the version digit 4 and the variant
  one of 8, 9, a and b.
\<close>

lemma newEventID_uuid:
  assumes "length bs = 16"
  shows "let s = newEventID (Some bs) now in length s = 36
    \<and> list_all (\<lambda>i. if i \<in> {8, 13, 18, 23} then s ! i = CHR ''-'' else is_lower_hex (s ! i)) [0..<36]
    \<and> s ! 14 = CHR ''4'' \<and> s ! 19 \<in> set ''89ab''"
proof -
  obtain a0 a1 a2 a3 a4 a5 a6 a7 a8 a9 a10 a11 a12 a13 a14 a15 where
    b: "bs = [a0, a1, a2, a3, a4, a5, a6, a7, a8, a9, a10, a11, a12, a13, a14, a15]"
    using assms by (auto simp: numeral_eq_Suc length_Suc_conv)
  let ?a = "(a6 AND 15) OR 64" and ?c = "(a8 AND 63) OR 128"
  let ?bs = "[a0, a1, a2, a3, a4, a5, ?a, a7, ?c, a9, a10, a11, a12, a13, a14, a15]"
  have four: "?a div 16 mod 16 = 4"
    using version_nibble(1) [of a6] by simp
  have "char_of (56::nat) = CHR ''8''" "char_of (57::nat) = CHR ''9''" "char_of (97::nat) = CHR ''a''"
    "char_of (98::nat) = CHR ''b''"
    by code_simp+
  then have "nibble_char (?c div 16 mod 16) \<in> set ''89ab''"
    using version_nibble(3) [of a8] by (auto simp: nibble_char_def)
  moreover have "nibble_char 4 = CHR ''4''" by code_simp
  moreover have "is_lower_hex (nibble_char (n mod 16))" for n by (rule nibble_char_hex) simp
  moreover have "is_lower_hex (CHR ''4'')" by (simp add: is_lower_hex_def is_digit_def byte_def)
  ultimately show ?thesis
    by (simp add: newEventID_def b EncodeToString_def hex_byte_def Let_def four upt_conv_Cons)
qed

lemma newEventID_instance:
  "newEventID (Some (replicate 16 255)) 0 ! 14 = CHR ''4''"
  using newEventID_uuid [of "replicate 16 255" 0] by (simp add: Let_def)

end
