(* ===== verification/Spec2Isabelle.thy ===== *)
theory Spec2Isabelle
  imports RetryChain EndToEnd Lease Fleet Lifecycle EventId DemoConsumer
begin

text \<open>
  A verification of the build worker in \<open>src/\<close>, a Go service that takes build requests from
  RabbitMQ, builds and pushes a container image for each, and reports the outcome.

  \<^bold>\<open>The program.\<close> \<open>config.go\<close> reads the environment. \<open>build_consumer.go\<close> connects to the broker,
  accepts deliveries, claims the build stage of a deployment in a ledger (\<open>ledger.go\<close>), acknowledges
  the delivery and queues a job; one worker takes the jobs, fetches the source (\<open>github.go\<close>), builds
  and pushes the image (\<open>builder.go\<close>), records the outcome in the ledger and then announces it with
  two events (\<open>events.go\<close>) over a confirming channel (\<open>rabbit_publisher.go\<close>). Failures are retried
  through delay queues or copied to a dead-letter queue. \<open>main.go\<close> starts it and answers health
  probes.

  \<^bold>\<open>How effects are modelled.\<close> Theory World holds the record \<open>environment\<close>: for the broker, the
  database connection, child processes, the file system, HTTP, signing and the clock it has a
  function that answers a call from the history of all calls made before, so a theorem over all
  environments covers every pattern of failures. The record \<open>world\<close> adds that history, the ledger's
  table, and the mutable fields of the consumer. Effectful functions are terms of the library's
  state monad, each call to the outside appends one entry to the history, and \<open>calls m w\<close> are the
  entries a computation makes. Errors are values (GoErrors), a Go function that returns a value
  and an error returns a sum. Numbers are kept at their width where they can overflow: \<open>int32\<close>
  and \<open>int64\<close> wrap, columns of the database are refused out of range, SHA-256 works on 32-bit words.

  \<^bold>\<open>Theories and sources.\<close>
  \<^item> Prelude: the state monad's \<open>ret\<close>, \<open>gets\<close>, \<open>modify\<close>, the relation a computation abides by.
  \<^item> GoUnicode, Utf8, GoStrings, GoTime, Timestamps, Json, JsonRoundtrip, Sha256, GoErrors: what
    the program uses of Go's standard library, on byte strings.
  \<^item> Config (\<open>config.go\<close>), Text (\<open>redact\<close>, \<open>sanitizeStoredText\<close>, \<open>sanitizeName\<close>, \<open>safeReason\<close>),
    ImageRef (the pure half of \<open>builder.go\<close>), Events and EventId (\<open>events.go\<close> and the decoding of
    requests and stored results).
  \<^item> World and Publisher (\<open>rabbit_publisher.go\<close>), Ledger (\<open>ledger.go\<close>: the SQL statements with what
    the server does to the table, the transaction of \<open>Claim\<close>, the ledger in memory), Builder (the
    commands of \<open>builder.go\<close>), Git (\<open>github.go\<close> and the clone).
  \<^item> Consumer, Retry, Delivery, Connection (\<open>build_consumer.go\<close>): the stage body
    \<open>handleClaimedBuildEvent\<close>; \<open>scheduleRetry\<close>, the delay queues and the dead letters;
    \<open>acceptDelivery\<close>, \<open>processDelivery\<close>, the job queue and the worker; \<open>connect\<close>, \<open>disconnect\<close> and
    the loop of \<open>Start\<close> with the worker as the step relation \<open>start_step\<close> with its reachable states,
    and the health handler of \<open>main.go\<close>. Startup is the beginning of \<open>main\<close>, Lifecycle the rest: the
    step relation \<open>main_step\<close> of the process, with the goroutines, the signal, the shutdown and the
    exits. DemoConsumer is the separate demonstration program.
  \<^item> Sharing and Fleet put several workers together: \<open>shared_ledger\<close> is the PostgreSQL ledger with
    the operations of other workers between any two of one handler, and \<open>fleet_step\<close> is the step
    relation of any number of services, which may be killed and restarted, over one table.

  \<^bold>\<open>Interfaces.\<close> LedgerSpec states what a stage ledger promises as the locale \<open>stage_ledger\<close> over an
  abstract entry (a status and two counters), proves there that results are final, leases exclude
  and counters never fall, and interprets it for the ledger in memory; LedgerPg interprets it for
  PostgreSQL, under every fault of a round trip, with a statement that may fail before or after it
  took effect. Sharing states as the locale \<open>stage_holder\<close> the less that the builder of a stage relies on,
  and interprets it for the PostgreSQL ledger alone and shared. Parts states what the consumer needs of its replaceable parts as the locale
  \<open>consumer_parts\<close> and interprets it for the consumer the service wires. Frame classifies calls.

  \<^bold>\<open>Results.\<close>
  \<^item> Deliveries (Settlement, Acceptance, NoLoss): each is settled exactly once; an acknowledged one
    became exactly one job, a confirmed dead letter or a confirmed replay; a finished deployment is
    not built again, its stored events are published again; a leased one is requeued; an invalid
    one is dead-lettered or dropped.
  \<^item> The ledger (LedgerProps, Lease): the claim transaction refines its specification; completion is
    final; a live lease excludes; counters never fall; a renewed lease outlives a failed renewal.
  \<^item> The stage body (StageProps): an outcome is recorded before it is announced, what is announced
    is what was recorded, the work directory is removed, errors are never dropped silently.
  \<^item> Retries (RetryProps, RetryChain): a retry goes to a declared delay queue and carries its
    attempt; at the limit only the failure and the dead letter are sent; chains of retries end.
  \<^item> The service (Service, Startup, Lifecycle): jobs are conserved and drained; the handles, time stamps
    and waits are consistent in every reachable state; the health probe tells the truth; the process
    starts only over a usable ledger, begins no build after a signal, and closes what is open when it exits.
  \<^item> The fleet (Fleet): a deployment is built at most as often as its attempts are counted, whatever
    is delivered twice, fails or is restarted; a finished one is never built again.
  \<^item> The build (BuilderProps, GitProps): the exact commands of a build, its clean-up, where the
    password and the token can appear, the claim sent to GitHub.
  \<^item> Data (EventFacts, Text, ImageRef, Config, EventId): a stored result reads back as it was written,
    identities of events, sanitising, image references, bounds of the configuration.
  \<^item> Outcome and EndToEnd compose them: while the broker and the database answer, every claimed build
    ends recorded and announced, whatever the tools do and whatever other workers do on the ledger
    meanwhile, short of finishing or releasing the stage; where nothing fails, a valid request is
    accepted, built and ends as a success.

  \<^bold>\<open>Termination and bounds.\<close> Every definition is total. The only fuel is that of the JSON reader, which
  gets twice the length of its text: every nested call consumes a character or opens a value, and
  the round trip of JsonRoundtrip shows that it suffices for every document the program writes;
  nesting is limited to 10000 as in the decoder. Durations and instants are integers of
  nanoseconds; the backoff loop runs at most as often as its attempt.

  \<^bold>\<open>Limits.\<close> In the step relations handlers are atomic: a delivery, a turn of the worker and a connection
  attempt each run to their end before the next, and a signal comes between them. Inside a handler, the
  renewal of a lease beside a build is modelled by ticks the environment places after each call, and the
  operations of other workers by Sharing; no call of a handler other than those on the ledger reads the
  table, so it is enough to place them there. What the loop does to the consumer's fields while a build
  runs is not interleaved with it; a connection lost meanwhile shows as an error of the build's next
  publish, which the environment may return at any call. Operations on the ledger are atomic with respect to each other, as the
  row lock of \<open>Claim\<close> and single statements make them. Deadlines appear as errors the environment may return. Log
  output is left out, except in the demonstration program. The properties of queues and exchanges
  that are constants in the code (durable, not exclusive, no-wait off) are not repeated in the calls.
  The server's side of the database is what its documentation says of the statements used; its
  reading of a document into the column type is the parameter \<open>jsonb\<close>, and the rounding of a
  time stamp the parameter \<open>timestamptz\<close>. Key parsing, RSA signing and the text of a number that is
  not an integer are parameters as well.

  \<^bold>\<open>Not modelled.\<close> The accept loop of the HTTP server around the health handler and the delivery of signals,
  which are calls of the runtime with no state of the program: a request and a signal are steps of
  Lifecycle that may happen at any time; the migrations, which are SQL and enter as the checks of Ledger;
  the tests.

  \<^bold>\<open>Plan.\<close> A disconnection in the middle of a build, and the messages of the broker's queues as part of the
  fleet's state.
\<close>

end
